(* ===== verification/Field_Prelude.thy ===== *)
theory Field_Prelude
  imports Main "HOL-Library.Word"
begin

text \<open>
  Shared vocabulary of the development: the machine integer types of Qt
  (\<open>quint16\<close>, \<open>quint64\<close> and so on), the parts of \<open>QString\<close> and \<open>QList\<close> the sources
  use, \<open>steady_clock\<close> time points, and the generic list, option and word lemmas the
  components rely on.  A \<open>QString\<close> is modelled as the list of its Latin-1 code units.
\<close>

unbundle bit_operations_syntax

named_theorems inv_intros
named_theorems inv_simps

subsection \<open>Machine integers and strings\<close>

type_synonym u8 = "8 word"
type_synonym u16 = "16 word"
type_synonym u32 = "32 word"
type_synonym u64 = "64 word"
type_synonym qstring = string

text \<open>Bounds of the 32-bit \<open>int\<close> of the C++ sources.\<close>

definition int_max :: int where "int_max = 2147483647"
definition int_min :: int where "int_min = - 2147483648"

text \<open>
  \<open>QChar::isSpace\<close> on Latin-1: the ASCII white space characters and the next-line and
  no-break-space code points.
\<close>

definition is_space :: "char \<Rightarrow> bool" where
  "is_space c = (let n = (of_char c :: nat)
     in n = 32 \<or> (9 \<le> n \<and> n \<le> 13) \<or> n = 133 \<or> n = 160)"

definition trimmed :: "qstring \<Rightarrow> qstring" where
  "trimmed s = rev (dropWhile is_space (rev (dropWhile is_space s)))"

definition char_to_lower :: "char \<Rightarrow> char" where
  "char_to_lower c = (let n = (of_char c :: nat)
     in if (65 \<le> n \<and> n \<le> 90) \<or> (192 \<le> n \<and> n \<le> 222 \<and> n \<noteq> 215)
        then char_of (n + 32) else c)"

definition to_lower :: "qstring \<Rightarrow> qstring" where
  "to_lower s = map char_to_lower s"

definition blank :: "qstring \<Rightarrow> bool" where
  "blank s = (trimmed s = [])"

text \<open>Decimal rendering, as \<open>QString::number\<close> and \<open>QString::arg(int)\<close> do it.\<close>

definition digit_char :: "nat \<Rightarrow> char" where
  "digit_char n = char_of (48 + n)"

fun show_nat :: "nat \<Rightarrow> qstring" where
  "show_nat n = (if n < 10 then [digit_char n] else show_nat (n div 10) @ [digit_char (n mod 10)])"

declare show_nat.simps [simp del]

definition show_int :: "int \<Rightarrow> qstring" where
  "show_int i = (if i < 0 then CHR ''-'' # show_nat (nat (- i)) else show_nat (nat i))"

text \<open>
  \<open>QString::arg\<close>: every occurrence of the lowest numbered place marker (\<open>%n\<close> or
  \<open>%Ln\<close>, one or two digits) is replaced.  \<open>place_marker\<close> reads a marker at the front
  of a string and gives its number and the text behind it.
\<close>

definition digit_value :: "char \<Rightarrow> nat option" where
  "digit_value c = (let n = (of_char c :: nat) in if 48 \<le> n \<and> n \<le> 57 then Some (n - 48) else None)"

fun marker_digits :: "qstring \<Rightarrow> (nat \<times> qstring) option" where
  "marker_digits [] = None"
| "marker_digits [a] = (case digit_value a of None \<Rightarrow> None | Some d \<Rightarrow> Some (d, []))"
| "marker_digits (a # b # r) =
     (case digit_value a of None \<Rightarrow> None
      | Some d \<Rightarrow> (case digit_value b of None \<Rightarrow> Some (d, b # r) | Some e \<Rightarrow> Some (10 * d + e, r)))"

fun place_marker :: "qstring \<Rightarrow> (nat \<times> qstring) option" where
  "place_marker (p # r) =
     (if p = CHR ''%''
      then (case r of c # r' \<Rightarrow> (if c = CHR ''L'' then marker_digits r' else marker_digits r) | [] \<Rightarrow> None)
      else None)"
| "place_marker [] = None"

lemma marker_digits_shorter: "marker_digits s = Some (n, r) \<Longrightarrow> length r < length s"
  by (induction s rule: marker_digits.induct) (auto split: option.splits)

lemma place_marker_shorter: "place_marker s = Some (n, r) \<Longrightarrow> length r < length s"
  by (cases s) (auto split: if_splits list.splits dest: marker_digits_shorter)

function lowest_marker :: "qstring \<Rightarrow> nat option" where
  "lowest_marker s =
     (case s of [] \<Rightarrow> None
      | _ # t \<Rightarrow>
        (case place_marker s of
           None \<Rightarrow> lowest_marker t
         | Some (n, r) \<Rightarrow>
             (case lowest_marker r of None \<Rightarrow> Some n | Some m \<Rightarrow> Some (min n m))))"
  by pat_completeness auto
termination
  by (relation "measure length") (auto simp del: place_marker.simps dest: place_marker_shorter)

function replace_marker :: "nat \<Rightarrow> qstring \<Rightarrow> qstring \<Rightarrow> qstring" where
  "replace_marker k a s =
     (case s of [] \<Rightarrow> []
      | c # t \<Rightarrow>
        (case place_marker s of
           None \<Rightarrow> c # replace_marker k a t
         | Some (n, r) \<Rightarrow>
             (if n = k then a else take (length s - length r) s) @ replace_marker k a r))"
  by pat_completeness auto
termination
  by (relation "measure (\<lambda>(k, a, s). length s)") (auto simp del: place_marker.simps dest: place_marker_shorter)

declare lowest_marker.simps [simp del] replace_marker.simps [simp del]

definition qarg :: "qstring \<Rightarrow> qstring \<Rightarrow> qstring" where
  "qarg s a = (case lowest_marker s of None \<Rightarrow> s | Some k \<Rightarrow> replace_marker k a s)"

text \<open>The indexed section names of validation messages, \<open>section("transport[%1]", i)\<close>.\<close>

definition qsection :: "qstring \<Rightarrow> nat \<Rightarrow> qstring" where
  "qsection template i = qarg template (show_nat i)"

subsection \<open>Lists as \<open>QList\<close>\<close>

text \<open>\<open>QList::mid(pos, len)\<close> for non-negative arguments and \<open>QList::value(i)\<close>.\<close>

definition mid :: "'a list \<Rightarrow> nat \<Rightarrow> nat \<Rightarrow> 'a list" where
  "mid xs pos n = take n (drop pos xs)"

definition qvalue :: "u16 list \<Rightarrow> nat \<Rightarrow> u16" where
  "qvalue xs i = (if i < length xs then xs ! i else 0)"

lemma qvalue_take [simp]: "i < n \<Longrightarrow> qvalue (take n xs) i = qvalue xs i"
  by (auto simp: qvalue_def)

lemma length_mid [simp]: "length (mid xs pos n) = min n (length xs - pos)"
  by (simp add: mid_def min.commute)

lemma mid_all [simp]: "mid xs 0 (length xs) = xs"
  by (simp add: mid_def)

lemma nth_mid: "i < n \<Longrightarrow> pos + i < length xs \<Longrightarrow> mid xs pos n ! i = xs ! (pos + i)"
  by (simp add: mid_def)

lemma find_SomeD: "find P xs = Some x \<Longrightarrow> x \<in> set xs \<and> P x"
  by (auto simp: find_Some_iff)

text \<open>The indexed loop \<open>for (int i = 0; i < xs.size(); ++i)\<close> that appends errors.\<close>

definition for_each_indexed :: "(nat \<Rightarrow> 'a \<Rightarrow> 'e list) \<Rightarrow> 'a list \<Rightarrow> 'e list" where
  "for_each_indexed f xs = concat (map (\<lambda>(i, x). f i x) (enumerate 0 xs))"

lemma enumerate_map_Suc: "enumerate (Suc n) xs = map (\<lambda>(i, x). (Suc i, x)) (enumerate n xs)"
  by (induction xs arbitrary: n) auto

lemma for_each_indexed_Nil [simp]: "for_each_indexed f [] = []"
  by (simp add: for_each_indexed_def)

lemma for_each_indexed_empty_iff:
  "for_each_indexed f xs = [] \<longleftrightarrow> (\<forall>i < length xs. f i (xs ! i) = [])"
proof -
  have "set (enumerate 0 xs) = {(i, xs ! i) | i. i < length xs}"
    by (auto simp: in_set_enumerate_eq)
  then show ?thesis by (auto simp: for_each_indexed_def)
qed

lemma for_each_indexed_emptyD:
  "for_each_indexed f xs = [] \<Longrightarrow> x \<in> set xs \<Longrightarrow> \<exists>i < length xs. xs ! i = x \<and> f i x = []"
  by (metis for_each_indexed_empty_iff in_set_conv_nth)

subsection \<open>Words below a mask\<close>

lemma le_mask_bits:
  assumes "(w :: u64) \<le> mask k" "bit w n" shows "n < k"
proof (cases "k < 64")
  case True
  have "unat w \<le> unat (mask k :: u64)" using assms(1) by (simp add: word_le_nat_alt)
  also have "unat (mask k :: u64) = mask k"
    using True by (intro bit_eqI) (auto simp: bit_unsigned_iff bit_mask_iff)
  finally have "unat w \<le> 2 ^ k - 1" by (simp add: mask_eq_exp_minus_1)
  moreover have "(0 :: nat) < 2 ^ k" by simp
  ultimately have "unat w < 2 ^ k" by linarith
  then have "take_bit k (unat w) = unat w" by (simp add: take_bit_nat_eq_self)
  moreover have "bit (unat w) n" using assms(2) by (simp add: bit_unsigned_iff)
  ultimately show ?thesis by (metis bit_take_bit_iff)
next
  case False
  then show ?thesis using bit_imp_le_length [OF assms(2)] by simp
qed

text \<open>A 64-bit counter distinguishes counts below its range.\<close>

lemma of_nat_u64_inj:
  assumes "a < 2 ^ 64" "b < 2 ^ 64" "(of_nat a :: u64) = of_nat b" shows "a = b"
proof -
  have "take_bit 64 a = take_bit 64 b"
    using assms(3) word_of_nat_eq_iff [where ?'a = 64, of a b] by simp
  then show ?thesis using take_bit_nat_eq_self [OF assms(1)] take_bit_nat_eq_self [OF assms(2)] by metis
qed

subsection \<open>Time points\<close>

text \<open>
  \<open>std::chrono::steady_clock\<close> time points are nanosecond counts; the epoch is 0.
  \<open>duration_cast<milliseconds>\<close> truncates towards zero.
\<close>

type_synonym time_ns = int

definition milliseconds :: "int \<Rightarrow> int" where
  "milliseconds n = n * 1000000"

definition duration_ms :: "int \<Rightarrow> int" where
  "duration_ms d = sgn d * (\<bar>d\<bar> div 1000000)"

lemma milliseconds_mono [simp]: "milliseconds a \<le> milliseconds b \<longleftrightarrow> a \<le> b"
  by (simp add: milliseconds_def)

lemma duration_ms_ge_iff: "0 \<le> n \<Longrightarrow> 0 \<le> d \<Longrightarrow> n \<le> duration_ms d \<longleftrightarrow> milliseconds n \<le> d"
  unfolding duration_ms_def milliseconds_def sgn_if by (cases "d = 0"; simp; linarith)

lemma duration_ms_lower: "0 \<le> d \<Longrightarrow> d < milliseconds (duration_ms d + 1)"
  by (cases "d = 0") (auto simp: duration_ms_def milliseconds_def sgn_if)

subsection \<open>Arrays indexed by a priority lane\<close>

lemma sum_list_update_nat:
  "k < length xs \<Longrightarrow> sum_list (xs[k := v]) + xs ! k = sum_list xs + (v :: nat)"
proof (induction xs arbitrary: k)
  case (Cons x xs)
  then show ?case by (cases k) auto
qed simp

lemma filter_partition_length:
  "length (filter P xs) + length (filter (\<lambda>x. \<not> P x) xs) = length xs"
  by (rule sum_length_filter_compl)

subsection \<open>Transition systems\<close>

text \<open>
  Reachability by a step relation, and the interface every stateful component of the
  development implements: an invariant that holds initially and is kept by every step.
\<close>

inductive reach :: "('s \<Rightarrow> bool) \<Rightarrow> ('s \<Rightarrow> 's \<Rightarrow> bool) \<Rightarrow> 's \<Rightarrow> bool" for init step where
  reach_init: "init s \<Longrightarrow> reach init step s"
| reach_step: "reach init step s \<Longrightarrow> step s t \<Longrightarrow> reach init step t"

locale transition_system =
  fixes init :: "'s \<Rightarrow> bool" and step :: "'s \<Rightarrow> 's \<Rightarrow> bool" and inv :: "'s \<Rightarrow> bool"
  assumes init_inv: "init s \<Longrightarrow> inv s"
    and step_inv: "inv s \<Longrightarrow> step s t \<Longrightarrow> inv t"
begin

lemma reach_inv: "reach init step s \<Longrightarrow> inv s"
  by (induction rule: reach.induct) (auto intro: init_inv step_inv)

lemma run_inv: "inv s \<Longrightarrow> step\<^sup>*\<^sup>* s t \<Longrightarrow> inv t"
  by (erule rtranclp_induct) (auto intro: step_inv)

end

lemma fold_invariant:
  "(\<And>x s. x \<in> set xs \<Longrightarrow> P s \<Longrightarrow> P (f x s)) \<Longrightarrow> P s \<Longrightarrow> P (fold f xs s)"
  by (induction xs arbitrary: s) auto

end
