(* ===== verification/Scheduler.thy ===== *)
theory Scheduler
  imports Field_Prelude
begin

text \<open>
  The request scheduler: \<open>include/core/sched/SchedulerTypes.h\<close> and
  \<open>src/SerialScheduler.cpp\<close>.  One record is the state of \<open>SerialScheduler::Impl\<close>; the
  \<open>PendingEntry\<close> objects that lanes, waiting threads and completion closures share are
  cells of the store \<open>entries\<close>, addressed by number.  Every definition below is one
  critical section of the source (the code between taking and releasing \<open>mtx\<close>); the clock
  is read once per critical section and passed as \<open>now\<close>.  The interleaving of the
  critical sections is the subject of the theory \<open>Scheduler_System\<close>.
\<close>

subsection \<open>Types\<close>

text \<open>\<open>enum class Priority : int\<close>: any \<open>int\<close> is a value of the type.\<close>

type_synonym Priority = int

abbreviation (input) Priority_Low :: Priority where "Priority_Low \<equiv> 0"
abbreviation (input) Priority_Normal :: Priority where "Priority_Normal \<equiv> 1"
abbreviation (input) Priority_High :: Priority where "Priority_High \<equiv> 2"
abbreviation (input) Priority_Critical :: Priority where "Priority_Critical \<equiv> 3"

definition kPriorityCount :: nat where "kPriorityCount = 4"

datatype ResultKind = Ok | Cancelled | CircuitOpen | Error
datatype SchedulerKind = Serial | Credit | PriorityKind
datatype CircuitState = Closed | Open | HalfOpen
datatype Mode = Unset | Sync | Async
datatype PendingState = Queued | Selected | CancelledEntry

record RequestTag =
  tag_moduleId :: qstring
  tag_priority :: Priority
  tag_interruptable :: bool

record SchedulerConfig =
  cfg_kind :: SchedulerKind
  cfg_interRequestGapMs :: int
  cfg_maxQueueDepth :: int
  cfg_maxInflight :: int
  cfg_starvationGuardMs :: int
  cfg_fifoWithinLane :: bool
  cfg_circuitBreakerThreshold :: int
  cfg_circuitBreakerOpenMs :: int

definition defaultSchedulerConfig :: SchedulerConfig where
  "defaultSchedulerConfig = \<lparr>cfg_kind = Serial, cfg_interRequestGapMs = 0, cfg_maxQueueDepth = 256,
     cfg_maxInflight = 1, cfg_starvationGuardMs = 5000, cfg_fifoWithinLane = True,
     cfg_circuitBreakerThreshold = 10, cfg_circuitBreakerOpenMs = 5000\<rparr>"

record SubmitResult =
  res_kind :: ResultKind
  res_errorMessage :: qstring
  res_latencyMs :: int

record PendingEntry =
  ent_tag :: RequestTag
  ent_state :: PendingState
  ent_queuedAt :: time_ns
  ent_async :: bool
  ent_startAt :: time_ns
  ent_completed :: bool

record SchedulerStats =
  st_queueDepth :: int
  st_inflight :: int
  st_maxQueueDepth :: int
  st_totalSubmitted :: u64
  st_totalCompleted :: u64
  st_totalFailed :: u64
  st_totalCancelled :: u64
  st_p50LatencyMs :: int
  st_p99LatencyMs :: int
  st_laneQueueDepth :: "int list"
  st_circuitState :: CircuitState
  st_circuitErrorStreak :: int

text \<open>
  \<open>SerialScheduler::Impl\<close>.  \<open>hasDelayFn\<close> records whether a deferred-pump hook is
  installed; \<open>entries\<close> and \<open>next_entry\<close> are the heap of shared \<open>PendingEntry\<close> objects.
\<close>

record Scheduler =
  cfg :: SchedulerConfig
  entries :: "nat \<Rightarrow> PendingEntry"
  next_entry :: nat
  lanes :: "nat \<Rightarrow> nat list"
  lastServedModule :: "nat \<Rightarrow> qstring"
  inflightCount :: int
  lastCompleteAt :: time_ns
  latencyWindow :: "int list"
  totalSubmitted :: u64
  totalCompleted :: u64
  totalFailed :: u64
  totalCancelled :: u64
  lastLatencyMs :: int
  circuitState :: CircuitState
  errorStreak :: int
  circuitOpenedAt :: time_ns
  hasDelayFn :: bool
  delayScheduled :: bool
  pumping :: bool
  repump :: bool
  stopped :: bool
  mode :: Mode

subsection \<open>The latency window\<close>

definition latencyWindowCapacity :: nat where "latencyWindowCapacity = 256"

definition latencyPush :: "int list \<Rightarrow> int \<Rightarrow> int list" where
  "latencyPush samples latencyMs =
     (if latencyWindowCapacity \<le> length samples then tl samples else samples) @ [latencyMs]"

text \<open>
  \<open>percentile(q)\<close> with \<open>q = num / den\<close>.  For at most 256 samples the product
  \<open>0.50 * (n - 1)\<close> is exact and \<open>0.99 * (n - 1)\<close> truncates to the same index as
  \<open>99 * (n - 1) / 100\<close>, so the index is written in integer arithmetic.
\<close>

definition percentile :: "int list \<Rightarrow> nat \<Rightarrow> nat \<Rightarrow> int" where
  "percentile samples num den =
     (if samples = [] then 0
      else let tmp = sort samples; idx = num * (length tmp - 1) div den
           in tmp ! (if length tmp \<le> idx then length tmp - 1 else idx))"

subsection \<open>Construction\<close>

definition emptyEntry :: PendingEntry where
  "emptyEntry = \<lparr>ent_tag = \<lparr>tag_moduleId = [], tag_priority = Priority_Normal, tag_interruptable = False\<rparr>,
     ent_state = Queued, ent_queuedAt = 0, ent_async = False, ent_startAt = 0, ent_completed = False\<rparr>"

definition clampConfig :: "SchedulerConfig \<Rightarrow> SchedulerConfig" where
  "clampConfig c =
     (let c = (if cfg_maxInflight c < 1 then c\<lparr>cfg_maxInflight := 1\<rparr> else c);
          c = (if cfg_maxQueueDepth c < 1 then c\<lparr>cfg_maxQueueDepth := 1\<rparr> else c);
          c = (if cfg_interRequestGapMs c < 0 then c\<lparr>cfg_interRequestGapMs := 0\<rparr> else c);
          c = (if cfg_circuitBreakerOpenMs c < 0 then c\<lparr>cfg_circuitBreakerOpenMs := 0\<rparr> else c)
      in c)"

definition serialScheduler :: "SchedulerConfig \<Rightarrow> Scheduler" where
  "serialScheduler c = \<lparr>cfg = clampConfig c, entries = (\<lambda>_. emptyEntry), next_entry = 0,
     lanes = (\<lambda>_. []), lastServedModule = (\<lambda>_. []), inflightCount = 0, lastCompleteAt = 0,
     latencyWindow = [], totalSubmitted = 0, totalCompleted = 0, totalFailed = 0,
     totalCancelled = 0, lastLatencyMs = 0, circuitState = Closed, errorStreak = 0,
     circuitOpenedAt = 0, hasDelayFn = False, delayScheduled = False, pumping = False,
     repump = False, stopped = False, mode = Unset\<rparr>"

text \<open>\<open>makeScheduler\<close>: the kind decides how the limits are read.\<close>

definition effectiveConfig :: "SchedulerConfig \<Rightarrow> SchedulerConfig" where
  "effectiveConfig c =
     (case cfg_kind c of
        Serial \<Rightarrow> c\<lparr>cfg_maxInflight := 1, cfg_starvationGuardMs := 0\<rparr>
      | Credit \<Rightarrow>
          (if cfg_maxInflight c < 1 then c\<lparr>cfg_maxInflight := 1\<rparr> else c)\<lparr>cfg_starvationGuardMs := 0\<rparr>
      | PriorityKind \<Rightarrow>
          (let c = (if cfg_maxInflight c < 1 then c\<lparr>cfg_maxInflight := 1\<rparr> else c)
           in if cfg_starvationGuardMs c \<le> 0 then c\<lparr>cfg_starvationGuardMs := 5000\<rparr> else c))"

definition makeScheduler :: "SchedulerConfig \<Rightarrow> Scheduler" where
  "makeScheduler c = serialScheduler (effectiveConfig c)"

text \<open>\<open>CreditScheduler\<close> and \<open>PriorityScheduler\<close> fix the kind and delegate.\<close>

definition creditScheduler :: "SchedulerConfig \<Rightarrow> Scheduler" where
  "creditScheduler c = makeScheduler (c\<lparr>cfg_kind := Credit\<rparr>)"

definition priorityScheduler :: "SchedulerConfig \<Rightarrow> Scheduler" where
  "priorityScheduler c = makeScheduler (c\<lparr>cfg_kind := PriorityKind\<rparr>)"

subsection \<open>Circuit breaker\<close>

definition updateCircuitLocked :: "time_ns \<Rightarrow> Scheduler \<Rightarrow> Scheduler" where
  "updateCircuitLocked now s =
     (if circuitState s = Open
         \<and> milliseconds (cfg_circuitBreakerOpenMs (cfg s)) \<le> now - circuitOpenedAt s
      then s\<lparr>circuitState := HalfOpen\<rparr> else s)"

definition recordFailureLocked :: "time_ns \<Rightarrow> Scheduler \<Rightarrow> Scheduler" where
  "recordFailureLocked now s =
     (let s = s\<lparr>errorStreak := errorStreak s + 1, totalFailed := totalFailed s + 1\<rparr>
      in if 0 < cfg_circuitBreakerThreshold (cfg s)
            \<and> cfg_circuitBreakerThreshold (cfg s) \<le> errorStreak s
         then s\<lparr>circuitState := Open, circuitOpenedAt := now\<rparr> else s)"

definition recordSuccessLocked :: "Scheduler \<Rightarrow> Scheduler" where
  "recordSuccessLocked s =
     (let s = s\<lparr>errorStreak := 0, totalCompleted := totalCompleted s + 1\<rparr>
      in if circuitState s = HalfOpen then s\<lparr>circuitState := Closed\<rparr> else s)"

subsection \<open>Lane selection\<close>

definition totalQueueDepthLocked :: "Scheduler \<Rightarrow> int" where
  "totalQueueDepthLocked s = (\<Sum>p\<leftarrow>[0..<kPriorityCount]. int (length (lanes s p)))"

definition starvedLaneLocked :: "time_ns \<Rightarrow> Scheduler \<Rightarrow> nat option" where
  "starvedLaneLocked now s =
     (if cfg_starvationGuardMs (cfg s) \<le> 0 then None
      else find (\<lambda>p. case lanes s p of [] \<Rightarrow> False
                     | e # _ \<Rightarrow> milliseconds (cfg_starvationGuardMs (cfg s)) \<le> now - ent_queuedAt (entries s e))
             [0..<kPriorityCount])"

text \<open>The choice of a lane, shared by \<open>pumpLocked\<close> and \<open>selectAsyncLocked\<close>.\<close>

definition pickedLane :: "time_ns \<Rightarrow> Scheduler \<Rightarrow> nat option" where
  "pickedLane now s =
     (case starvedLaneLocked now s of
        Some p \<Rightarrow> Some p
      | None \<Rightarrow> find (\<lambda>p. lanes s p \<noteq> []) (rev [0..<kPriorityCount]))"

text \<open>The iterator \<open>it\<close> inside the lane: its front, or the first entry of another module.\<close>

definition pickedEntry :: "Scheduler \<Rightarrow> nat \<Rightarrow> nat option" where
  "pickedEntry s p =
     (case lanes s p of [] \<Rightarrow> None
      | e # _ \<Rightarrow>
        (if \<not> cfg_fifoWithinLane (cfg s) \<and> 1 < length (lanes s p) \<and> lastServedModule s p \<noteq> []
         then (case find (\<lambda>e'. tag_moduleId (ent_tag (entries s e')) \<noteq> lastServedModule s p) (lanes s p) of
                 Some rr \<Rightarrow> Some rr | None \<Rightarrow> Some e)
         else Some e))"

definition takeEntry :: "time_ns \<Rightarrow> Scheduler \<Rightarrow> (nat \<times> nat) option" where
  "takeEntry now s =
     (case pickedLane now s of None \<Rightarrow> None
      | Some p \<Rightarrow> (case pickedEntry s p of None \<Rightarrow> None | Some e \<Rightarrow> Some (p, e)))"

definition dispatchEntry :: "nat \<Rightarrow> nat \<Rightarrow> Scheduler \<Rightarrow> Scheduler" where
  "dispatchEntry p e s =
     s\<lparr>lanes := (lanes s)(p := remove1 e (lanes s p)),
       lastServedModule := (lastServedModule s)(p := tag_moduleId (ent_tag (entries s e))),
       entries := (entries s)(e := (entries s e)\<lparr>ent_state := Selected\<rparr>),
       inflightCount := inflightCount s + 1\<rparr>"

subsection \<open>Generic facts on picking\<close>

lemma lane_sum_unfold:
  "totalQueueDepthLocked s = int (length (lanes s 0)) + int (length (lanes s 1))
     + int (length (lanes s 2)) + int (length (lanes s 3))"
  by (simp add: totalQueueDepthLocked_def kPriorityCount_def upt_rec numeral_eq_Suc)

lemma totalQueueDepth_nonneg [simp]: "0 \<le> totalQueueDepthLocked s"
  by (simp add: lane_sum_unfold)

lemma totalQueueDepth_zero_iff:
  "totalQueueDepthLocked s = 0 \<longleftrightarrow> (\<forall>p < kPriorityCount. lanes s p = [])"
proof
  assume "totalQueueDepthLocked s = 0"
  then have "length (lanes s 0) = 0 \<and> length (lanes s 1) = 0 \<and> length (lanes s 2) = 0
      \<and> length (lanes s 3) = 0"
    unfolding lane_sum_unfold by linarith
  then show "\<forall>p < kPriorityCount. lanes s p = []"
    by (simp add: kPriorityCount_def eval_nat_numeral All_less_Suc)
qed (simp add: lane_sum_unfold kPriorityCount_def)

lemma pickedLane_nonempty: "pickedLane now s = Some p \<Longrightarrow> p < kPriorityCount \<and> lanes s p \<noteq> []"
  by (fastforce simp: pickedLane_def starvedLaneLocked_def dest!: find_SomeD
      split: option.splits if_splits list.splits)

lemma pickedEntry_in_lane: "pickedEntry s p = Some e \<Longrightarrow> e \<in> set (lanes s p)"
  by (auto simp: pickedEntry_def find_Some_iff split: list.splits if_splits option.splits)

lemma pickedEntry_None_iff: "pickedEntry s p = None \<longleftrightarrow> lanes s p = []"
  by (auto simp: pickedEntry_def split: list.splits option.splits)

lemma takeEntry_SomeD:
  "takeEntry now s = Some (p, e) \<Longrightarrow> p < kPriorityCount \<and> e \<in> set (lanes s p)"
  by (auto simp: takeEntry_def dest: pickedLane_nonempty pickedEntry_in_lane split: option.splits)

lemma takeEntry_None_iff: "takeEntry now s = None \<longleftrightarrow> totalQueueDepthLocked s = 0"
proof
  assume none: "takeEntry now s = None"
  have "pickedLane now s = None"
    using none pickedLane_nonempty [of now s] pickedEntry_None_iff [of s]
    by (auto simp: takeEntry_def split: option.splits)
  then have "\<forall>p \<in> set (rev [0..<kPriorityCount]). lanes s p = []"
    by (auto simp: pickedLane_def find_None_iff split: option.splits)
  then show "totalQueueDepthLocked s = 0"
    by (simp add: totalQueueDepth_zero_iff)
next
  assume "totalQueueDepthLocked s = 0"
  then have "\<forall>p < kPriorityCount. lanes s p = []"
    by (simp add: totalQueueDepth_zero_iff)
  then show "takeEntry now s = None"
    using takeEntry_SomeD [of now s] by (cases "takeEntry now s") force+
qed

lemma dispatchEntry_depth:
  assumes "p < kPriorityCount" "e \<in> set (lanes s p)"
  shows "totalQueueDepthLocked (dispatchEntry p e s) = totalQueueDepthLocked s - 1"
proof -
  have "lanes s p \<noteq> []" using assms(2) by auto
  then have "int (length (lanes s p) - Suc 0) = int (length (lanes s p)) - 1"
    by (cases "lanes s p") auto
  moreover have "p = 0 \<or> p = 1 \<or> p = 2 \<or> p = 3"
    using assms(1) by (auto simp: kPriorityCount_def)
  ultimately show ?thesis
    using assms(2) by (auto simp: lane_sum_unfold dispatchEntry_def length_remove1)
qed

lemma takeEntry_depth:
  assumes "takeEntry now s = Some (p, e)"
  shows "nat (totalQueueDepthLocked (dispatchEntry p e s)) < nat (totalQueueDepthLocked s)"
proof -
  have "totalQueueDepthLocked s \<noteq> 0"
    using assms takeEntry_None_iff [of now s] by auto
  then have "0 < totalQueueDepthLocked s"
    using totalQueueDepth_nonneg [of s] by linarith
  moreover have "totalQueueDepthLocked (dispatchEntry p e s) = totalQueueDepthLocked s - 1"
    using takeEntry_SomeD [OF assms] dispatchEntry_depth by blast
  ultimately show ?thesis by simp
qed

subsection \<open>Filling the in-flight slots\<close>

text \<open>\<open>pumpLocked\<close>: the loop that selects entries for waiting synchronous submitters.\<close>

function pumpLocked :: "time_ns \<Rightarrow> Scheduler \<Rightarrow> Scheduler" where
  "pumpLocked now s =
     (if inflightCount s < cfg_maxInflight (cfg s)
      then (case takeEntry now s of None \<Rightarrow> s
            | Some (p, e) \<Rightarrow> pumpLocked now (dispatchEntry p e s))
      else s)"
  by pat_completeness auto
termination
  by (relation "measure (\<lambda>(now, s). nat (totalQueueDepthLocked s))") (auto dest: takeEntry_depth)

declare pumpLocked.simps [simp del]

definition startEntry :: "time_ns \<Rightarrow> nat \<Rightarrow> Scheduler \<Rightarrow> Scheduler" where
  "startEntry now e s = s\<lparr>entries := (entries s)(e := (entries s e)\<lparr>ent_startAt := now\<rparr>)\<rparr>"

lemma startEntry_lanes [simp]: "lanes (startEntry now e s) = lanes s"
  by (simp add: startEntry_def)

lemma startEntry_depth [simp]: "totalQueueDepthLocked (startEntry now e s) = totalQueueDepthLocked s"
  by (simp add: totalQueueDepthLocked_def)

text \<open>The loop of \<open>selectAsyncLocked\<close>: the selected entries are handed to the caller.\<close>

function selectLoop :: "time_ns \<Rightarrow> Scheduler \<Rightarrow> nat list \<times> Scheduler" where
  "selectLoop now s =
     (if inflightCount s < cfg_maxInflight (cfg s)
      then (case takeEntry now s of None \<Rightarrow> ([], s)
            | Some (p, e) \<Rightarrow>
                (case selectLoop now (startEntry now e (dispatchEntry p e s)) of
                   (toRun, s') \<Rightarrow> (e # toRun, s')))
      else ([], s))"
  by pat_completeness auto
termination
  by (relation "measure (\<lambda>(now, s). nat (totalQueueDepthLocked s))") (auto dest: takeEntry_depth)

declare selectLoop.simps [simp del]

definition selectAsyncLocked :: "time_ns \<Rightarrow> Scheduler \<Rightarrow> nat list \<times> int \<times> Scheduler" where
  "selectAsyncLocked now s =
     (if stopped s then ([], 0, s)
      else if hasDelayFn s \<and> 0 < cfg_interRequestGapMs (cfg s) \<and> 0 < lastCompleteAt s
              \<and> now - lastCompleteAt s < milliseconds (cfg_interRequestGapMs (cfg s))
      then (if \<not> delayScheduled s \<and> 0 < totalQueueDepthLocked s
            then ([], duration_ms (milliseconds (cfg_interRequestGapMs (cfg s)) - (now - lastCompleteAt s)) + 1,
                  s\<lparr>delayScheduled := True\<rparr>)
            else ([], 0, s))
      else (case selectLoop now s of (toRun, s') \<Rightarrow> (toRun, 0, s')))"

subsection \<open>Cancellation of queued synchronous entries\<close>

definition cancelInLane :: "(PendingEntry \<Rightarrow> bool) \<Rightarrow> nat \<Rightarrow> nat \<times> Scheduler \<Rightarrow> nat \<times> Scheduler" where
  "cancelInLane victim p ns =
     (case ns of (n, s) \<Rightarrow>
       let k = length (filter (\<lambda>e. victim (entries s e)) (lanes s p));
           ents = (\<lambda>e. if e \<in> set (lanes s p) \<and> victim (entries s e)
                      then (entries s e)\<lparr>ent_state := CancelledEntry\<rparr> else entries s e)
       in (n + k, s\<lparr>entries := ents,
                    lanes := (lanes s)(p := filter (\<lambda>e. ent_state (ents e) \<noteq> CancelledEntry) (lanes s p)),
                    totalCancelled := totalCancelled s + of_nat k\<rparr>))"

definition preemptVictim :: "PendingEntry \<Rightarrow> bool" where
  "preemptVictim en = (ent_state en = Queued \<and> tag_interruptable (ent_tag en) \<and> \<not> ent_async en)"

definition preemptLowerInterruptablesLocked :: "Priority \<Rightarrow> Scheduler \<Rightarrow> nat \<times> Scheduler" where
  "preemptLowerInterruptablesLocked high s =
     fold (cancelInLane preemptVictim) [0..<nat high] (0, s)"

definition cancelModuleVictim :: "qstring \<Rightarrow> PendingEntry \<Rightarrow> bool" where
  "cancelModuleVictim moduleId en =
     (tag_moduleId (ent_tag en) = moduleId \<and> ent_state en = Queued \<and> \<not> ent_async en)"

definition cancelModule :: "qstring \<Rightarrow> Scheduler \<Rightarrow> nat \<times> Scheduler" where
  "cancelModule moduleId s =
     fold (cancelInLane (cancelModuleVictim moduleId)) [0..<kPriorityCount] (0, s)"

subsection \<open>Submission\<close>

definition rejectWith :: "ResultKind \<Rightarrow> qstring \<Rightarrow> SubmitResult" where
  "rejectWith k msg = \<lparr>res_kind = k, res_errorMessage = msg, res_latencyMs = 0\<rparr>"

definition okResult :: "int \<Rightarrow> SubmitResult" where
  "okResult latency = \<lparr>res_kind = ResultKind.Ok, res_errorMessage = [], res_latencyMs = latency\<rparr>"

text \<open>The admission test both submit paths perform after the mode check.\<close>

definition admission :: "Scheduler \<Rightarrow> SubmitResult option" where
  "admission s =
     (if circuitState s = Open then Some (rejectWith CircuitOpen ''circuit open'')
      else if circuitState s = HalfOpen \<and> (0 < inflightCount s \<or> 0 < totalQueueDepthLocked s)
      then Some (rejectWith CircuitOpen ''half-open probe in progress'')
      else if cfg_maxQueueDepth (cfg s) \<le> totalQueueDepthLocked s + inflightCount s
      then Some (rejectWith ResultKind.Error ''queue full'')
      else None)"

definition enqueue :: "time_ns \<Rightarrow> bool \<Rightarrow> RequestTag \<Rightarrow> Scheduler \<Rightarrow> Scheduler" where
  "enqueue now isAsync tag s =
     (let e = next_entry s; p = nat (tag_priority tag);
          s = s\<lparr>entries := (entries s)(e := \<lparr>ent_tag = tag, ent_state = Queued, ent_queuedAt = now,
                  ent_async = isAsync, ent_startAt = 0, ent_completed = False\<rparr>),
               next_entry := e + 1,
               lanes := (lanes s)(p := lanes s p @ [e]),
               totalSubmitted := totalSubmitted s + 1\<rparr>
      in snd (preemptLowerInterruptablesLocked (tag_priority tag) s))"

definition validPriority :: "RequestTag \<Rightarrow> bool" where
  "validPriority tag = (0 \<le> tag_priority tag \<and> tag_priority tag < int kPriorityCount)"

text \<open>
  \<open>submitAsync\<close> up to the release of the lock; an accepted request is followed by
  \<open>pump(false)\<close>.
\<close>

definition submitAsync :: "time_ns \<Rightarrow> RequestTag \<Rightarrow> Scheduler \<Rightarrow> SubmitResult \<times> Scheduler" where
  "submitAsync now tag s =
     (if \<not> validPriority tag then (rejectWith ResultKind.Error ''invalid priority'', s)
      else if stopped s then (rejectWith ResultKind.Cancelled ''scheduler stopped'', s)
      else if mode s = Sync then (rejectWith ResultKind.Error ''scheduler is in sync mode'', s)
      else let s = updateCircuitLocked now (s\<lparr>mode := Async\<rparr>)
           in case admission s of
                Some r \<Rightarrow> (r, s)
              | None \<Rightarrow> (okResult 0, enqueue now True tag s))"

text \<open>
  \<open>submit\<close>, phase A: \<open>Inl\<close> is an early return, \<open>Inr e\<close> the entry whose selection or
  cancellation the caller waits for.  Phase D releases the slot after the work ran.
\<close>

definition submitEnter :: "time_ns \<Rightarrow> RequestTag \<Rightarrow> Scheduler \<Rightarrow> (SubmitResult + nat) \<times> Scheduler" where
  "submitEnter now tag s =
     (if \<not> validPriority tag then (Inl (rejectWith ResultKind.Error ''invalid priority''), s)
      else if mode s = Async then (Inl (rejectWith ResultKind.Error ''scheduler is in async mode''), s)
      else let s = updateCircuitLocked now (s\<lparr>mode := Sync\<rparr>)
           in case admission s of
                Some r \<Rightarrow> (Inl r, s)
              | None \<Rightarrow> (Inr (next_entry s), pumpLocked now (enqueue now False tag s)))"

text \<open>What a waiting submitter sees: \<open>None\<close> while its entry is still queued.\<close>

definition submitWait :: "nat \<Rightarrow> Scheduler \<Rightarrow> (SubmitResult + unit) option" where
  "submitWait e s =
     (case ent_state (entries s e) of
        Selected \<Rightarrow> Some (Inr ())
      | CancelledEntry \<Rightarrow> Some (Inl (rejectWith ResultKind.Cancelled ''cancelled''))
      | Queued \<Rightarrow> None)"

text \<open>Phase B: how long the selected submitter sleeps before it runs its work.\<close>

definition submitGap :: "time_ns \<Rightarrow> Scheduler \<Rightarrow> int" where
  "submitGap now s =
     (if 0 < cfg_interRequestGapMs (cfg s) \<and> 0 < lastCompleteAt s
         \<and> now - lastCompleteAt s < milliseconds (cfg_interRequestGapMs (cfg s))
      then milliseconds (cfg_interRequestGapMs (cfg s)) - (now - lastCompleteAt s) else 0)"

definition releaseSlot :: "time_ns \<Rightarrow> int \<Rightarrow> bool \<Rightarrow> Scheduler \<Rightarrow> Scheduler" where
  "releaseSlot t latency ok s =
     (let s = s\<lparr>inflightCount := (if 0 < inflightCount s then inflightCount s - 1 else inflightCount s),
               lastCompleteAt := t, lastLatencyMs := latency,
               latencyWindow := latencyPush (latencyWindow s) latency\<rparr>
      in if ok then recordSuccessLocked s else recordFailureLocked t s)"

definition submitFinish :: "time_ns \<Rightarrow> time_ns \<Rightarrow> qstring option \<Rightarrow> Scheduler \<Rightarrow> SubmitResult \<times> Scheduler" where
  "submitFinish t0 t1 failure s =
     (let latency = duration_ms (t1 - t0)
      in ((case failure of None \<Rightarrow> okResult latency
           | Some errMsg \<Rightarrow> \<lparr>res_kind = ResultKind.Error, res_errorMessage = errMsg, res_latencyMs = latency\<rparr>),
          pumpLocked t1 (releaseSlot t1 latency (failure = None) s)))"

subsection \<open>Completion, the pump trampoline and the remaining operations\<close>

definition completeAsync :: "time_ns \<Rightarrow> nat \<Rightarrow> bool \<Rightarrow> Scheduler \<Rightarrow> Scheduler" where
  "completeAsync now e ok s =
     (if ent_completed (entries s e) then s
      else releaseSlot now (duration_ms (now - ent_startAt (entries s e))) ok
             (s\<lparr>entries := (entries s)(e := (entries s e)\<lparr>ent_completed := True\<rparr>)\<rparr>))"

text \<open>
  \<open>pump\<close>: the entry section returns whether the caller becomes the pumping thread, the
  exit section whether the loop goes round again.
\<close>

definition pumpEnter :: "bool \<Rightarrow> Scheduler \<Rightarrow> bool \<times> Scheduler" where
  "pumpEnter fromTimer s =
     (let s = (if fromTimer then s\<lparr>delayScheduled := False\<rparr> else s)
      in if pumping s then (False, s\<lparr>repump := True\<rparr>) else (True, s\<lparr>pumping := True\<rparr>))"

definition pumpLeave :: "Scheduler \<Rightarrow> bool \<times> Scheduler" where
  "pumpLeave s = (if \<not> repump s then (False, s\<lparr>pumping := False\<rparr>) else (True, s\<lparr>repump := False\<rparr>))"

definition setDelayFn :: "bool \<Rightarrow> Scheduler \<Rightarrow> Scheduler" where
  "setDelayFn installed s = s\<lparr>hasDelayFn := installed\<rparr>"

definition stopAsync :: "Scheduler \<Rightarrow> Scheduler" where
  "stopAsync s = s\<lparr>stopped := True\<rparr>"

definition recordFailureForTesting :: "time_ns \<Rightarrow> Scheduler \<Rightarrow> Scheduler" where
  "recordFailureForTesting now s = recordFailureLocked now s"

definition stats :: "time_ns \<Rightarrow> Scheduler \<Rightarrow> SchedulerStats \<times> Scheduler" where
  "stats now s0 =
     (let s = updateCircuitLocked now s0
      in (\<lparr>st_queueDepth = totalQueueDepthLocked s, st_inflight = inflightCount s,
           st_maxQueueDepth = cfg_maxQueueDepth (cfg s), st_totalSubmitted = totalSubmitted s,
           st_totalCompleted = totalCompleted s, st_totalFailed = totalFailed s,
           st_totalCancelled = totalCancelled s,
           st_p50LatencyMs = percentile (latencyWindow s) 50 100,
           st_p99LatencyMs = percentile (latencyWindow s) 99 100,
           st_laneQueueDepth = map (\<lambda>p. int (length (lanes s p))) [0..<kPriorityCount],
           st_circuitState = circuitState s, st_circuitErrorStreak = errorStreak s\<rparr>, s))"

end
