(* ===== verification/Scheduler_Invariants.thy ===== *)
theory Scheduler_Invariants
  imports Scheduler
begin

text \<open>
  The state invariant of the scheduler and that every critical section keeps it: the
  in-flight count never exceeds \<open>maxInflight\<close>, queued plus in-flight work never exceeds
  \<open>maxQueueDepth\<close>, lanes hold distinct queued entries of their own priority, and the
  counters account for every accepted request.
\<close>

definition lanes_ok :: "Scheduler \<Rightarrow> bool" where
  "lanes_ok s \<longleftrightarrow>
     (\<forall>p. distinct (lanes s p)
        \<and> (kPriorityCount \<le> p \<longrightarrow> lanes s p = [])
        \<and> (\<forall>e \<in> set (lanes s p). e < next_entry s \<and> ent_state (entries s e) = Queued
              \<and> nat (tag_priority (ent_tag (entries s e))) = p \<and> \<not> ent_completed (entries s e)))"

definition limits_ok :: "Scheduler \<Rightarrow> bool" where
  "limits_ok s \<longleftrightarrow> 1 \<le> cfg_maxInflight (cfg s) \<and> 0 \<le> inflightCount s
     \<and> inflightCount s \<le> cfg_maxInflight (cfg s)
     \<and> totalQueueDepthLocked s + inflightCount s \<le> cfg_maxQueueDepth (cfg s)"

definition accounted :: "Scheduler \<Rightarrow> bool" where
  "accounted s \<longleftrightarrow> totalSubmitted s
     = of_int (totalQueueDepthLocked s + inflightCount s) + totalCompleted s + totalFailed s + totalCancelled s"

definition sched_inv :: "Scheduler \<Rightarrow> bool" where
  "sched_inv s \<longleftrightarrow> lanes_ok s \<and> limits_ok s \<and> accounted s"

subsection \<open>Construction\<close>

lemma clampConfig_limits:
  "1 \<le> cfg_maxInflight (clampConfig c)" "1 \<le> cfg_maxQueueDepth (clampConfig c)"
  by (auto simp: clampConfig_def Let_def)

lemma serialScheduler_inv: "sched_inv (serialScheduler c)"
  using clampConfig_limits [of c]
  by (simp add: sched_inv_def lanes_ok_def limits_ok_def accounted_def serialScheduler_def lane_sum_unfold)

lemma makeScheduler_inv: "sched_inv (makeScheduler c)"
  by (simp add: makeScheduler_def serialScheduler_inv)

subsection \<open>Fields that leave the invariant alone\<close>

lemma sched_inv_cong:
  assumes "lanes t = lanes s" "entries t = entries s" "next_entry t = next_entry s" "cfg t = cfg s"
    "inflightCount t = inflightCount s" "totalSubmitted t = totalSubmitted s"
    "totalCompleted t + totalFailed t + totalCancelled t
       = totalCompleted s + totalFailed s + totalCancelled s"
  shows "sched_inv t \<longleftrightarrow> sched_inv s"
  using assms
  by (simp add: sched_inv_def lanes_ok_def limits_ok_def accounted_def totalQueueDepthLocked_def
      add.assoc)

lemma updateCircuitLocked_inv [simp]: "sched_inv (updateCircuitLocked now s) \<longleftrightarrow> sched_inv s"
  by (rule sched_inv_cong) (auto simp: updateCircuitLocked_def)

lemma mode_update_inv [simp]: "sched_inv (s\<lparr>mode := m\<rparr>) \<longleftrightarrow> sched_inv s"
  by (rule sched_inv_cong) auto

lemma pumpEnter_inv: "sched_inv s \<Longrightarrow> sched_inv (snd (pumpEnter b s))"
  by (subst sched_inv_cong [of _ s]) (auto simp: pumpEnter_def Let_def)

lemma pumpLeave_inv: "sched_inv s \<Longrightarrow> sched_inv (snd (pumpLeave s))"
  by (subst sched_inv_cong [of _ s]) (auto simp: pumpLeave_def)

lemma setDelayFn_inv: "sched_inv s \<Longrightarrow> sched_inv (setDelayFn b s)"
  by (subst sched_inv_cong [of _ s]) (auto simp: setDelayFn_def)

lemma stopAsync_inv: "sched_inv s \<Longrightarrow> sched_inv (stopAsync s)"
  by (subst sched_inv_cong [of _ s]) (auto simp: stopAsync_def)

lemma stats_inv: "sched_inv s \<Longrightarrow> sched_inv (snd (stats now s))"
  by (simp add: stats_def Let_def)

subsection \<open>Dispatching\<close>

lemma dispatchEntry_lanes_ok:
  assumes "lanes_ok s" "e \<in> set (lanes s p)"
  shows "lanes_ok (dispatchEntry p e s)"
proof -
  have other: "e \<notin> set (lanes s q)" if "q \<noteq> p" for q
    using assms that unfolding lanes_ok_def by metis
  show ?thesis
    unfolding lanes_ok_def
  proof (intro allI conjI)
    fix q
    show "distinct (lanes (dispatchEntry p e s) q)"
      and "kPriorityCount \<le> q \<longrightarrow> lanes (dispatchEntry p e s) q = []"
      and "\<forall>x \<in> set (lanes (dispatchEntry p e s) q). x < next_entry (dispatchEntry p e s)
          \<and> ent_state (entries (dispatchEntry p e s) x) = Queued
          \<and> nat (tag_priority (ent_tag (entries (dispatchEntry p e s) x))) = q
          \<and> \<not> ent_completed (entries (dispatchEntry p e s) x)"
      using assms other [of q] by (auto simp: lanes_ok_def dispatchEntry_def distinct_remove1)
  qed
qed

lemma startEntry_inv [simp]: "sched_inv (startEntry now e s) \<longleftrightarrow> sched_inv s"
  by (auto simp: sched_inv_def lanes_ok_def limits_ok_def accounted_def totalQueueDepthLocked_def
      startEntry_def)

lemma dispatchEntry_inv:
  assumes "sched_inv s" "takeEntry now s = Some (p, e)" "inflightCount s < cfg_maxInflight (cfg s)"
  shows "sched_inv (dispatchEntry p e s)"
proof -
  have pe: "p < kPriorityCount" "e \<in> set (lanes s p)"
    using takeEntry_SomeD [OF assms(2)] by auto
  have depth: "totalQueueDepthLocked (dispatchEntry p e s) = totalQueueDepthLocked s - 1"
    by (rule dispatchEntry_depth [OF pe])
  have "lanes_ok (dispatchEntry p e s)"
    using assms(1) pe(2) by (auto simp: sched_inv_def intro: dispatchEntry_lanes_ok)
  with assms(1,3) depth show ?thesis
    by (simp add: sched_inv_def limits_ok_def accounted_def dispatchEntry_def)
qed

text \<open>A property kept by one dispatch is kept by the selection loops.\<close>

lemma pumpLocked_preserves:
  assumes step: "\<And>s p e. P s \<Longrightarrow> takeEntry now s = Some (p, e)
      \<Longrightarrow> inflightCount s < cfg_maxInflight (cfg s) \<Longrightarrow> P (dispatchEntry p e s)"
    and "P s"
  shows "P (pumpLocked now s)"
  using assms(2)
proof (induction "nat (totalQueueDepthLocked s)" arbitrary: s rule: less_induct)
  case less
  show ?case
  proof (cases "inflightCount s < cfg_maxInflight (cfg s) \<and> takeEntry now s \<noteq> None")
    case True
    then obtain p e where pe: "takeEntry now s = Some (p, e)" by auto
    have "P (pumpLocked now (dispatchEntry p e s))"
      using less.hyps [OF _ step [OF less.prems pe]] takeEntry_depth [OF pe] True by simp
    with True pe show ?thesis
      by (subst pumpLocked.simps) simp
  next
    case False
    with less.prems show ?thesis
      by (subst pumpLocked.simps) (auto split: option.split)
  qed
qed

lemma selectLoop_preserves:
  assumes step: "\<And>s p e. P s \<Longrightarrow> takeEntry now s = Some (p, e)
      \<Longrightarrow> inflightCount s < cfg_maxInflight (cfg s) \<Longrightarrow> P (startEntry now e (dispatchEntry p e s))"
    and "P s"
  shows "P (snd (selectLoop now s))"
  using assms(2)
proof (induction "nat (totalQueueDepthLocked s)" arbitrary: s rule: less_induct)
  case less
  show ?case
  proof (cases "inflightCount s < cfg_maxInflight (cfg s) \<and> takeEntry now s \<noteq> None")
    case True
    then obtain p e where pe: "takeEntry now s = Some (p, e)" by auto
    have "P (snd (selectLoop now (startEntry now e (dispatchEntry p e s))))"
      using less.hyps [OF _ step [OF less.prems pe]] takeEntry_depth [OF pe] True by simp
    with True pe show ?thesis
      by (subst selectLoop.simps) (auto split: prod.split)
  next
    case False
    with less.prems show ?thesis
      by (subst selectLoop.simps) (auto split: option.split)
  qed
qed

lemma pumpLocked_inv: "sched_inv s \<Longrightarrow> sched_inv (pumpLocked now s)"
  by (rule pumpLocked_preserves [where P = sched_inv]) (auto intro: dispatchEntry_inv)

lemma selectLoop_inv: "sched_inv s \<Longrightarrow> sched_inv (snd (selectLoop now s))"
  by (rule selectLoop_preserves [where P = sched_inv]) (auto intro: dispatchEntry_inv)

lemma selectAsyncLocked_inv:
  assumes "sched_inv s"
  shows "sched_inv (snd (snd (selectAsyncLocked now s)))"
proof -
  have "sched_inv (s\<lparr>delayScheduled := True\<rparr>)"
    using assms by (subst sched_inv_cong [of _ s]) auto
  then show ?thesis
    using selectLoop_inv [OF assms, of now] assms
    by (auto simp: selectAsyncLocked_def split: prod.splits)
qed

subsection \<open>Cancelling queued entries\<close>

lemma cancelInLane_inv:
  assumes inv: "sched_inv s" and p: "p < kPriorityCount"
    and victim: "\<And>en. victim en \<Longrightarrow> ent_state en = Queued"
  shows "sched_inv (snd (cancelInLane victim p (n, s)))"
proof -
  define t where "t = snd (cancelInLane victim p (n, s))"
  have ok: "lanes_ok s" using inv by (simp add: sched_inv_def)
  define keep where "keep = filter (\<lambda>e. \<not> victim (entries s e)) (lanes s p)"
  have lane: "lanes t p = keep" unfolding t_def keep_def
    using ok by (auto simp: cancelInLane_def Let_def lanes_ok_def intro!: filter_cong)
  have t: "lanes t = (lanes s)(p := keep)" "cfg t = cfg s" "inflightCount t = inflightCount s"
      "totalSubmitted t = totalSubmitted s" "totalCompleted t = totalCompleted s"
      "totalFailed t = totalFailed s" "next_entry t = next_entry s"
      "totalCancelled t = totalCancelled s + of_nat (length (filter (\<lambda>e. victim (entries s e)) (lanes s p)))"
    using lane by (auto simp: t_def cancelInLane_def Let_def)
  have len: "int (length keep) = int (length (lanes s p))
      - int (length (filter (\<lambda>e. victim (entries s e)) (lanes s p)))"
    using filter_partition_length [of "\<lambda>e. victim (entries s e)" "lanes s p"]
    unfolding keep_def by linarith
  have depth: "totalQueueDepthLocked t = totalQueueDepthLocked s
      - int (length (filter (\<lambda>e. victim (entries s e)) (lanes s p)))"
    using p len unfolding lane_sum_unfold t
    by (auto simp: kPriorityCount_def eval_nat_numeral less_Suc_eq)
  have other: "e \<notin> set (lanes s p)" if "e \<in> set (lanes s q)" "q \<noteq> p" for e q
    using that ok unfolding lanes_ok_def by metis
  have ents: "entries t e = entries s e" if "e \<in> set (lanes t q)" for e q
    using that other unfolding t by (auto simp: t_def cancelInLane_def Let_def keep_def
        split: if_splits)
  have "lanes_ok t"
    using ok ents unfolding lanes_ok_def t(7)
    by (auto simp: t keep_def split: if_splits)
  with inv depth show ?thesis
    unfolding t_def [symmetric] by (simp add: sched_inv_def limits_ok_def accounted_def t)
qed

lemma cancel_fold_inv:
  assumes "sched_inv s" "set ps \<subseteq> {..<kPriorityCount}"
    and "\<And>en. victim en \<Longrightarrow> ent_state en = Queued"
  shows "sched_inv (snd (fold (cancelInLane victim) ps (n, s)))"
  by (rule fold_invariant [where P = "\<lambda>ns. sched_inv (snd ns)"])
    (use assms cancelInLane_inv in \<open>auto simp: subset_iff\<close>)

lemma cancelModule_inv: "sched_inv s \<Longrightarrow> sched_inv (snd (cancelModule m s))"
  unfolding cancelModule_def by (rule cancel_fold_inv) (auto simp: cancelModuleVictim_def)

lemma preempt_inv:
  "sched_inv s \<Longrightarrow> high < int kPriorityCount \<Longrightarrow> sched_inv (snd (preemptLowerInterruptablesLocked high s))"
  unfolding preemptLowerInterruptablesLocked_def
  by (rule cancel_fold_inv) (auto simp: preemptVictim_def)

subsection \<open>Submission and completion\<close>

lemma admission_None:
  "admission s = None \<Longrightarrow> totalQueueDepthLocked s + inflightCount s < cfg_maxQueueDepth (cfg s)
     \<and> circuitState s \<noteq> Open \<and> (circuitState s = HalfOpen \<longrightarrow> inflightCount s \<le> 0 \<and> totalQueueDepthLocked s = 0)"
  using totalQueueDepth_nonneg [of s] unfolding admission_def by (auto split: if_splits simp del: totalQueueDepth_nonneg)

lemma enqueue_inv:
  assumes inv: "sched_inv s" and adm: "admission s = None" and prio: "validPriority tag"
  shows "sched_inv (enqueue now a tag s)"
proof -
  define p where "p = nat (tag_priority tag)"
  define t where "t = s\<lparr>entries := (entries s)(next_entry s := \<lparr>ent_tag = tag, ent_state = Queued,
      ent_queuedAt = now, ent_async = a, ent_startAt = 0, ent_completed = False\<rparr>),
      next_entry := next_entry s + 1, lanes := (lanes s)(p := lanes s p @ [next_entry s]),
      totalSubmitted := totalSubmitted s + 1\<rparr>"
  have p: "p < kPriorityCount" "tag_priority tag < int kPriorityCount"
    using prio by (auto simp: p_def validPriority_def)
  have depth: "totalQueueDepthLocked t = totalQueueDepthLocked s + 1"
    using p unfolding lane_sum_unfold t_def
    by (auto simp: kPriorityCount_def eval_nat_numeral less_Suc_eq)
  have "lanes_ok t"
    using inv p unfolding sched_inv_def lanes_ok_def t_def
    by (auto simp: p_def less_Suc_eq)
  then have "sched_inv t"
    using inv depth admission_None [OF adm]
    by (simp add: sched_inv_def limits_ok_def accounted_def t_def)
  then show ?thesis
    using preempt_inv p(2) by (simp add: enqueue_def Let_def t_def p_def)
qed

lemma submitAsync_inv: "sched_inv s \<Longrightarrow> sched_inv (snd (submitAsync now tag s))"
  by (auto simp: submitAsync_def Let_def intro: enqueue_inv split: option.split)

lemma submitEnter_inv: "sched_inv s \<Longrightarrow> sched_inv (snd (submitEnter now tag s))"
  by (auto simp: submitEnter_def Let_def intro!: enqueue_inv pumpLocked_inv split: option.split)

lemma releaseSlot_inv: "sched_inv s \<Longrightarrow> 0 < inflightCount s \<Longrightarrow> sched_inv (releaseSlot t l ok s)"
  by (auto simp: releaseSlot_def Let_def recordSuccessLocked_def recordFailureLocked_def sched_inv_def
      lanes_ok_def limits_ok_def accounted_def totalQueueDepthLocked_def)

lemma submitFinish_inv: "sched_inv s \<Longrightarrow> 0 < inflightCount s \<Longrightarrow> sched_inv (snd (submitFinish t0 t1 f s))"
  by (simp add: submitFinish_def Let_def pumpLocked_inv releaseSlot_inv)

lemma completeAsync_inv:
  assumes "sched_inv s" "0 < inflightCount s" "ent_state (entries s e) = Selected"
  shows "sched_inv (completeAsync now e ok s)"
proof -
  have "sched_inv (s\<lparr>entries := (entries s)(e := (entries s e)\<lparr>ent_completed := True\<rparr>)\<rparr>)"
    using assms(1,3) by (auto simp: sched_inv_def lanes_ok_def limits_ok_def accounted_def
        totalQueueDepthLocked_def)
  with assms show ?thesis by (simp add: completeAsync_def releaseSlot_inv)
qed

end
