(* ===== verification/Scheduler_System.thy ===== *)
theory Scheduler_System
  imports Scheduler_Invariants
begin

text \<open>
  The event-driven path of the scheduler as a system of interleaved critical sections:
  submitting threads, completion callbacks, the deferred-pump timer and the one thread that
  currently owns the pump (\<open>SerialScheduler::Impl::pump\<close>, \<open>runAsync\<close>, \<open>completeAsync\<close>).
  \<open>pc\<close> is the position of the pump owner in the loop of \<open>pump\<close>, \<open>pendingPumps\<close> counts the
  calls \<open>pump(false)\<close> that have not taken the lock yet, \<open>timers\<close> the deferred \<open>pump(true)\<close>
  callbacks handed to the delay function, and \<open>invoked\<close> the entries whose \<open>asyncWork\<close> has been
  called, so that their \<open>done\<close> closure may run (any number of times, on any thread).
\<close>

datatype PumpPc = PIdle | PSelect | PRun "nat list" int | PLeave

record AsyncSystem =
  sch :: Scheduler
  pc :: PumpPc
  pendingPumps :: nat
  timers :: nat
  invoked :: "nat list"

datatype AsyncEvent =
    SubmitEv time_ns RequestTag
  | PumpEv
  | TimerEv
  | SelectEv time_ns
  | InvokeEv
  | DoneEv time_ns nat bool
  | DelayEv
  | LeaveEv
  | CancelModuleEv qstring
  | StatsEv time_ns
  | SetDelayFnEv bool
  | StopEv

definition startSystem :: "SchedulerConfig \<Rightarrow> AsyncSystem" where
  "startSystem c = \<lparr>sch = makeScheduler c, pc = PIdle, pendingPumps = 0, timers = 0, invoked = []\<rparr>"

definition enterPump :: "bool \<Rightarrow> AsyncSystem \<Rightarrow> AsyncSystem" where
  "enterPump fromTimer a =
     (case pumpEnter fromTimer (sch a) of
        (True, s) \<Rightarrow> a\<lparr>sch := s, pc := PSelect\<rparr>
      | (False, s) \<Rightarrow> a\<lparr>sch := s\<rparr>)"

text \<open>One event; \<open>None\<close> when it is not enabled.\<close>

fun execEvent :: "AsyncEvent \<Rightarrow> AsyncSystem \<Rightarrow> AsyncSystem option" where
  "execEvent (SubmitEv now tag) a =
     (case submitAsync now tag (sch a) of
        (r, s) \<Rightarrow> Some (a\<lparr>sch := s,
                       pendingPumps := pendingPumps a + (if res_kind r = ResultKind.Ok then 1 else 0)\<rparr>))"
| "execEvent PumpEv a =
     (if 0 < pendingPumps a then Some (enterPump False (a\<lparr>pendingPumps := pendingPumps a - 1\<rparr>)) else None)"
| "execEvent TimerEv a =
     (if 0 < timers a then Some (enterPump True (a\<lparr>timers := timers a - 1\<rparr>)) else None)"
| "execEvent (SelectEv now) a =
     (if pc a = PSelect
      then (case selectAsyncLocked now (sch a) of
              (toRun, delayMs, s) \<Rightarrow> Some (a\<lparr>sch := s, pc := PRun toRun delayMs\<rparr>))
      else None)"
| "execEvent InvokeEv a =
     (case pc a of
        PRun (e # es) d \<Rightarrow> Some (a\<lparr>pc := PRun es d, invoked := invoked a @ [e]\<rparr>)
      | _ \<Rightarrow> None)"
| "execEvent (DoneEv now e ok) a =
     (if e \<in> set (invoked a)
      then Some (a\<lparr>sch := completeAsync now e ok (sch a),
                  pendingPumps := pendingPumps a + (if ent_completed (entries (sch a) e) then 0 else 1)\<rparr>)
      else None)"
| "execEvent DelayEv a =
     (case pc a of
        PRun [] d \<Rightarrow> Some (a\<lparr>pc := PLeave, timers := timers a + (if 0 < d then 1 else 0)\<rparr>)
      | _ \<Rightarrow> None)"
| "execEvent LeaveEv a =
     (if pc a = PLeave
      then (case pumpLeave (sch a) of (again, s) \<Rightarrow> Some (a\<lparr>sch := s, pc := (if again then PSelect else PIdle)\<rparr>))
      else None)"
| "execEvent (CancelModuleEv m) a = Some (a\<lparr>sch := snd (cancelModule m (sch a))\<rparr>)"
| "execEvent (StatsEv now) a = Some (a\<lparr>sch := snd (stats now (sch a))\<rparr>)"
| "execEvent (SetDelayFnEv b) a = Some (a\<lparr>sch := setDelayFn b (sch a)\<rparr>)"
| "execEvent StopEv a = Some (a\<lparr>sch := stopAsync (sch a)\<rparr>)"

fun execEvents :: "AsyncEvent list \<Rightarrow> AsyncSystem \<Rightarrow> AsyncSystem option" where
  "execEvents [] a = Some a"
| "execEvents (ev # evs) a = (case execEvent ev a of None \<Rightarrow> None | Some b \<Rightarrow> execEvents evs b)"

inductive asyncStep :: "AsyncSystem \<Rightarrow> AsyncSystem \<Rightarrow> bool" where
  asyncStep: "execEvent ev a = Some b \<Longrightarrow> asyncStep a b"

abbreviation asyncReachable :: "SchedulerConfig \<Rightarrow> AsyncSystem \<Rightarrow> bool" where
  "asyncReachable c \<equiv> reach (\<lambda>a. a = startSystem c) asyncStep"

lemma execEvents_reach:
  "reach (\<lambda>a. a = startSystem c) asyncStep a \<Longrightarrow> execEvents evs a = Some b \<Longrightarrow> asyncReachable c b"
proof (induction evs arbitrary: a)
  case (Cons ev evs)
  from Cons.prems(2) obtain a' where "execEvent ev a = Some a'" "execEvents evs a' = Some b"
    by (auto split: option.splits)
  with Cons.IH [of a'] reach_step [OF Cons.prems(1) asyncStep.intros] show ?case by blast
qed simp

subsection \<open>What a selection round does\<close>

text \<open>Nothing to do: halted, nothing queued, all slots taken, or the gap timer will pump.\<close>

definition quiet :: "Scheduler \<Rightarrow> bool" where
  "quiet s \<longleftrightarrow> stopped s \<or> totalQueueDepthLocked s = 0 \<or> cfg_maxInflight (cfg s) \<le> inflightCount s
     \<or> delayScheduled s"

definition sameControl :: "Scheduler \<Rightarrow> Scheduler \<Rightarrow> bool" where
  "sameControl s t \<longleftrightarrow> cfg t = cfg s \<and> next_entry t = next_entry s \<and> stopped t = stopped s
     \<and> pumping t = pumping s \<and> repump t = repump s
     \<and> (\<forall>e. ent_completed (entries t e) = ent_completed (entries s e)
          \<and> ent_async (entries t e) = ent_async (entries s e))"

lemma dispatch_startEntry_control:
  "sameControl s (startEntry now e (dispatchEntry p e s))"
  by (auto simp: sameControl_def startEntry_def dispatchEntry_def)

lemma sameControl_trans: "sameControl s t \<Longrightarrow> sameControl t u \<Longrightarrow> sameControl s u"
  by (simp add: sameControl_def)

lemma lanes_ok_startEntry [simp]: "lanes_ok (startEntry now e s) \<longleftrightarrow> lanes_ok s"
  by (auto simp: lanes_ok_def startEntry_def)

definition selectionResult :: "Scheduler \<Rightarrow> nat list \<Rightarrow> Scheduler \<Rightarrow> bool" where
  "selectionResult s r t \<longleftrightarrow> distinct r
     \<and> (\<forall>e \<in> set r. e < next_entry s \<and> ent_state (entries s e) = Queued \<and> \<not> ent_completed (entries s e))
     \<and> (\<forall>e. ent_state (entries t e) = (if e \<in> set r then Selected else ent_state (entries s e)))
     \<and> inflightCount t = inflightCount s + int (length r)
     \<and> delayScheduled t = delayScheduled s \<and> sameControl s t"

lemma selectLoop_spec:
  "lanes_ok s \<Longrightarrow> selectLoop now s = (r, t) \<Longrightarrow>
     selectionResult s r t \<and> (totalQueueDepthLocked t = 0 \<or> cfg_maxInflight (cfg t) \<le> inflightCount t)"
proof (induction "nat (totalQueueDepthLocked s)" arbitrary: s r t rule: less_induct)
  case less
  show ?case
  proof (cases "inflightCount s < cfg_maxInflight (cfg s) \<and> takeEntry now s \<noteq> None")
    case False
    then have "r = [] \<and> t = s"
      using less.prems(2) by (subst (asm) selectLoop.simps) (auto split: if_splits option.splits)
    moreover have "totalQueueDepthLocked s = 0 \<or> cfg_maxInflight (cfg s) \<le> inflightCount s"
      using False takeEntry_None_iff [of now s] by auto
    ultimately show ?thesis by (simp add: selectionResult_def sameControl_def)
  next
    case True
    then obtain p e where pe: "takeEntry now s = Some (p, e)" by auto
    define u where "u = startEntry now e (dispatchEntry p e s)"
    obtain r' where r: "r = e # r'" and rec: "selectLoop now u = (r', t)"
      using less.prems(2) True pe unfolding u_def
      by (subst (asm) selectLoop.simps) (auto split: prod.splits)
    have e: "e \<in> set (lanes s p)" using takeEntry_SomeD [OF pe] by simp
    have "lanes_ok u" unfolding u_def using dispatchEntry_lanes_ok [OF less.prems(1) e] by simp
    then have IH: "selectionResult u r' t"
        "totalQueueDepthLocked t = 0 \<or> cfg_maxInflight (cfg t) \<le> inflightCount t"
      using less.hyps [OF _ _ rec] takeEntry_depth [OF pe] unfolding u_def by auto
    have u: "sameControl s u" "delayScheduled u = delayScheduled s"
        "inflightCount u = inflightCount s + 1"
        "\<And>x. ent_state (entries u x) = (if x = e then Selected else ent_state (entries s x))"
      unfolding u_def using dispatch_startEntry_control
      by (auto simp: startEntry_def dispatchEntry_def)
    have q: "e < next_entry s" "ent_state (entries s e) = Queued" "\<not> ent_completed (entries s e)"
      using less.prems(1) e by (auto simp: lanes_ok_def)
    have "e \<notin> set r'"
      using IH(1) u(4) [of e] by (auto simp: selectionResult_def)
    moreover have "ent_state (entries s x) = Queued" if "x \<in> set r'" for x
      using IH(1) u(4) [of x] that \<open>e \<notin> set r'\<close> by (auto simp: selectionResult_def split: if_splits)
    ultimately have "selectionResult s r t"
      using IH(1) u q sameControl_trans [OF u(1)] unfolding selectionResult_def r
      by (auto simp: sameControl_def)
    with IH(2) show ?thesis by blast
  qed
qed

lemma selectAsyncLocked_spec:
  assumes "lanes_ok s" "selectAsyncLocked now s = (r, d, t)"
  shows "quiet t" "selectionResult (s\<lparr>delayScheduled := delayScheduled t\<rparr>) r t"
    "0 < d \<longleftrightarrow> \<not> delayScheduled s \<and> delayScheduled t" "delayScheduled s \<Longrightarrow> delayScheduled t"
proof -
  have depth: "\<not> 0 < totalQueueDepthLocked s \<longleftrightarrow> totalQueueDepthLocked s = 0"
    using totalQueueDepth_nonneg [of s] by linarith
  have ms: "0 < duration_ms (g - x) + 1" if "x < g" for g x :: int
    using that by (auto simp: duration_ms_def sgn_if intro: add_nonneg_pos)
  note defs = selectAsyncLocked_def quiet_def selectionResult_def sameControl_def
  show "quiet t" "selectionResult (s\<lparr>delayScheduled := delayScheduled t\<rparr>) r t"
    "0 < d \<longleftrightarrow> \<not> delayScheduled s \<and> delayScheduled t" "delayScheduled s \<Longrightarrow> delayScheduled t"
    using assms selectLoop_spec [OF assms(1), of now] depth ms
    by (auto simp: defs split: if_splits prod.splits)
qed


subsection \<open>Cancellation leaves asynchronous entries alone\<close>

definition all_async :: "Scheduler \<Rightarrow> bool" where
  "all_async s \<longleftrightarrow> (\<forall>e < next_entry s. ent_async (entries s e))"

lemma cancelInLane_async:
  assumes "lanes_ok s" "all_async s" "\<And>en. victim en \<Longrightarrow> \<not> ent_async en"
  shows "cancelInLane victim p (n, s) = (n, s)"
proof -
  have none: "\<not> victim (entries s e)" "ent_state (entries s e) \<noteq> CancelledEntry" if "e \<in> set (lanes s p)" for e
    using assms that by (auto simp: lanes_ok_def all_async_def)
  then have "filter (\<lambda>e. victim (entries s e)) (lanes s p) = []"
    by (simp add: filter_empty_conv)
  moreover have "(\<lambda>e. if e \<in> set (lanes s p) \<and> victim (entries s e)
      then (entries s e)\<lparr>ent_state := CancelledEntry\<rparr> else entries s e) = entries s"
    using none by (auto simp: fun_eq_iff)
  moreover have "filter (\<lambda>e. ent_state (if e \<in> set (lanes s p) \<and> victim (entries s e)
      then (entries s e)\<lparr>ent_state := CancelledEntry\<rparr> else entries s e) \<noteq> CancelledEntry) (lanes s p) = lanes s p"
    using none by (simp add: filter_id_conv)
  ultimately show ?thesis unfolding cancelInLane_def Let_def prod.case by (simp only:) simp
qed

lemma cancel_fold_async:
  assumes "lanes_ok s" "all_async s" "\<And>en. victim en \<Longrightarrow> \<not> ent_async en"
  shows "fold (cancelInLane victim) ps (n, s) = (n, s)"
  by (induction ps) (simp_all add: cancelInLane_async [OF assms])

lemma cancelModule_async: "lanes_ok s \<Longrightarrow> all_async s \<Longrightarrow> cancelModule m s = (0, s)"
  unfolding cancelModule_def by (rule cancel_fold_async) (auto simp: cancelModuleVictim_def)

lemma preempt_async: "lanes_ok s \<Longrightarrow> all_async s \<Longrightarrow> preemptLowerInterruptablesLocked h s = (0, s)"
  unfolding preemptLowerInterruptablesLocked_def by (rule cancel_fold_async) (auto simp: preemptVictim_def)

text \<open>Appending one asynchronous entry, the whole effect of an accepted \<open>submitAsync\<close>.\<close>

definition pushAsync :: "time_ns \<Rightarrow> RequestTag \<Rightarrow> Scheduler \<Rightarrow> Scheduler" where
  "pushAsync now tag s =
     s\<lparr>entries := (entries s)(next_entry s := \<lparr>ent_tag = tag, ent_state = Queued, ent_queuedAt = now,
          ent_async = True, ent_startAt = 0, ent_completed = False\<rparr>),
       next_entry := next_entry s + 1,
       lanes := (lanes s)(nat (tag_priority tag) := lanes s (nat (tag_priority tag)) @ [next_entry s]),
       totalSubmitted := totalSubmitted s + 1\<rparr>"

lemma enqueue_async:
  assumes "lanes_ok s" "all_async s" "validPriority tag"
  shows "enqueue now True tag s = pushAsync now tag s"
proof -
  have "lanes_ok (pushAsync now tag s)"
    using assms unfolding lanes_ok_def pushAsync_def
    by (auto simp: validPriority_def kPriorityCount_def less_Suc_eq)
  moreover have "all_async (pushAsync now tag s)"
    using assms(2) by (simp add: all_async_def pushAsync_def less_Suc_eq)
  ultimately show ?thesis
    using preempt_async by (simp add: enqueue_def Let_def pushAsync_def)
qed

lemma submitAsync_effect:
  assumes "lanes_ok s" "all_async s" "submitAsync now tag s = (r, t)"
  obtains "res_kind r \<noteq> ResultKind.Ok" "t = s \<or> t = updateCircuitLocked now (s\<lparr>mode := Async\<rparr>)"
  | "res_kind r = ResultKind.Ok" "t = pushAsync now tag (updateCircuitLocked now (s\<lparr>mode := Async\<rparr>))"
    "validPriority tag" "\<not> stopped s"
proof -
  let ?u = "updateCircuitLocked now (s\<lparr>mode := Async\<rparr>)"
  have u: "lanes_ok ?u" "all_async ?u"
    using assms(1,2) by (auto simp: lanes_ok_def all_async_def updateCircuitLocked_def)
  have "r = okResult 0 \<and> validPriority tag \<and> \<not> stopped s \<and> t = pushAsync now tag ?u
      \<or> res_kind r \<noteq> ResultKind.Ok \<and> (t = s \<or> t = ?u)"
    using assms(3) enqueue_async [OF u]
    by (auto simp: submitAsync_def Let_def admission_def rejectWith_def split: if_splits option.splits)
  then show ?thesis using that by (auto simp: okResult_def)
qed

subsection \<open>The invariant of the interleaved system\<close>

fun toRun :: "PumpPc \<Rightarrow> nat list" where
  "toRun (PRun es d) = es"
| "toRun _ = []"

fun owedTimers :: "PumpPc \<Rightarrow> nat" where
  "owedTimers (PRun es d) = (if 0 < d then 1 else 0)"
| "owedTimers _ = 0"

text \<open>The pump is owned by at most one thread, and a deferred pump exists iff one is recorded.\<close>

definition pump_ok :: "AsyncSystem \<Rightarrow> bool" where
  "pump_ok a \<longleftrightarrow> (pumping (sch a) \<longleftrightarrow> pc a \<noteq> PIdle) \<and> (repump (sch a) \<longrightarrow> pumping (sch a))
     \<and> timers a + owedTimers (pc a) = (if delayScheduled (sch a) then 1 else 0)"

text \<open>Whoever may leave work unselected is followed by a pump.\<close>

definition wake_ok :: "AsyncSystem \<Rightarrow> bool" where
  "wake_ok a \<longleftrightarrow> pc a = PSelect \<or> quiet (sch a) \<or> 0 < pendingPumps a \<or> repump (sch a)"

text \<open>
  The entries that left the queue are those already invoked or about to be; the in-flight
  count is the number of those not completed; no accepted entry is lost.
\<close>

definition queuedIn :: "Scheduler \<Rightarrow> nat \<Rightarrow> bool" where
  "queuedIn s e \<longleftrightarrow> (\<exists>p < kPriorityCount. e \<in> set (lanes s p))"

lemma queuedInI: "p < kPriorityCount \<Longrightarrow> e \<in> set (lanes s p) \<Longrightarrow> queuedIn s e"
  by (auto simp: queuedIn_def)

lemma queuedInE:
  assumes "queuedIn s e" obtains p where "p < kPriorityCount" "e \<in> set (lanes s p)"
  using assms by (auto simp: queuedIn_def)

definition started :: "Scheduler \<Rightarrow> nat \<Rightarrow> bool" where
  "started s e \<longleftrightarrow> e < next_entry s \<and> ent_state (entries s e) = Selected"

definition running :: "Scheduler \<Rightarrow> nat list \<Rightarrow> nat list" where
  "running s es = filter (\<lambda>e. \<not> ent_completed (entries s e)) es"

definition work_ok :: "nat list \<Rightarrow> nat list \<Rightarrow> Scheduler \<Rightarrow> bool" where
  "work_ok called batch s \<longleftrightarrow> distinct (called @ batch)
     \<and> (\<forall>e. e \<in> set (called @ batch) \<longleftrightarrow> started s e)
     \<and> (\<forall>e < next_entry s. ent_completed (entries s e) \<longrightarrow> e \<in> set called)
     \<and> (\<forall>e < next_entry s. started s e \<or> queuedIn s e)
     \<and> inflightCount s = int (length (running s (called @ batch)))"

definition sys_inv :: "AsyncSystem \<Rightarrow> bool" where
  "sys_inv a \<longleftrightarrow> sched_inv (sch a) \<and> all_async (sch a) \<and> pump_ok a \<and> wake_ok a \<and> work_ok (invoked a) (toRun (pc a)) (sch a)"

lemma sys_invD:
  assumes "sys_inv a"
  shows "sched_inv (sch a)" "lanes_ok (sch a)" "all_async (sch a)" "pump_ok a" "wake_ok a" "work_ok (invoked a) (toRun (pc a)) (sch a)"
  using assms by (auto simp: sys_inv_def sched_inv_def)

lemma startSystem_inv: "sys_inv (startSystem c)"
  using makeScheduler_inv [of c]
  by (simp add: sys_inv_def startSystem_def all_async_def pump_ok_def wake_ok_def work_ok_def quiet_def
      queuedIn_def started_def running_def totalQueueDepth_zero_iff) (simp add: makeScheduler_def serialScheduler_def)

text \<open>Changes of the state that none of the parts of the invariant look at.\<close>

lemma work_ok_cong:
  assumes "next_entry t = next_entry s" "entries t = entries s" "lanes t = lanes s"
    "inflightCount t = inflightCount s"
  shows "work_ok called batch t \<longleftrightarrow> work_ok called batch s"
  using assms by (simp add: work_ok_def started_def queuedIn_def running_def)

lemma sys_inv_cong:
  assumes "sched_inv t" "next_entry t = next_entry (sch a)" "entries t = entries (sch a)" "lanes t = lanes (sch a)"
    "inflightCount t = inflightCount (sch a)" "cfg t = cfg (sch a)" "pumping t = pumping (sch a)"
    "repump t = repump (sch a)" "delayScheduled t = delayScheduled (sch a)"
    "stopped (sch a) \<Longrightarrow> stopped t" "sys_inv a"
  shows "sys_inv (a\<lparr>sch := t\<rparr>)"
  using assms work_ok_cong [OF assms(2-5)]
  by (auto simp: sys_inv_def all_async_def pump_ok_def wake_ok_def quiet_def totalQueueDepthLocked_def)

lemma circuit_step_inv:
  assumes "sys_inv a"
  shows "sys_inv (a\<lparr>sch := updateCircuitLocked now (sch a\<lparr>mode := m\<rparr>)\<rparr>)"
proof (rule sys_inv_cong)
  show "sched_inv (updateCircuitLocked now (sch a\<lparr>mode := m\<rparr>))"
    using sys_invD(1) [OF assms] by simp
qed (use assms in \<open>auto simp: updateCircuitLocked_def\<close>)

lemma pushAsync_work:
  assumes "work_ok called batch s" "validPriority tag"
  shows "work_ok called batch (pushAsync now tag s)"
proof -
  let ?t = "pushAsync now tag s"
  have new: "next_entry s \<notin> set (called @ batch)"
    using assms(1) by (auto simp: work_ok_def started_def)
  have "running ?t (called @ batch) = running s (called @ batch)"
    unfolding running_def using new by (intro filter_cong) (auto simp: pushAsync_def)
  moreover have "started ?t e \<longleftrightarrow> started s e" for e
    by (auto simp: started_def pushAsync_def less_Suc_eq)
  moreover have "queuedIn s e \<Longrightarrow> queuedIn ?t e" for e
    by (auto simp: pushAsync_def elim!: queuedInE intro: queuedInI)
  moreover have "queuedIn ?t (next_entry s)"
    using assms(2) by (intro queuedInI [of "nat (tag_priority tag)"]) (auto simp: pushAsync_def validPriority_def)
  ultimately show ?thesis
    using assms(1) unfolding work_ok_def
    by (auto simp: pushAsync_def less_Suc_eq)
qed

lemma push_step_inv:
  assumes "sys_inv a" "sched_inv (pushAsync now tag (sch a))" "validPriority tag"
  shows "sys_inv (a\<lparr>sch := pushAsync now tag (sch a), pendingPumps := pendingPumps a + 1\<rparr>)"
  using assms pushAsync_work [OF sys_invD(6) [OF assms(1)] assms(3)]
  by (auto simp: sys_inv_def all_async_def pump_ok_def wake_ok_def pushAsync_def less_Suc_eq)

text \<open>Selection moves a batch from the lanes to the pump owner.\<close>

lemma selected_work:
  assumes "selectionResult s r t" "work_ok called [] s" "lanes_ok s"
    and "\<And>e. queuedIn s e \<Longrightarrow> e \<in> set r \<or> queuedIn t e"
  shows "work_ok called r t"
proof -
  note sel = assms(1) [unfolded selectionResult_def sameControl_def]
  have st: "started t e \<longleftrightarrow> started s e \<or> e \<in> set r" for e
    using sel by (auto simp: started_def)
  have "running t (called @ r) = running s called @ r"
    using sel by (auto simp: running_def filter_id_conv)
  moreover have "set called \<inter> set r = {}"
    using sel assms(2) by (auto simp: work_ok_def started_def)
  moreover have "distinct r" "inflightCount t = inflightCount s + int (length r)"
    "next_entry t = next_entry s" "\<And>e. ent_completed (entries t e) = ent_completed (entries s e)"
    using sel by auto
  ultimately show ?thesis
    using st assms(2,4) unfolding work_ok_def by (auto; blast)
qed

lemma dispatchEntry_queued: "queuedIn s e \<Longrightarrow> e = x \<or> queuedIn (dispatchEntry p x s) e"
proof (elim queuedInE)
  fix q assume q: "q < kPriorityCount" "e \<in> set (lanes s q)"
  then have "e = x \<or> e \<in> set (lanes (dispatchEntry p x s) q)"
    by (cases "e = x") (auto simp: dispatchEntry_def in_set_remove1)
  then show ?thesis using q(1) by (blast intro: queuedInI)
qed

lemma selectLoop_queued:
  "selectLoop now s = (r, t) \<Longrightarrow> queuedIn s e \<Longrightarrow> e \<in> set r \<or> queuedIn t e"
proof (induction "nat (totalQueueDepthLocked s)" arbitrary: s r t rule: less_induct)
  case less
  show ?case
  proof (cases "inflightCount s < cfg_maxInflight (cfg s) \<and> takeEntry now s \<noteq> None")
    case False
    then have "r = [] \<and> t = s"
      using less.prems(1) by (subst (asm) selectLoop.simps) (auto split: if_splits option.splits)
    then show ?thesis using less.prems(2) by simp
  next
    case True
    then obtain p x where px: "takeEntry now s = Some (p, x)" by auto
    let ?u = "startEntry now x (dispatchEntry p x s)"
    obtain r' where r: "r = x # r'" and rec: "selectLoop now ?u = (r', t)"
      using less.prems(1) True px by (subst (asm) selectLoop.simps) (auto split: prod.splits)
    have "e = x \<or> queuedIn ?u e"
      using dispatchEntry_queued [OF less.prems(2), of x p] by (simp add: queuedIn_def)
    then show ?thesis
      using less.hyps [OF _ rec] takeEntry_depth [OF px] r by auto
  qed
qed

lemma selectAsyncLocked_queued:
  "selectAsyncLocked now s = (r, d, t) \<Longrightarrow> queuedIn s e \<Longrightarrow> e \<in> set r \<or> queuedIn t e"
  using selectLoop_queued [of now s r t e]
  by (auto simp: selectAsyncLocked_def queuedIn_def split: if_splits prod.splits)

lemma select_step_inv:
  assumes inv: "sys_inv a" and pc: "pc a = PSelect" and sel: "selectAsyncLocked now (sch a) = (r, d, t)"
  shows "sys_inv (a\<lparr>sch := t, pc := PRun r d\<rparr>)"
proof -
  let ?s = "sch a\<lparr>delayScheduled := delayScheduled t\<rparr>"
  note spec = selectAsyncLocked_spec [OF sys_invD(2) [OF inv] sel]
  note ctl = spec(2) [unfolded selectionResult_def sameControl_def]
  have "work_ok (invoked a) [] ?s"
    using sys_invD(6) [OF inv] pc by (subst work_ok_cong [of _ "sch a"]) auto
  moreover have "lanes_ok ?s"
    using sys_invD(2) [OF inv] by (simp add: lanes_ok_def)
  moreover have "queuedIn ?s e \<Longrightarrow> e \<in> set r \<or> queuedIn t e" for e
    using selectAsyncLocked_queued [OF sel, of e] by (simp add: queuedIn_def)
  ultimately have "work_ok (invoked a) r t"
    using selected_work [OF spec(2)] by blast
  moreover have "sched_inv t"
    using selectAsyncLocked_inv [OF sys_invD(1) [OF inv], of now] sel by simp
  moreover have "all_async t"
    using sys_invD(3) [OF inv] ctl by (simp add: all_async_def)
  moreover have "pump_ok (a\<lparr>sch := t, pc := PRun r d\<rparr>)"
    using sys_invD(4) [OF inv] ctl spec(3,4) pc by (auto simp: pump_ok_def)
  ultimately show ?thesis
    using spec(1) by (simp add: sys_inv_def wake_ok_def)
qed

lemma enter_step_inv:
  assumes "sys_inv a" "n + (if b then 0 else 1) = pendingPumps a" "m + (if b then 1 else 0) = timers a"
  shows "sys_inv (enterPump b (a\<lparr>pendingPumps := n, timers := m\<rparr>))"
proof -
  have w: "work_ok (invoked a) (toRun (pc a)) (snd (pumpEnter b (sch a)))"
    using sys_invD(6) [OF assms(1)] by (subst work_ok_cong [of _ "sch a"]) (auto simp: pumpEnter_def Let_def)
  show ?thesis
    using pumpEnter_inv [OF sys_invD(1) [OF assms(1)], of b] w sys_invD(3,4) [OF assms(1)] assms(2,3)
    by (auto simp: sys_inv_def enterPump_def pumpEnter_def Let_def pump_ok_def wake_ok_def all_async_def
        split: if_splits)
qed

lemma invoke_step_inv:
  assumes "sys_inv a" "pc a = PRun (e # es) d"
  shows "sys_inv (a\<lparr>pc := PRun es d, invoked := invoked a @ [e]\<rparr>)"
  using assms by (auto simp: sys_inv_def pump_ok_def wake_ok_def work_ok_def)

lemma delay_step_inv:
  assumes "sys_inv a" "pc a = PRun [] d"
  shows "sys_inv (a\<lparr>pc := PLeave, timers := timers a + (if 0 < d then 1 else 0)\<rparr>)"
  using assms by (auto simp: sys_inv_def pump_ok_def wake_ok_def split: if_splits)

lemma leave_step_inv:
  assumes "sys_inv a" "pc a = PLeave" "pumpLeave (sch a) = (again, t)"
  shows "sys_inv (a\<lparr>sch := t, pc := if again then PSelect else PIdle\<rparr>)"
proof -
  have "work_ok (invoked a) [] t"
    using sys_invD(6) [OF assms(1)] assms(2,3)
    by (subst work_ok_cong [of _ "sch a"]) (auto simp: pumpLeave_def split: if_splits)
  moreover have "sched_inv t"
    using pumpLeave_inv [OF sys_invD(1) [OF assms(1)]] assms(3) by simp
  ultimately show ?thesis
    using sys_invD(3-5) [OF assms(1)] assms(2,3)
    by (auto simp: sys_inv_def pumpLeave_def pump_ok_def wake_ok_def all_async_def quiet_def
        totalQueueDepthLocked_def split: if_splits)
qed

text \<open>The first completion of an invoked entry frees exactly one slot.\<close>

lemma completeAsync_fields:
  assumes "\<not> ent_completed (entries s e)" "t = completeAsync now e ok s"
  shows "entries t = (entries s)(e := (entries s e)\<lparr>ent_completed := True\<rparr>)" "lanes t = lanes s"
    "next_entry t = next_entry s" "cfg t = cfg s" "stopped t = stopped s" "pumping t = pumping s"
    "repump t = repump s" "delayScheduled t = delayScheduled s" "mode t = mode s"
    "inflightCount t = (if 0 < inflightCount s then inflightCount s - 1 else inflightCount s)"
  using assms
  by (auto simp: completeAsync_def releaseSlot_def Let_def recordSuccessLocked_def recordFailureLocked_def)

lemma length_filter_mark:
  "distinct xs \<Longrightarrow> x \<in> set xs \<Longrightarrow> P x \<Longrightarrow>
     length (filter P xs) = Suc (length (filter (\<lambda>y. y \<noteq> x \<and> P y) xs))"
proof (induction xs)
  case (Cons y ys)
  show ?case
  proof (cases "y = x")
    case True
    with Cons.prems(1) have "filter (\<lambda>z. z \<noteq> x \<and> P z) ys = filter P ys"
      by (intro filter_cong) auto
    with True Cons.prems show ?thesis by simp
  qed (use Cons in auto)
qed simp

lemma completed_work:
  assumes ok: "work_ok called batch s" and e: "e \<in> set called" "\<not> ent_completed (entries s e)"
  shows "0 < inflightCount s" "work_ok called batch (completeAsync now e r s)"
proof -
  define t where "t = completeAsync now e r s"
  note f = completeAsync_fields [OF e(2) t_def]
  have "distinct (called @ batch)" "e \<in> set (called @ batch)"
    using ok e(1) by (auto simp: work_ok_def)
  then have "length (running s (called @ batch))
      = Suc (length (filter (\<lambda>y. y \<noteq> e \<and> \<not> ent_completed (entries s y)) (called @ batch)))"
    unfolding running_def using length_filter_mark e(2) by fast
  moreover have "running t (called @ batch)
      = filter (\<lambda>y. y \<noteq> e \<and> \<not> ent_completed (entries s y)) (called @ batch)"
    unfolding running_def f by (intro filter_cong) auto
  ultimately have len: "length (running s (called @ batch)) = Suc (length (running t (called @ batch)))"
    by simp
  then show "0 < inflightCount s" using ok by (simp add: work_ok_def)
  moreover have "started t x \<longleftrightarrow> started s x" "queuedIn t x \<longleftrightarrow> queuedIn s x" for x
    by (auto simp: started_def queuedIn_def f)
  ultimately show "work_ok called batch (completeAsync now e r s)"
    using ok len e(1) unfolding t_def [symmetric] work_ok_def
    by (auto simp: f)
qed

lemma done_step_inv:
  assumes inv: "sys_inv a" and e: "e \<in> set (invoked a)"
  shows "sys_inv (a\<lparr>sch := completeAsync now e ok (sch a),
      pendingPumps := pendingPumps a + (if ent_completed (entries (sch a) e) then 0 else 1)\<rparr>)"
proof (cases "ent_completed (entries (sch a) e)")
  case True
  then show ?thesis using inv by (simp add: completeAsync_def)
next
  case False
  define t where "t = completeAsync now e ok (sch a)"
  note f = completeAsync_fields [OF False t_def]
  note work = completed_work [OF sys_invD(6) [OF inv] e False]
  have "ent_state (entries (sch a) e) = Selected"
    using sys_invD(6) [OF inv] e by (auto simp: work_ok_def started_def)
  then have "sched_inv t"
    unfolding t_def using completeAsync_inv [OF sys_invD(1) [OF inv]] work(1) by simp
  moreover have "all_async t"
    using sys_invD(3) [OF inv] by (simp add: all_async_def f)
  ultimately show ?thesis
    using False work(2) [of now ok] sys_invD(4) [OF inv] unfolding t_def [symmetric]
    by (auto simp: sys_inv_def pump_ok_def wake_ok_def f)
qed

lemma submit_step_inv:
  assumes inv: "sys_inv a" and sub: "submitAsync now tag (sch a) = (r, t)"
  shows "sys_inv (a\<lparr>sch := t, pendingPumps := pendingPumps a + (if res_kind r = ResultKind.Ok then 1 else 0)\<rparr>)"
proof -
  let ?u = "updateCircuitLocked now (sch a\<lparr>mode := Async\<rparr>)"
  note u = circuit_step_inv [OF inv, of now Async]
  have t: "sched_inv t"
    using submitAsync_inv [OF sys_invD(1) [OF inv], of now tag] sub by simp
  from sys_invD(2,3) [OF inv] sub show ?thesis
  proof (cases rule: submitAsync_effect)
    case 1
    then show ?thesis using inv u by auto
  next
    case 2
    with push_step_inv [OF u, of now tag] t show ?thesis by simp
  qed
qed

lemma asyncStep_inv:
  assumes "sys_inv a" "asyncStep a b"
  shows "sys_inv b"
  using assms(2)
proof (cases rule: asyncStep.cases)
  case (asyncStep ev)
  note si = sys_invD [OF assms(1)]
  show ?thesis
  proof (cases ev)
    case PumpEv
    then show ?thesis
      using asyncStep enter_step_inv [OF assms(1), of "pendingPumps a - 1" False "timers a"]
      by (auto split: if_splits)
  next
    case TimerEv
    then show ?thesis
      using asyncStep enter_step_inv [OF assms(1), of "pendingPumps a" True "timers a - 1"]
      by (auto split: if_splits)
  next
    case (StatsEv now)
    have "sys_inv (a\<lparr>sch := snd (stats now (sch a))\<rparr>)"
      by (rule sys_inv_cong) (use assms(1) stats_inv [OF si(1)] in \<open>auto simp: stats_def Let_def updateCircuitLocked_def\<close>)
    then show ?thesis using StatsEv asyncStep by simp
  next
    case (SetDelayFnEv x)
    have "sys_inv (a\<lparr>sch := setDelayFn x (sch a)\<rparr>)"
      by (rule sys_inv_cong) (use assms(1) setDelayFn_inv [OF si(1)] in \<open>auto simp: setDelayFn_def\<close>)
    then show ?thesis using SetDelayFnEv asyncStep by simp
  next
    case StopEv
    have "sys_inv (a\<lparr>sch := stopAsync (sch a)\<rparr>)"
      by (rule sys_inv_cong) (use assms(1) stopAsync_inv [OF si(1)] in \<open>auto simp: stopAsync_def\<close>)
    then show ?thesis using StopEv asyncStep by simp
  next
    case (SubmitEv now tag)
    then show ?thesis
      using asyncStep submit_step_inv [OF assms(1), of now tag] by (cases "submitAsync now tag (sch a)") simp
  next
    case (DoneEv now e ok)
    then show ?thesis
      using asyncStep done_step_inv [OF assms(1), of e now ok] by (simp split: if_split_asm)
  next
    case DelayEv
    then obtain d where "pc a = PRun [] d" using asyncStep by (auto split: PumpPc.splits list.splits)
    then show ?thesis using DelayEv asyncStep delay_step_inv [OF assms(1)] by simp
  next
    case LeaveEv
    then show ?thesis
      using asyncStep leave_step_inv [OF assms(1)] by (auto split: if_split_asm prod.splits)
  qed (use asyncStep assms(1) cancelModule_async [OF si(2,3)] in
      \<open>auto split: if_splits prod.splits PumpPc.splits list.splits intro: select_step_inv invoke_step_inv\<close>)
qed

interpretation async: transition_system "\<lambda>a. a = startSystem c" asyncStep sys_inv for c
  by unfold_locales (auto intro: startSystem_inv asyncStep_inv)

end
