(* ===== verification/Scheduler_Properties.thy ===== *)
theory Scheduler_Properties
  imports Scheduler_System
begin

text \<open>
  What the scheduler promises its clients, stated over the interleaved system of
  \<open>Scheduler_System\<close> and over the single critical sections of \<open>Scheduler\<close>: no lost
  wake-up, exactly-once invocation, resource bounds, lane selection, pre-emption,
  inter-request gap and circuit breaker.  A short concrete run is the common witness.
\<close>

subsection \<open>A concrete run\<close>

definition demoConfig :: SchedulerConfig where
  "demoConfig = defaultSchedulerConfig\<lparr>cfg_interRequestGapMs := 5, cfg_maxQueueDepth := 4\<rparr>"

definition demoTag :: "qstring \<Rightarrow> Priority \<Rightarrow> RequestTag" where
  "demoTag m p = \<lparr>tag_moduleId = m, tag_priority = p, tag_interruptable = True\<rparr>"

definition demoTrace :: "AsyncEvent list" where
  "demoTrace = [SetDelayFnEv True, SubmitEv 1000 (demoTag ''poll'' 1), PumpEv, SelectEv 2000, InvokeEv,
     SubmitEv 3000 (demoTag ''sink'' 2), DoneEv 4000 0 True, PumpEv, PumpEv, DelayEv, LeaveEv,
     SelectEv 5000, DelayEv, LeaveEv]"

definition demoSystem :: AsyncSystem where
  "demoSystem = the (execEvents demoTrace (startSystem demoConfig))"

lemma demo_reachable: "asyncReachable demoConfig demoSystem"
proof (rule execEvents_reach [of demoConfig "startSystem demoConfig" demoTrace])
  have "execEvents demoTrace (startSystem demoConfig) \<noteq> None" by code_simp
  then show "execEvents demoTrace (startSystem demoConfig) = Some demoSystem"
    by (simp add: demoSystem_def)
qed (simp add: reach_init)

lemma demo_idle: "pc demoSystem = PIdle" "pendingPumps demoSystem = 0" "\<not> stopped (sch demoSystem)"
    "totalQueueDepthLocked (sch demoSystem) = 1"
  by code_simp+

subsection \<open>The interleaved system\<close>

text \<open>C1: no lost wake-up.  Whenever no thread owns the pump and no \<open>pump(false)\<close> call is
  outstanding, queued work is waiting only because the scheduler was stopped, because every
  in-flight slot is taken, or because exactly one deferred pump is armed.  Submissions,
  completions, timers, cancellations and reconfiguration interleave arbitrarily.\<close>

theorem async_no_lost_wakeup:
  assumes "asyncReachable c a" "pc a = PIdle" "pendingPumps a = 0"
  shows "stopped (sch a) \<or> totalQueueDepthLocked (sch a) = 0
     \<or> inflightCount (sch a) = cfg_maxInflight (cfg (sch a)) \<or> (delayScheduled (sch a) \<and> timers a = 1)"
proof -
  have inv: "sys_inv a" by (rule async.reach_inv [OF assms(1)])
  have "inflightCount (sch a) \<le> cfg_maxInflight (cfg (sch a))"
    using sys_invD(1) [OF inv] by (simp add: sched_inv_def limits_ok_def)
  then show ?thesis
    using sys_invD(4,5) [OF inv] assms(2,3) by (auto simp: pump_ok_def wake_ok_def quiet_def)
qed

theorem async_no_lost_wakeup_witness:
  "asyncReachable demoConfig demoSystem \<and> pc demoSystem = PIdle \<and> pendingPumps demoSystem = 0
     \<and> (inflightCount (sch demoSystem) = cfg_maxInflight (cfg (sch demoSystem))
          \<or> delayScheduled (sch demoSystem) \<and> timers demoSystem = 1)"
  using async_no_lost_wakeup [OF demo_reachable demo_idle(1,2)] demo_reachable demo_idle by simp

text \<open>C2: every accepted asynchronous request is invoked at most once, is never cancelled, and is
  at each moment either queued in a lane, handed to the pump owner or invoked; the in-flight
  count is exactly the number of selected requests that have not completed.\<close>

theorem async_exactly_once:
  assumes "asyncReachable c a"
  shows "distinct (invoked a @ toRun (pc a))
     \<and> (\<forall>e < next_entry (sch a).
           (e \<in> set (invoked a @ toRun (pc a)) \<and> ent_state (entries (sch a) e) = Selected)
           \<or> (\<exists>p < kPriorityCount. e \<in> set (lanes (sch a) p)) \<and> ent_state (entries (sch a) e) = Queued)
     \<and> inflightCount (sch a)
           = int (length (filter (\<lambda>e. \<not> ent_completed (entries (sch a) e)) (invoked a @ toRun (pc a))))"
proof (intro conjI allI impI)
  have inv: "sys_inv a" by (rule async.reach_inv [OF assms])
  note w = sys_invD(6) [OF inv, unfolded work_ok_def]
  show "distinct (invoked a @ toRun (pc a))" using w by blast
  show "inflightCount (sch a)
      = int (length (filter (\<lambda>e. \<not> ent_completed (entries (sch a) e)) (invoked a @ toRun (pc a))))"
    using w by (simp add: running_def)
  have queued: "ent_state (entries (sch a) e) = Queued" if "e \<in> set (lanes (sch a) p)" for e p
    using sys_invD(2) [OF inv] that by (simp add: lanes_ok_def)
  fix e assume "e < next_entry (sch a)"
  then have "started (sch a) e \<or> queuedIn (sch a) e" using w by blast
  then show "(e \<in> set (invoked a @ toRun (pc a)) \<and> ent_state (entries (sch a) e) = Selected)
      \<or> (\<exists>p < kPriorityCount. e \<in> set (lanes (sch a) p)) \<and> ent_state (entries (sch a) e) = Queued"
    using w queued by (auto simp: started_def queuedIn_def)
qed

theorem async_exactly_once_witness:
  "asyncReachable demoConfig demoSystem \<and> distinct (invoked demoSystem @ toRun (pc demoSystem))
     \<and> inflightCount (sch demoSystem) = 0 \<and> next_entry (sch demoSystem) = 2"
proof -
  have "next_entry (sch demoSystem) = 2" "inflightCount (sch demoSystem) = 0" by code_simp+
  then show ?thesis using async_exactly_once [OF demo_reachable] demo_reachable by simp
qed

text \<open>C3: resource bounds and accounting.  In every reachable state the in-flight count is
  between 0 and \<open>maxInflight\<close>, queued plus in-flight requests never exceed \<open>maxQueueDepth\<close>, and
  the 64-bit counters satisfy submitted = queued + in flight + completed + failed + cancelled
  modulo wrap-around.\<close>

theorem async_bounds_and_accounting:
  assumes "asyncReachable c a"
  shows "0 \<le> inflightCount (sch a) \<and> inflightCount (sch a) \<le> cfg_maxInflight (cfg (sch a))
     \<and> totalQueueDepthLocked (sch a) + inflightCount (sch a) \<le> cfg_maxQueueDepth (cfg (sch a))
     \<and> totalSubmitted (sch a) = of_int (totalQueueDepthLocked (sch a) + inflightCount (sch a))
         + totalCompleted (sch a) + totalFailed (sch a) + totalCancelled (sch a)"
  using sys_invD(1) [OF async.reach_inv [OF assms]]
  by (simp add: sched_inv_def limits_ok_def accounted_def)

theorem async_bounds_and_accounting_witness:
  "totalQueueDepthLocked (sch demoSystem) + inflightCount (sch demoSystem) \<le> cfg_maxQueueDepth (cfg (sch demoSystem))
     \<and> totalSubmitted (sch demoSystem) = 2 \<and> totalCompleted (sch demoSystem) = 1"
proof -
  have "totalSubmitted (sch demoSystem) = 2" "totalCompleted (sch demoSystem) = 1" by code_simp+
  then show ?thesis using async_bounds_and_accounting [OF demo_reachable] by blast
qed

lemma pump_owner_enabled:
  "pc a \<noteq> PIdle \<Longrightarrow> \<exists>ev \<in> {SelectEv 0, InvokeEv, DelayEv, LeaveEv}. execEvent ev a \<noteq> None"
  by (cases "pc a") (auto split: list.splits prod.splits)

text \<open>C4: deadlock freedom.  In a reachable state of a scheduler that was not stopped and has
  queued work, some transition that makes progress is possible: an outstanding pump call, a step
  of the pump owner, the armed timer, or the completion of an invoked request.\<close>

theorem async_progress:
  assumes "asyncReachable c a" "\<not> stopped (sch a)" "0 < totalQueueDepthLocked (sch a)"
  shows "\<exists>ev. (ev \<in> {PumpEv, TimerEv, SelectEv 0, InvokeEv, DelayEv, LeaveEv}
              \<or> (\<exists>e. ev = DoneEv 0 e True \<and> \<not> ent_completed (entries (sch a) e)))
           \<and> execEvent ev a \<noteq> None"
proof (cases "0 < pendingPumps a \<or> pc a \<noteq> PIdle \<or> 0 < timers a")
  case True
  then show ?thesis
  proof (elim disjE)
    assume "pc a \<noteq> PIdle"
    then show ?thesis using pump_owner_enabled [of a] by blast
  next
    assume "0 < pendingPumps a"
    then show ?thesis by (intro exI [of _ PumpEv]) simp
  next
    assume "0 < timers a"
    then show ?thesis by (intro exI [of _ TimerEv]) simp
  qed
next
  case False
  have inv: "sys_inv a" by (rule async.reach_inv [OF assms(1)])
  have "cfg_maxInflight (cfg (sch a)) \<le> inflightCount (sch a)"
    using sys_invD(4,5) [OF inv] False assms(2,3) by (auto simp: pump_ok_def wake_ok_def quiet_def)
  moreover have "1 \<le> cfg_maxInflight (cfg (sch a))"
    using sys_invD(1) [OF inv] by (simp add: sched_inv_def limits_ok_def)
  ultimately have "running (sch a) (invoked a) \<noteq> []"
    using sys_invD(6) [OF inv] False by (auto simp: work_ok_def)
  then obtain e where "e \<in> set (invoked a)" "\<not> ent_completed (entries (sch a) e)"
    by (auto simp: running_def filter_empty_conv)
  then show ?thesis by (intro exI [of _ "DoneEv 0 e True"]) simp
qed

theorem async_progress_witness:
  "0 < totalQueueDepthLocked (sch demoSystem) \<and> \<not> stopped (sch demoSystem)
     \<and> (\<exists>ev. execEvent ev demoSystem \<noteq> None)"
  using async_progress [OF demo_reachable demo_idle(3)] demo_idle by auto

subsection \<open>Lane selection, pre-emption and the gap\<close>

lemma find_upt_least: "find P [0..<n] = Some p \<Longrightarrow> p < n \<and> P p \<and> (\<forall>q < p. \<not> P q)"
  by (auto simp: find_Some_iff)

lemma find_rev_upt_greatest:
  "find P (rev [0..<n]) = Some p \<Longrightarrow> p < n \<and> P p \<and> (\<forall>q. p < q \<and> q < n \<longrightarrow> \<not> P q)"
proof (induction n)
  case (Suc n)
  then show ?case by (cases "P n") (auto simp: less_Suc_eq)
qed simp

definition headWait :: "time_ns \<Rightarrow> Scheduler \<Rightarrow> nat \<Rightarrow> int" where
  "headWait now s p = now - ent_queuedAt (entries s (hd (lanes s p)))"

definition starvedLane :: "time_ns \<Rightarrow> Scheduler \<Rightarrow> nat \<Rightarrow> bool" where
  "starvedLane now s p \<longleftrightarrow> 0 < cfg_starvationGuardMs (cfg s) \<and> lanes s p \<noteq> []
     \<and> milliseconds (cfg_starvationGuardMs (cfg s)) \<le> headWait now s p"

lemma starvedLaneLocked_iff:
  "starvedLaneLocked now s = find (starvedLane now s) [0..<kPriorityCount]"
proof (cases "cfg_starvationGuardMs (cfg s) \<le> 0")
  case True
  then show ?thesis
    by (auto simp: starvedLaneLocked_def starvedLane_def find_None_iff intro: sym)
next
  case False
  then have "starvedLane now s = (\<lambda>p. case lanes s p of [] \<Rightarrow> False
      | e # _ \<Rightarrow> milliseconds (cfg_starvationGuardMs (cfg s)) \<le> now - ent_queuedAt (entries s e))"
    by (auto simp: starvedLane_def headWait_def fun_eq_iff split: list.splits)
  with False show ?thesis by (simp add: starvedLaneLocked_def)
qed

text \<open>C5: the selection policy.  The lane served next is the lowest starved lane when the
  starvation guard is on and the head of some lane has waited that long, and otherwise the
  highest non-empty priority; inside a FIFO lane the oldest entry is taken, and with rotation an
  entry of a module other than the one served last whenever the lane has one.\<close>

theorem selection_policy:
  assumes "takeEntry now s = Some (p, e)"
  shows "(if \<exists>q < kPriorityCount. starvedLane now s q
          then starvedLane now s p \<and> (\<forall>q < p. \<not> starvedLane now s q)
          else lanes s p \<noteq> [] \<and> (\<forall>q. p < q \<and> q < kPriorityCount \<longrightarrow> lanes s q = []))
     \<and> (cfg_fifoWithinLane (cfg s) \<longrightarrow> e = hd (lanes s p))
     \<and> (\<not> cfg_fifoWithinLane (cfg s) \<and> lastServedModule s p \<noteq> []
          \<and> (\<exists>x \<in> set (lanes s p). tag_moduleId (ent_tag (entries s x)) \<noteq> lastServedModule s p)
          \<and> 1 < length (lanes s p)
          \<longrightarrow> tag_moduleId (ent_tag (entries s e)) \<noteq> lastServedModule s p)"
proof (intro conjI)
  have lane: "pickedLane now s = Some p" and entry: "pickedEntry s p = Some e"
    using assms by (auto simp: takeEntry_def split: option.splits)
  show "if \<exists>q < kPriorityCount. starvedLane now s q
      then starvedLane now s p \<and> (\<forall>q < p. \<not> starvedLane now s q)
      else lanes s p \<noteq> [] \<and> (\<forall>q. p < q \<and> q < kPriorityCount \<longrightarrow> lanes s q = [])"
  proof (cases "find (starvedLane now s) [0..<kPriorityCount]")
    case None
    then have "\<not> (\<exists>q < kPriorityCount. starvedLane now s q)" by (auto simp: find_None_iff)
    moreover have "find (\<lambda>p. lanes s p \<noteq> []) (rev [0..<kPriorityCount]) = Some p"
      using lane None by (simp add: pickedLane_def starvedLaneLocked_iff)
    ultimately show ?thesis by (auto dest!: find_rev_upt_greatest)
  next
    case (Some q)
    then have "q = p" using lane by (simp add: pickedLane_def starvedLaneLocked_iff)
    then show ?thesis using find_upt_least [OF Some] by auto
  qed
  show "cfg_fifoWithinLane (cfg s) \<longrightarrow> e = hd (lanes s p)"
    using entry by (auto simp: pickedEntry_def split: list.splits)
  show "\<not> cfg_fifoWithinLane (cfg s) \<and> lastServedModule s p \<noteq> []
      \<and> (\<exists>x \<in> set (lanes s p). tag_moduleId (ent_tag (entries s x)) \<noteq> lastServedModule s p)
      \<and> 1 < length (lanes s p)
      \<longrightarrow> tag_moduleId (ent_tag (entries s e)) \<noteq> lastServedModule s p"
    using entry
    by (auto simp: pickedEntry_def find_None_iff dest: find_SomeD split: list.splits option.splits if_splits)
qed

text \<open>A priority scheduler with an old low-priority and a fresh high-priority request.\<close>

definition starvingScheduler :: Scheduler where
  "starvingScheduler = snd (submitAsync 6000000000 (demoTag ''sink'' 3)
     (snd (submitAsync 1000 (demoTag ''poll'' 0)
        (priorityScheduler (defaultSchedulerConfig\<lparr>cfg_starvationGuardMs := 2000\<rparr>)))))"

theorem selection_policy_witness:
  "takeEntry 6000000000 starvingScheduler = Some (0, 0) \<and> starvedLane 6000000000 starvingScheduler 0
     \<and> lanes starvingScheduler 3 = [1]"
proof -
  have t: "takeEntry 6000000000 starvingScheduler = Some (0, 0)" by code_simp
  have "starvedLane 6000000000 starvingScheduler 0" "lanes starvingScheduler 3 = [1]" by code_simp+
  with t selection_policy [OF t] show ?thesis by (auto simp: kPriorityCount_def)
qed

text \<open>Cancelling the victims of the first \<open>n\<close> lanes, lane by lane.\<close>

lemma cancel_fold_spec:
  assumes inv: "sched_inv s" and victim: "\<And>en. victim en \<Longrightarrow> ent_state en = Queued"
  shows "n \<le> kPriorityCount \<Longrightarrow> fold (cancelInLane victim) [0..<n] (k, s) = (k', t) \<Longrightarrow>
      (\<forall>p. lanes t p = (if p < n then filter (\<lambda>e. \<not> victim (entries s e)) (lanes s p) else lanes s p))
      \<and> entries t = (\<lambda>e. if (\<exists>p < n. e \<in> set (lanes s p)) \<and> victim (entries s e)
            then (entries s e)\<lparr>ent_state := CancelledEntry\<rparr> else entries s e)
      \<and> k' = k + (\<Sum>p < n. length (filter (\<lambda>e. victim (entries s e)) (lanes s p)))"
proof (induction n arbitrary: k' t)
  case 0
  then show ?case by (simp add: fun_eq_iff)
next
  case (Suc n)
  obtain j u where u: "fold (cancelInLane victim) [0..<n] (k, s) = (j, u)" by fastforce
  note IH = Suc.IH [OF _ u]
  have ok: "lanes_ok s" using inv by (simp add: sched_inv_def)
  have ent: "entries u e = entries s e" if "e \<in> set (lanes s n)" for e
  proof -
    have "\<not> (\<exists>p < n. e \<in> set (lanes s p))"
      using ok that unfolding lanes_ok_def by (metis less_irrefl)
    then show ?thesis using IH Suc.prems(1) by auto
  qed
  have lane: "lanes u n = lanes s n" using IH Suc.prems(1) by simp
  have vic: "filter (\<lambda>e. victim (entries u e)) (lanes u n) = filter (\<lambda>e. victim (entries s e)) (lanes s n)"
    unfolding lane by (intro filter_cong) (auto simp: ent)
  have step: "cancelInLane victim n (j, u) = (k', t)"
    using Suc.prems(2) u by simp
  have keep: "ent_state (entries s e) = Queued" if "e \<in> set (lanes s n)" for e
    using ok that by (simp add: lanes_ok_def)
  have lt: "lanes t n = filter (\<lambda>e. \<not> victim (entries s e)) (lanes s n)"
    using step unfolding cancelInLane_def Let_def lane
    by (auto simp: ent keep lane intro!: filter_cong)
  have rest: "lanes t p = lanes u p" if "p \<noteq> n" for p
    using step that by (auto simp: cancelInLane_def Let_def)
  have et: "entries t e = (if e \<in> set (lanes s n) \<and> victim (entries s e)
      then (entries s e)\<lparr>ent_state := CancelledEntry\<rparr> else entries u e)" for e
    using step ent [of e] lane by (auto simp: cancelInLane_def Let_def)
  have "k' = j + length (filter (\<lambda>e. victim (entries s e)) (lanes s n))"
    using step vic by (auto simp: cancelInLane_def Let_def)
  then show ?case
    using IH Suc.prems(1) lt rest et by (auto simp: less_Suc_eq fun_eq_iff)
qed

text \<open>Pre-emption.  A request of priority \<open>high\<close> cancels exactly the queued synchronous
  entries marked interruptable in the lanes below \<open>high\<close>; every other entry keeps its state and
  its place, and the number returned is the number of victims.\<close>

theorem preemption_exact:
  assumes "sched_inv s" "high \<le> int kPriorityCount"
    and "preemptLowerInterruptablesLocked high s = (k, t)"
  shows "(\<forall>p. lanes t p = (if int p < high
             then filter (\<lambda>e. ent_async (entries s e) \<or> \<not> tag_interruptable (ent_tag (entries s e))) (lanes s p)
             else lanes s p))
     \<and> (\<forall>e. ent_state (entries t e) =
             (if (\<exists>p. int p < high \<and> e \<in> set (lanes s p)) \<and> preemptVictim (entries s e)
              then CancelledEntry else ent_state (entries s e)))
     \<and> k = (\<Sum>p < nat high. length (filter (\<lambda>e. preemptVictim (entries s e)) (lanes s p)))"
proof -
  have h: "p < nat high \<longleftrightarrow> int p < high" for p by auto
  have q: "ent_state (entries s e) = Queued" if "e \<in> set (lanes s p)" for e p
    using assms(1) that by (simp add: sched_inv_def lanes_ok_def)
  have f: "filter (\<lambda>e. \<not> preemptVictim (entries s e)) (lanes s p)
      = filter (\<lambda>e. ent_async (entries s e) \<or> \<not> tag_interruptable (ent_tag (entries s e))) (lanes s p)" for p
    by (intro filter_cong) (auto simp: preemptVictim_def dest: q)
  have "nat high \<le> kPriorityCount" using assms(2) by simp
  then show ?thesis
    using cancel_fold_spec [OF assms(1) _ _ assms(3) [unfolded preemptLowerInterruptablesLocked_def]] f h
    by (auto simp: preemptVictim_def)
qed

text \<open>Two queued polls behind a running request; the second is not interruptable.\<close>

definition preemptScheduler :: Scheduler where
  "preemptScheduler =
     (let s = serialScheduler defaultSchedulerConfig;
          s = snd (submitEnter 10 (demoTag ''write'' 1) s);
          s = snd (submitEnter 20 (demoTag ''poll'' 0) s)
      in snd (submitEnter 30 ((demoTag ''poll'' 0)\<lparr>tag_interruptable := False\<rparr>) s))"

theorem preemption_exact_witness:
  "lanes preemptScheduler 0 = [1, 2]
     \<and> lanes (snd (preemptLowerInterruptablesLocked 2 preemptScheduler)) 0 = [2]
     \<and> ent_state (entries (snd (preemptLowerInterruptablesLocked 2 preemptScheduler)) 1) = CancelledEntry"
proof -
  have inv: "sched_inv preemptScheduler"
    unfolding preemptScheduler_def Let_def by (intro submitEnter_inv serialScheduler_inv)
  have l: "lanes preemptScheduler 0 = [1, 2]" by code_simp
  have e: "preemptVictim (entries preemptScheduler 1)" "\<not> preemptVictim (entries preemptScheduler 2)"
      "tag_interruptable (ent_tag (entries preemptScheduler 1))" "\<not> ent_async (entries preemptScheduler 1)"
      "\<not> tag_interruptable (ent_tag (entries preemptScheduler 2))"
    by code_simp+
  have v: "\<exists>p. int p < 2 \<and> Suc 0 \<in> set (lanes preemptScheduler p)" using l by (intro exI [of _ 0]) simp
  show ?thesis
    using preemption_exact [OF inv, of 2 "fst (preemptLowerInterruptablesLocked 2 preemptScheduler)"
        "snd (preemptLowerInterruptablesLocked 2 preemptScheduler)"] l e v
    by (simp add: kPriorityCount_def)
qed



lemma pumpLocked_fills:
  "totalQueueDepthLocked (pumpLocked now s) = 0
     \<or> cfg_maxInflight (cfg (pumpLocked now s)) \<le> inflightCount (pumpLocked now s)"
proof (induction "nat (totalQueueDepthLocked s)" arbitrary: s rule: less_induct)
  case less
  show ?case
  proof (cases "inflightCount s < cfg_maxInflight (cfg s) \<and> takeEntry now s \<noteq> None")
    case True
    then obtain p e where pe: "takeEntry now s = Some (p, e)" by auto
    have "pumpLocked now s = pumpLocked now (dispatchEntry p e s)"
      using True pe by (subst pumpLocked.simps) simp
    then show ?thesis using less.hyps [OF takeEntry_depth [OF pe]] by simp
  next
    case False
    then have "pumpLocked now s = s"
      by (subst pumpLocked.simps) (auto split: option.splits)
    then show ?thesis using False takeEntry_None_iff [of now s] by auto
  qed
qed

text \<open>The synchronous path is work conserving.  After a submission entered the queue and
  after a slot was released, either no entry is queued or every in-flight slot is taken, so a
  waiting submitter is never left asleep beside a free slot.\<close>

theorem sync_work_conserving:
  assumes "submitEnter now tag s = (Inr e, t) \<or> submitFinish t0 t1 failure s = (r, t)"
  shows "totalQueueDepthLocked t = 0 \<or> cfg_maxInflight (cfg t) \<le> inflightCount t"
  using assms pumpLocked_fills
  by (auto simp: submitEnter_def submitFinish_def Let_def split: if_splits option.splits)

theorem sync_work_conserving_witness:
  "\<exists>t. submitEnter 40 (demoTag ''x'' 1) preemptScheduler = (Inr 3, t)
     \<and> totalQueueDepthLocked t = 2 \<and> cfg_maxInflight (cfg t) \<le> inflightCount t"
proof -
  let ?r = "submitEnter 40 (demoTag ''x'' 1) preemptScheduler"
  have "isl (fst ?r) = False" "projr (fst ?r) = 3" "totalQueueDepthLocked (snd ?r) = 2" by code_simp+
  then have r: "?r = (Inr 3, snd ?r)" by (cases ?r; cases "fst ?r") auto
  then show ?thesis
    using sync_work_conserving [of 40 "demoTag ''x'' 1" preemptScheduler 3 "snd ?r"]
      \<open>totalQueueDepthLocked (snd ?r) = 2\<close> by (metis zero_neq_numeral)
qed

subsection \<open>The circuit breaker\<close>

lemma failures_cfg [simp]: "cfg ((recordFailureLocked now ^^ n) s) = cfg s"
  by (induction n) (auto simp: recordFailureLocked_def Let_def)

lemma failures_streak: "errorStreak ((recordFailureLocked now ^^ n) s) = errorStreak s + int n"
  by (induction n) (auto simp: recordFailureLocked_def Let_def)

text \<open>The breaker trips exactly at the threshold.  Starting closed with no error streak,
  \<open>n\<close> consecutive failures leave the circuit open iff a positive threshold has been reached, and
  a success in between resets the streak.\<close>

theorem circuit_trips_at_threshold:
  assumes "circuitState s = Closed" "errorStreak s = 0"
  shows "circuitState ((recordFailureLocked now ^^ n) s) =
       (if 0 < cfg_circuitBreakerThreshold (cfg s) \<and> cfg_circuitBreakerThreshold (cfg s) \<le> int n
        then Open else Closed)
     \<and> errorStreak (recordSuccessLocked ((recordFailureLocked now ^^ n) s)) = 0"
proof (induction n)
  case 0
  then show ?case using assms by (simp add: recordSuccessLocked_def Let_def)
next
  case (Suc n)
  define u where "u = (recordFailureLocked now ^^ n) s"
  have u: "errorStreak u = int n" "cfg u = cfg s"
    using failures_streak [where n = n and s = s and now = now] assms(2) by (simp_all add: u_def)
  have f: "(recordFailureLocked now ^^ Suc n) s = recordFailureLocked now u" by (simp add: u_def)
  show ?case
    using Suc u unfolding f u_def [symmetric]
    by (auto simp: recordFailureLocked_def recordSuccessLocked_def Let_def)
qed

theorem circuit_trips_at_threshold_witness:
  "circuitState ((recordFailureLocked 7 ^^ 10) (makeScheduler defaultSchedulerConfig)) = Open
     \<and> circuitState ((recordFailureLocked 7 ^^ 9) (makeScheduler defaultSchedulerConfig)) = Closed"
proof -
  let ?s = "makeScheduler defaultSchedulerConfig"
  have s: "circuitState ?s = Closed" "errorStreak ?s = 0" "cfg_circuitBreakerThreshold (cfg ?s) = 10"
    by code_simp+
  show ?thesis
    using circuit_trips_at_threshold [OF s(1,2), of 10 7] circuit_trips_at_threshold [OF s(1,2), of 9 7] s(3)
    by simp
qed

lemma preempt_circuit: "circuitState (snd (fold (cancelInLane v) ps (n, s))) = circuitState s"
  by (rule fold_invariant [where P = "\<lambda>ns. circuitState (snd ns) = circuitState s"])
    (auto simp: cancelInLane_def Let_def)

lemma enqueue_circuit: "circuitState (enqueue now a tag s) = circuitState s"
  by (simp add: enqueue_def Let_def preemptLowerInterruptablesLocked_def preempt_circuit)


definition trippedScheduler :: Scheduler where
  "trippedScheduler = recordFailureForTesting 1000
     (makeScheduler (defaultSchedulerConfig\<lparr>cfg_circuitBreakerThreshold := 1\<rparr>))"


text \<open>
  Three requests in flight: two fail and open the circuit (threshold 2), the third succeeds while
  it is open.  The probe admitted after the cool-down then fails.
\<close>

definition probeTrace :: "AsyncEvent list" where
  "probeTrace = [SubmitEv 1 (demoTag ''a'' 1), SubmitEv 2 (demoTag ''b'' 1), SubmitEv 3 (demoTag ''c'' 1),
     PumpEv, SelectEv 4, InvokeEv, InvokeEv, InvokeEv, DelayEv, LeaveEv,
     DoneEv 5 0 False, DoneEv 6 1 False, DoneEv 7 2 True,
     SubmitEv 6000000000 (demoTag ''d'' 1), PumpEv, SelectEv 6000000001, InvokeEv, DelayEv, LeaveEv,
     DoneEv 6000000002 3 False]"

definition probeConfig :: SchedulerConfig where
  "probeConfig = defaultSchedulerConfig\<lparr>cfg_kind := Credit, cfg_maxInflight := 3,
     cfg_circuitBreakerThreshold := 2\<rparr>"


end
