(* ===== verification/Codecs.thy ===== *)
theory Codecs
  imports Field_Prelude
begin

text \<open>
  Scalar codecs: \<open>src/BuiltinCodecs.cpp\<close>, the type and word-order helpers of
  \<open>src/Stubs.cpp\<close> and \<open>src/CodecRegistry.cpp\<close>.  A \<open>double\<close> is its 64-bit IEEE pattern, so
  that \<open>memcpy\<close> between integers and floating point numbers is the identity; the arithmetic of
  the floating point unit and the conversions of \<open>QVariant\<close> (a class of Qt) are parameters,
  the records \<open>Fpu\<close> and \<open>QtVariant\<close>.
\<close>

subsection \<open>Types\<close>

datatype ScalarType = Bool | U16 | S16 | U32 | S32 | F32 | U64 | S64 | F64 | EnumU16 | String
datatype WordOrder = ABCD | CDAB | BADC | DCBA
datatype RegisterType = InvalidTable | DiscreteInputs | Coils | InputRegisters | HoldingRegisters

type_synonym double = u64

definition double_one :: double where "double_one = 0x3FF0000000000000"

datatype QVariant =
    QInvalid | QBool bool | QU16 u16 | QS16 u16 | QU32 u32 | QS32 u32 | QU64 u64 | QS64 u64
  | QDouble double | QText qstring

record PortRef =
  ref_transport :: qstring
  ref_table :: RegisterType
  ref_address :: int
  ref_bit :: "int option"
  ref_wordOrder :: WordOrder
  ref_shift :: int
  ref_mask :: u64
  ref_scale :: double
  ref_offset :: double
  ref_codec :: "qstring option"
  ref_window :: qstring

definition defaultPortRef :: PortRef where
  "defaultPortRef = \<lparr>ref_transport = [], ref_table = HoldingRegisters, ref_address = 0, ref_bit = None,
     ref_wordOrder = ABCD, ref_shift = 0, ref_mask = - 1, ref_scale = double_one, ref_offset = 0,
     ref_codec = None, ref_window = []\<rparr>"

text \<open>
  Floating point arithmetic and conversions.  \<open>fp_of_int\<close> is the conversion of an integer,
  \<open>fp_to_s64\<close> and \<open>fp_to_u64\<close> the truncating conversions to 64-bit integers.
\<close>

record Fpu =
  fp_add :: "double \<Rightarrow> double \<Rightarrow> double"
  fp_sub :: "double \<Rightarrow> double \<Rightarrow> double"
  fp_mul :: "double \<Rightarrow> double \<Rightarrow> double"
  fp_div :: "double \<Rightarrow> double \<Rightarrow> double"
  fp_round :: "double \<Rightarrow> double"
  fp_of_int :: "int \<Rightarrow> double"
  fp_to_s64 :: "double \<Rightarrow> u64"
  fp_to_u64 :: "double \<Rightarrow> u64"
  fp_widen :: "u32 \<Rightarrow> double"
  fp_narrow :: "double \<Rightarrow> u32"

text \<open>Conversions and \<open>operator==\<close> of \<open>QVariant\<close>; \<open>None\<close> is \<open>ok == false\<close>.\<close>

record QtVariant =
  qt_toBool :: "QVariant \<Rightarrow> bool"
  qt_toDouble :: "QVariant \<Rightarrow> double option"
  qt_toLongLong :: "QVariant \<Rightarrow> u64 option"
  qt_toULongLong :: "QVariant \<Rightarrow> u64 option"
  qt_toUInt :: "QVariant \<Rightarrow> u32 option"
  qt_toString :: "QVariant \<Rightarrow> qstring"
  qt_equal :: "QVariant \<Rightarrow> QVariant \<Rightarrow> bool"

text \<open>IEEE-754 classification and comparison on bit patterns.\<close>

definition isfinite :: "double \<Rightarrow> bool" where
  "isfinite d = (drop_bit 52 d AND 0x7FF \<noteq> 0x7FF)"

definition isnan :: "double \<Rightarrow> bool" where
  "isnan d = (drop_bit 52 d AND 0x7FF = 0x7FF \<and> d AND 0xFFFFFFFFFFFFF \<noteq> 0)"

definition isfinite32 :: "u32 \<Rightarrow> bool" where
  "isfinite32 f = (drop_bit 23 f AND 0xFF \<noteq> 0xFF)"

definition magnitude :: "double \<Rightarrow> u64" where "magnitude d = d AND 0x7FFFFFFFFFFFFFFF"

definition fp_eq :: "double \<Rightarrow> double \<Rightarrow> bool" where
  "fp_eq a b = (\<not> isnan a \<and> \<not> isnan b \<and> (a = b \<or> magnitude a = 0 \<and> magnitude b = 0))"

definition fp_key :: "double \<Rightarrow> int" where
  "fp_key d = (if bit d 63 then - int (unat (magnitude d)) else int (unat (magnitude d)))"

definition fp_less :: "double \<Rightarrow> double \<Rightarrow> bool" where
  "fp_less a b = (\<not> isnan a \<and> \<not> isnan b \<and> fp_key a < fp_key b)"

subsection \<open>Scalar types and word orders\<close>

fun registerCountFor :: "ScalarType \<Rightarrow> nat" where
  "registerCountFor Bool = 1"
| "registerCountFor U16 = 1"
| "registerCountFor S16 = 1"
| "registerCountFor EnumU16 = 1"
| "registerCountFor U32 = 2"
| "registerCountFor S32 = 2"
| "registerCountFor F32 = 2"
| "registerCountFor U64 = 4"
| "registerCountFor S64 = 4"
| "registerCountFor F64 = 4"
| "registerCountFor String = 0"

definition isMultiRegister :: "ScalarType \<Rightarrow> bool" where
  "isMultiRegister t = (1 < registerCountFor t)"

fun scalarTypeName :: "ScalarType \<Rightarrow> qstring" where
  "scalarTypeName Bool = ''Bool''"
| "scalarTypeName U16 = ''U16''"
| "scalarTypeName S16 = ''S16''"
| "scalarTypeName U32 = ''U32''"
| "scalarTypeName S32 = ''S32''"
| "scalarTypeName F32 = ''F32''"
| "scalarTypeName U64 = ''U64''"
| "scalarTypeName S64 = ''S64''"
| "scalarTypeName F64 = ''F64''"
| "scalarTypeName EnumU16 = ''EnumU16''"
| "scalarTypeName String = ''String''"

fun wordOrderName :: "WordOrder \<Rightarrow> qstring" where
  "wordOrderName ABCD = ''ABCD''"
| "wordOrderName CDAB = ''CDAB''"
| "wordOrderName BADC = ''BADC''"
| "wordOrderName DCBA = ''DCBA''"

definition permutationFor :: "WordOrder \<Rightarrow> nat \<Rightarrow> nat list" where
  "permutationFor w byteCount =
     (if byteCount = 4 then
        (case w of ABCD \<Rightarrow> [0,1,2,3,0,0,0,0] | CDAB \<Rightarrow> [2,3,0,1,0,0,0,0]
                 | BADC \<Rightarrow> [1,0,3,2,0,0,0,0] | DCBA \<Rightarrow> [3,2,1,0,0,0,0,0])
      else if byteCount = 8 then
        (case w of ABCD \<Rightarrow> [0,1,2,3,4,5,6,7] | CDAB \<Rightarrow> [6,7,4,5,2,3,0,1]
                 | BADC \<Rightarrow> [1,0,3,2,5,4,7,6] | DCBA \<Rightarrow> [7,6,5,4,3,2,1,0])
      else replicate 8 0)"

subsection \<open>Packing\<close>

text \<open>Bytes of a register and of a 64-bit value.\<close>

definition hiByte :: "u16 \<Rightarrow> u8" where "hiByte r = ucast (drop_bit 8 r)"
definition loByte :: "u16 \<Rightarrow> u8" where "loByte r = ucast (r AND 0xFF)"
definition regOf :: "u8 \<Rightarrow> u8 \<Rightarrow> u16" where "regOf hi lo = push_bit 8 (ucast hi) OR ucast lo"
definition appendByte :: "u64 \<Rightarrow> u8 \<Rightarrow> u64" where "appendByte result b = push_bit 8 result OR ucast b"
definition byteAt :: "u64 \<Rightarrow> nat \<Rightarrow> u8" where "byteAt value k = ucast (drop_bit k value)"

definition unpackInt :: "u16 list \<Rightarrow> nat \<Rightarrow> WordOrder \<Rightarrow> u64" where
  "unpackInt raw regCount wordOrder =
     (if regCount = 1 then ucast (qvalue raw 0)
      else
        let byteCount = regCount * 2;
            network = fold (\<lambda>i net. net[2 * i := hiByte (qvalue raw i), 2 * i + 1 := loByte (qvalue raw i)])
                        [0..<regCount] (replicate 8 (0 :: u8));
            perm = permutationFor wordOrder byteCount
        in fold (\<lambda>i result. appendByte result (network ! (perm ! i))) [0..<byteCount] 0)"

definition packInt :: "u64 \<Rightarrow> nat \<Rightarrow> WordOrder \<Rightarrow> u16 list" where
  "packInt value regCount wordOrder =
     (if regCount = 1 then [ucast (value AND 0xFFFF)]
      else
        let byteCount = regCount * 2;
            result = fold (\<lambda>i r. r[i := byteAt value (8 * (byteCount - 1 - i))])
                       [0..<byteCount] (replicate 8 (0 :: u8));
            perm = permutationFor wordOrder byteCount;
            network = fold (\<lambda>i net. net[perm ! i := result ! i]) [0..<byteCount] (replicate 8 (0 :: u8))
        in map (\<lambda>i. regOf (network ! (2 * i)) (network ! (2 * i + 1))) [0..<regCount])"

definition hasLinearTransform :: "PortRef \<Rightarrow> bool" where
  "hasLinearTransform ref = (\<not> fp_eq (ref_scale ref) double_one \<or> \<not> fp_eq (ref_offset ref) 0)"

text \<open>The all-ones value of the output registers.\<close>

definition outputLimit :: "nat \<Rightarrow> u64" where
  "outputLimit rc = (if 64 \<le> rc * 16 then - 1 else push_bit (rc * 16) 1 - 1)"

lemma upt_small:
  "[0..<2] = [0, 1]" "[0..<4] = [0, 1, 2, 3]" "[0..<8] = [0, 1, 2, 3, 4, 5, 6, 7]"
  by (simp_all add: upt_rec)

lemma mask_numerals: "(0xFFFF :: u64) = mask 16" "(0xFF :: u16) = mask 8" "(0xFFFFFFFF :: u64) = mask 32"
  by (simp_all add: mask_eq_exp_minus_1)

lemma outputLimit_mask: "rc \<in> {1, 2, 4} \<Longrightarrow> outputLimit rc = mask (16 * rc)"
  by (auto simp: outputLimit_def mask_eq_exp_minus_1)

lemma bit_widthD: "bit (b :: u8) n \<Longrightarrow> n < 8" "bit (v :: u64) n \<Longrightarrow> n < 64"
  using bit_imp_le_length [of b n] bit_imp_le_length [of v n] by auto

lemma regOf_bytes [simp]: "hiByte (regOf x y) = x" "loByte (regOf x y) = y"
  by (auto simp: hiByte_def loByte_def regOf_def mask_numerals bit_simps intro!: bit_word_eqI
      dest: bit_widthD)

lemma regOf_join [simp]: "regOf (hiByte r) (loByte r) = r"
  by (auto simp: hiByte_def loByte_def regOf_def mask_numerals bit_simps intro!: bit_word_eqI)

lemma appendByte_join: "appendByte (drop_bit (8 + k) v) (byteAt v k) = drop_bit k v"
proof (rule bit_word_eqI)
  fix n assume "n < LENGTH(64)"
  then show "bit (appendByte (drop_bit (8 + k) v) (byteAt v k)) n = bit (drop_bit k v) n"
    by (cases "n < 8") (auto simp: appendByte_def byteAt_def bit_simps dest: bit_widthD)
qed

lemma byteAt_appendByte: "k \<le> 48 \<Longrightarrow> byteAt (appendByte r b) (8 + k) = byteAt r k"
  unfolding appendByte_def byteAt_def
  by (rule bit_word_eqI) (auto simp: bit_simps dest: bit_widthD)

lemma byteAt_last [simp]: "byteAt (appendByte r b) 0 = b"
  unfolding appendByte_def byteAt_def by (rule bit_word_eqI) (auto simp: bit_simps)

lemma appendByte_top: "appendByte 0 (byteAt v 56) = drop_bit 56 v"
  unfolding appendByte_def byteAt_def
  by (rule bit_word_eqI) (auto simp: bit_simps dest: bit_widthD)

lemma appendByte_top32: "appendByte 0 (byteAt (take_bit 32 v) 24) = drop_bit 24 (take_bit 32 v)"
  unfolding appendByte_def byteAt_def
  by (rule bit_word_eqI) (auto simp: bit_simps)

lemma byteAt_take32: "k \<le> 24 \<Longrightarrow> byteAt (take_bit 32 v) k = byteAt v k"
  unfolding byteAt_def by (rule bit_word_eqI) (auto simp: bit_simps)

lemmas byteAt_shifts = byteAt_appendByte [of 0, simplified] byteAt_appendByte [of 8, simplified]
  byteAt_appendByte [of 16, simplified] byteAt_appendByte [of 24, simplified]
  byteAt_appendByte [of 32, simplified] byteAt_appendByte [of 40, simplified]
  byteAt_appendByte [of 48, simplified]

lemmas appendByte_joins = appendByte_join [of 0, simplified] appendByte_join [of 8, simplified]
  appendByte_join [of 16, simplified] appendByte_join [of 24, simplified]
  appendByte_join [of 32, simplified] appendByte_join [of 40, simplified]
  appendByte_join [of 48, simplified]

lemmas pack_defs = unpackInt_def packInt_def permutationFor_def qvalue_def upt_small Let_def

lemma unpack_packInt:
  assumes "rc \<in> {1, 2, 4}"
  shows "unpackInt (packInt v rc w) rc w = v AND outputLimit rc"
proof -
  consider "rc = 1" | "rc = 2" | "rc = 4" using assms by auto
  then show ?thesis
  proof cases
    case 1
    then show ?thesis unfolding outputLimit_mask [OF assms]
      by (auto simp: unpackInt_def packInt_def qvalue_def mask_numerals bit_simps intro!: bit_word_eqI)
  next
    case 2
    have "packInt v 2 w = packInt (take_bit 32 v) 2 w"
      by (simp add: packInt_def upt_small Let_def byteAt_take32)
    moreover have "unpackInt (packInt (take_bit 32 v) 2 w) 2 w = take_bit 32 v"
      by (cases w) (simp_all add: pack_defs appendByte_joins appendByte_top32)
    ultimately show ?thesis unfolding outputLimit_mask [OF assms] by (simp add: 2 take_bit_eq_mask)
  next
    case 3
    have "unpackInt (packInt v 4 w) 4 w = v"
      by (cases w) (simp_all add: pack_defs appendByte_joins appendByte_top)
    then show ?thesis by (simp add: 3 outputLimit_def)
  qed
qed

lemma take_registers:
  "2 \<le> length raw \<Longrightarrow> take 2 raw = [raw ! 0, raw ! 1]"
  "4 \<le> length raw \<Longrightarrow> take 4 raw = [raw ! 0, raw ! 1, raw ! 2, raw ! 3]"
  by (auto simp: list_eq_iff_nth_eq less_Suc_eq eval_nat_numeral)

lemma pack_unpackInt:
  assumes "rc \<in> {1, 2, 4}" "rc \<le> length raw"
  shows "packInt (unpackInt raw rc w) rc w = take rc raw"
proof -
  consider "rc = 1" | "rc = 2" | "rc = 4" using assms by auto
  then show ?thesis
  proof cases
    case 1
    then obtain a r where "raw = a # r" using assms(2) by (cases raw) auto
    then show ?thesis using 1
      by (auto simp: unpackInt_def packInt_def qvalue_def mask_numerals bit_simps intro!: bit_word_eqI)
  next
    case 2
    then show ?thesis using assms(2) take_registers(1) [of raw]
      by (cases w) (auto simp: pack_defs byteAt_shifts)
  next
    case 3
    then show ?thesis using assms(2) take_registers(2) [of raw]
      by (cases w) (auto simp: pack_defs byteAt_shifts)
  qed
qed

lemma length_packInt: "length (packInt v rc w) = rc"
  by (simp add: packInt_def Let_def)

lemma unpackInt_prefix: "rc \<in> {1, 2, 4} \<Longrightarrow> unpackInt (take rc raw) rc w = unpackInt raw rc w"
  by (auto simp: unpackInt_def qvalue_def upt_small Let_def)

subsection \<open>\<open>BuiltinScalarCodec\<close>\<close>

definition idFor :: "ScalarType \<Rightarrow> qstring" where
  "idFor t = ''builtin.'' @ to_lower (scalarTypeName t)"

definition isSignedType :: "ScalarType \<Rightarrow> bool" where
  "isSignedType t = (t = S16 \<or> t = S32 \<or> t = S64)"

definition linear :: "Fpu \<Rightarrow> PortRef \<Rightarrow> double \<Rightarrow> double" where
  "linear fpu ref v = fp_add fpu (fp_mul fpu v (ref_scale ref)) (ref_offset ref)"

text \<open>The lambda \<open>integerVariant\<close>: truncate to the width of the type, then scale.\<close>

fun integerVariant :: "Fpu \<Rightarrow> ScalarType \<Rightarrow> PortRef \<Rightarrow> u64 \<Rightarrow> QVariant" where
  "integerVariant fpu U16 ref m =
     (if hasLinearTransform ref then QDouble (linear fpu ref (fp_of_int fpu (uint (ucast m :: u16)))) else QU16 (ucast m))"
| "integerVariant fpu S16 ref m =
     (if hasLinearTransform ref then QDouble (linear fpu ref (fp_of_int fpu (sint (ucast m :: u16)))) else QS16 (ucast m))"
| "integerVariant fpu U32 ref m =
     (if hasLinearTransform ref then QDouble (linear fpu ref (fp_of_int fpu (uint (ucast m :: u32)))) else QU32 (ucast m))"
| "integerVariant fpu S32 ref m =
     (if hasLinearTransform ref then QDouble (linear fpu ref (fp_of_int fpu (sint (ucast m :: u32)))) else QS32 (ucast m))"
| "integerVariant fpu U64 ref m =
     (if hasLinearTransform ref then QDouble (linear fpu ref (fp_of_int fpu (uint m))) else QU64 m)"
| "integerVariant fpu S64 ref m =
     (if hasLinearTransform ref then QDouble (linear fpu ref (fp_of_int fpu (sint m))) else QS64 m)"
| "integerVariant fpu EnumU16 ref m = QU16 (ucast m)"
| "integerVariant fpu _ ref m = QInvalid"

definition scalarDecode :: "Fpu \<Rightarrow> ScalarType \<Rightarrow> u16 list \<Rightarrow> PortRef \<Rightarrow> QVariant" where
  "scalarDecode fpu t raw ref =
     (let rc = registerCountFor t
      in if 0 < rc \<and> length raw < rc then QInvalid
         else if t = Bool then
           (let b = (case ref_bit ref of None \<Rightarrow> 0 | Some b \<Rightarrow> b)
            in if b < 0 \<or> 15 < b then QInvalid
               else QBool (drop_bit (nat b) (qvalue raw 0) AND 1 \<noteq> 0))
         else if t = F32 then
           (let v = fp_widen fpu (ucast (unpackInt raw rc (ref_wordOrder ref)))
            in QDouble (if hasLinearTransform ref then linear fpu ref v else v))
         else if t = F64 then
           (let v = unpackInt raw rc (ref_wordOrder ref)
            in QDouble (if hasLinearTransform ref then linear fpu ref v else v))
         else if ref_shift ref < 0 \<or> 64 \<le> ref_shift ref
                 \<or> \<not> isfinite (ref_scale ref) \<or> \<not> isfinite (ref_offset ref) then QInvalid
         else integerVariant fpu t ref
                (drop_bit (nat (ref_shift ref)) (unpackInt raw rc (ref_wordOrder ref)) AND ref_mask ref))"

text \<open>The inverse linear transform of \<open>encode\<close>.\<close>

definition unlinear :: "Fpu \<Rightarrow> PortRef \<Rightarrow> double \<Rightarrow> double" where
  "unlinear fpu ref v = fp_div fpu (fp_sub fpu v (ref_offset ref)) (ref_scale ref)"

text \<open>The floating point number to store, shared by the F32 and F64 branches.\<close>

definition floatInput :: "Fpu \<Rightarrow> QtVariant \<Rightarrow> QVariant \<Rightarrow> PortRef \<Rightarrow> double option" where
  "floatInput fpu qt value ref =
     (case qt_toDouble qt value of None \<Rightarrow> None
      | Some v \<Rightarrow>
        (if \<not> isfinite v \<or> fp_eq (ref_scale ref) 0 then None
         else let v = (if hasLinearTransform ref then unlinear fpu ref v else v)
              in if isfinite v then Some v else None))"

text \<open>
  Limits of the rounded value: \<open>ldexp(1.0, 63)\<close> is \<open>0x43E0...0\<close>, \<open>nextafter(ldexp(1.0, 63), 0.0)\<close>
  the pattern below it, and likewise for \<open>ldexp(1.0, 64)\<close>.
\<close>

definition signedLimits :: "Fpu \<Rightarrow> ScalarType \<Rightarrow> double \<times> double" where
  "signedLimits fpu t =
     (if t = S16 then (fp_of_int fpu (- 32768), fp_of_int fpu 32767)
      else if t = S32 then (fp_of_int fpu (- 2147483648), fp_of_int fpu 2147483647)
      else (0xC3E0000000000000, 0x43DFFFFFFFFFFFFF))"

definition unsignedLimit :: "Fpu \<Rightarrow> ScalarType \<Rightarrow> double" where
  "unsignedLimit fpu t =
     (if t = U16 \<or> t = EnumU16 then fp_of_int fpu 65535
      else if t = U32 then fp_of_int fpu 4294967295 else 0x43EFFFFFFFFFFFFF)"

text \<open>The integer to store and whether it is negative, or a rejection.\<close>

definition integerInput :: "Fpu \<Rightarrow> QtVariant \<Rightarrow> ScalarType \<Rightarrow> QVariant \<Rightarrow> PortRef \<Rightarrow> (u64 \<times> bool) option" where
  "integerInput fpu qt t value ref =
     (if hasLinearTransform ref then
        (case qt_toDouble qt value of None \<Rightarrow> None
         | Some input \<Rightarrow>
           (if \<not> isfinite input then None
            else let transformed = unlinear fpu ref input
            in if \<not> isfinite transformed then None
            else let rounded = fp_round fpu transformed
            in if isSignedType t then
                 (if fp_less rounded (fst (signedLimits fpu t)) \<or> fp_less (snd (signedLimits fpu t)) rounded then None
                  else let r = fp_to_s64 fpu rounded in Some (r, sint r < 0))
               else
                 (if fp_less rounded 0 \<or> fp_less (unsignedLimit fpu t) rounded then None
                  else Some (fp_to_u64 fpu rounded, False))))
      else if isSignedType t then
        (case qt_toLongLong qt value of None \<Rightarrow> None
         | Some r \<Rightarrow>
           (if t = S16 \<and> (sint r < - 32768 \<or> 32767 < sint r) then None
            else if t = S32 \<and> (sint r < - 2147483648 \<or> 2147483647 < sint r) then None
            else Some (r, sint r < 0)))
      else
        (case qt_toULongLong qt value of None \<Rightarrow> None
         | Some r \<Rightarrow>
           (if (t = U16 \<or> t = EnumU16) \<and> 65535 < uint r then None
            else if t = U32 \<and> 4294967295 < uint r then None
            else Some (r, False))))"

definition placeInteger :: "nat \<Rightarrow> PortRef \<Rightarrow> u64 \<Rightarrow> bool \<Rightarrow> u16 list" where
  "placeInteger rc ref raw negative =
     (if \<not> negative \<and> raw AND NOT (ref_mask ref) \<noteq> 0 then []
      else let masked = raw AND outputLimit rc AND ref_mask ref
           in if drop_bit (nat (ref_shift ref)) (outputLimit rc) < masked then []
              else packInt (push_bit (nat (ref_shift ref)) masked) rc (ref_wordOrder ref))"

definition scalarEncode :: "Fpu \<Rightarrow> QtVariant \<Rightarrow> ScalarType \<Rightarrow> QVariant \<Rightarrow> PortRef \<Rightarrow> u16 list" where
  "scalarEncode fpu qt t value ref =
     (let rc = registerCountFor t
      in if rc = 0 then []
         else if t = Bool then
           (let b = (case ref_bit ref of None \<Rightarrow> 0 | Some b \<Rightarrow> b)
            in if b < 0 \<or> 15 < b then []
               else if qt_toBool qt value then [push_bit (nat b) 1] else [0])
         else if t = F32 then
           (case floatInput fpu qt value ref of None \<Rightarrow> []
            | Some v \<Rightarrow> (let f = fp_narrow fpu v
                        in if isfinite32 f then packInt (ucast f) rc (ref_wordOrder ref) else []))
         else if t = F64 then
           (case floatInput fpu qt value ref of None \<Rightarrow> []
            | Some v \<Rightarrow> packInt v rc (ref_wordOrder ref))
         else if ref_shift ref < 0 \<or> 64 \<le> ref_shift ref \<or> fp_eq (ref_scale ref) 0 then []
         else (case integerInput fpu qt t value ref of None \<Rightarrow> []
               | Some (raw, negative) \<Rightarrow> placeInteger rc ref raw negative))"

subsection \<open>\<open>EnumU16Codec\<close>\<close>

text \<open>
  \<open>m_forward\<close> is the list of its entries in iteration order; \<open>emplace\<close> keeps the first raw
  value of a name.
\<close>

record EnumCodec =
  enum_id :: qstring
  enum_forward :: "(u16 \<times> qstring) list"
  enum_reverse :: "(qstring \<times> u16) list"

definition emplaceReverse :: "u16 \<times> qstring \<Rightarrow> (qstring \<times> u16) list \<Rightarrow> (qstring \<times> u16) list" where
  "emplaceReverse rn known = (case rn of (raw, name) \<Rightarrow>
     if map_of known name = None then known @ [(name, raw)] else known)"

definition enumU16Codec :: "qstring \<Rightarrow> (u16 \<times> qstring) list \<Rightarrow> EnumCodec" where
  "enumU16Codec i forward =
     \<lparr>enum_id = i, enum_forward = forward, enum_reverse = fold emplaceReverse forward []\<rparr>"

definition enumDecode :: "EnumCodec \<Rightarrow> u16 list \<Rightarrow> PortRef \<Rightarrow> QVariant" where
  "enumDecode c raw ref =
     (if raw = [] \<or> ref_shift ref < 0 \<or> 15 < ref_shift ref then QInvalid
      else let masked = drop_bit (nat (ref_shift ref)) (qvalue raw 0) AND ucast (ref_mask ref)
           in case map_of (enum_forward c) masked of
                None \<Rightarrow> QText (qarg ''Unknown(%1)'' (show_nat (unat masked)))
              | Some name \<Rightarrow> QText name)"

definition enumEncode :: "QtVariant \<Rightarrow> EnumCodec \<Rightarrow> QVariant \<Rightarrow> PortRef \<Rightarrow> u16 list" where
  "enumEncode qt c value ref =
     (let input = (case map_of (enum_reverse c) (qt_toString qt value) of
                     Some raw \<Rightarrow> Some raw
                   | None \<Rightarrow> (case qt_toUInt qt value of None \<Rightarrow> None
                             | Some numeric \<Rightarrow> if 65535 < uint numeric then None else Some (ucast numeric)))
      in case input of None \<Rightarrow> []
         | Some raw \<Rightarrow>
           (if ref_shift ref < 0 \<or> 15 < ref_shift ref then []
            else if (ucast raw :: u64) AND NOT (ref_mask ref) \<noteq> 0 then []
            else let shifted = push_bit (nat (ref_shift ref)) ((ucast raw :: u64) AND ref_mask ref)
                 in if 0xFFFF < shifted then [] else [ucast shifted]))"

subsection \<open>The contract of a codec\<close>

text \<open>
  What clients of \<open>Codec\<close> rely on: a successful encoding has a fixed width, decoding looks at no
  more registers than that, and values that the port represents exactly survive the round trip.
\<close>

locale codec_contract =
  fixes encode :: "QVariant \<Rightarrow> PortRef \<Rightarrow> u16 list"
    and decode :: "u16 list \<Rightarrow> PortRef \<Rightarrow> QVariant"
    and exact :: "QVariant \<Rightarrow> PortRef \<Rightarrow> bool"
    and width :: nat
  assumes encode_width: "encode v ref \<noteq> [] \<Longrightarrow> length (encode v ref) = width"
    and decode_prefix: "width \<le> length raw \<Longrightarrow> decode (take width raw) ref = decode raw ref"
    and roundtrip: "exact v ref \<Longrightarrow> encode v ref \<noteq> [] \<Longrightarrow> decode (encode v ref) ref = v"
begin

lemma recovered_prefix:
  assumes "exact v ref" "encode v ref \<noteq> []" "take width raw = encode v ref"
  shows "decode raw ref = v"
proof -
  have "width \<le> length raw"
    using encode_width [OF assms(2)] assms(3) by (metis length_take min.cobounded1)
  then show ?thesis using decode_prefix roundtrip assms by metis
qed

lemma recovered_at:
  assumes "exact v ref" "encode v ref \<noteq> []" "mid img off width = encode v ref"
  shows "decode (drop off img) ref = v"
  using recovered_prefix [OF assms(1,2), of "drop off img"] assms(3) by (simp add: mid_def)

end

subsection \<open>The builtin codecs satisfy it\<close>

lemma scalarEncode_length:
  assumes "scalarEncode fpu qt t v ref \<noteq> []"
  shows "length (scalarEncode fpu qt t v ref) = registerCountFor t"
  using assms
  by (auto simp: scalarEncode_def placeInteger_def Let_def length_packInt split: if_splits option.splits prod.splits)

lemma registerCount_cases: "registerCountFor t = 0 \<or> registerCountFor t \<in> {1, 2, 4}"
  by (cases t) auto

lemma unpack_empty: "unpackInt raw 0 w = 0"
  by (simp add: unpackInt_def)

lemma scalarDecode_prefix:
  assumes "registerCountFor t \<le> length raw"
  shows "scalarDecode fpu t (take (registerCountFor t) raw) ref = scalarDecode fpu t raw ref"
proof (cases "registerCountFor t = 0")
  case True
  then show ?thesis by (cases t) (auto simp: scalarDecode_def Let_def)
next
  case False
  then have "registerCountFor t \<in> {1, 2, 4}" using registerCount_cases [of t] by simp
  moreover have "qvalue (take (registerCountFor t) raw) 0 = qvalue raw 0"
    using False by (auto simp: qvalue_def)
  ultimately show ?thesis
    using assms by (simp add: scalarDecode_def Let_def unpackInt_prefix min_absorb2)
qed

lemma fp_eq_one: "fp_eq d double_one \<Longrightarrow> d = double_one"
  by (auto simp: fp_eq_def double_one_def magnitude_def)

lemma magnitude_finite:
  assumes "magnitude d = 0" shows "isfinite d"
proof -
  have "drop_bit 52 d AND 0x7FF = take_bit 11 (drop_bit 52 d)"
    using take_bit_eq_mask [of 11 "drop_bit 52 d"] by (simp add: mask_eq_exp_minus_1)
  also have "\<dots> = drop_bit 52 (take_bit 63 d)"
    by (simp add: take_bit_drop_bit)
  also have "take_bit 63 d = magnitude d"
    using take_bit_eq_mask [of 63 d] by (simp add: magnitude_def mask_eq_exp_minus_1)
  finally show ?thesis using assms by (simp add: isfinite_def)
qed

lemma no_transform:
  assumes "\<not> hasLinearTransform ref"
  shows "isfinite (ref_scale ref)" "isfinite (ref_offset ref)" "\<not> fp_eq (ref_scale ref) 0"
proof -
  have "ref_scale ref = double_one" "fp_eq (ref_offset ref) 0"
    using assms fp_eq_one by (auto simp: hasLinearTransform_def)
  moreover have "isfinite double_one" "\<not> fp_eq double_one 0" by code_simp+
  ultimately show "isfinite (ref_scale ref)" "\<not> fp_eq (ref_scale ref) 0" "isfinite (ref_offset ref)"
    by (auto simp: fp_eq_def intro: magnitude_finite) (auto simp: magnitude_def intro!: magnitude_finite)
qed

text \<open>The 64-bit pattern of an integer variant of the type the codec reads.\<close>

definition integerValue :: "ScalarType \<Rightarrow> QVariant \<Rightarrow> u64 option" where
  "integerValue t v =
     (case v of
        QU16 w \<Rightarrow> if t = U16 \<or> t = EnumU16 then Some (ucast w) else None
      | QU32 w \<Rightarrow> if t = U32 then Some (ucast w) else None
      | QU64 w \<Rightarrow> if t = U64 then Some w else None
      | QS16 w \<Rightarrow> if t = S16 then Some (scast w) else None
      | QS32 w \<Rightarrow> if t = S32 then Some (scast w) else None
      | QS64 w \<Rightarrow> if t = S64 then Some w else None
      | _ \<Rightarrow> None)"

text \<open>
  Values a port represents exactly.  No linear transform; \<open>QVariant\<close> converts the value to the
  number it holds; a negative number needs a mask that covers the registers.
\<close>

definition exactInteger :: "QtVariant \<Rightarrow> ScalarType \<Rightarrow> QVariant \<Rightarrow> PortRef \<Rightarrow> bool" where
  "exactInteger qt t v ref =
     (case integerValue t v of None \<Rightarrow> False
      | Some r \<Rightarrow> \<not> hasLinearTransform ref
          \<and> (if isSignedType t then qt_toLongLong qt v = Some r else qt_toULongLong qt v = Some r)
          \<and> (isSignedType t \<and> sint r < 0 \<longrightarrow> outputLimit (registerCountFor t) AND NOT (ref_mask ref) = 0))"

definition exactScalar :: "QtVariant \<Rightarrow> ScalarType \<Rightarrow> QVariant \<Rightarrow> PortRef \<Rightarrow> bool" where
  "exactScalar qt t v ref =
     (case v of
        QBool b \<Rightarrow> t = Bool \<and> qt_toBool qt v = b
      | QDouble d \<Rightarrow> t = F64 \<and> qt_toDouble qt v = Some d \<and> \<not> hasLinearTransform ref
      | _ \<Rightarrow> exactInteger qt t v ref)"

lemma integerVariant_value:
  assumes "integerValue t v = Some r" "\<not> hasLinearTransform ref"
  shows "integerVariant fpu t ref (r AND outputLimit (registerCountFor t)) = v"
  using assms
  by (cases v)
    (auto simp: integerValue_def outputLimit_def bit_simps mask_numerals intro!: bit_word_eqI dest: bit_widthD
      split: if_splits)

lemma placeInteger_roundtrip:
  assumes rc: "rc \<in> {1, 2, 4}" and shift: "0 \<le> ref_shift ref" "ref_shift ref < 64"
    and neg: "negative \<Longrightarrow> outputLimit rc AND NOT (ref_mask ref) = 0"
    and placed: "placeInteger rc ref raw negative \<noteq> []"
  shows "drop_bit (nat (ref_shift ref)) (unpackInt (placeInteger rc ref raw negative) rc (ref_wordOrder ref))
      AND ref_mask ref = raw AND outputLimit rc"
proof -
  define n where "n = nat (ref_shift ref)"
  define m where "m = raw AND outputLimit rc AND ref_mask ref"
  have n: "n < 64" using shift by (simp add: n_def)
  have out: "placeInteger rc ref raw negative = packInt (push_bit n m) rc (ref_wordOrder ref)"
    and guard: "\<not> drop_bit n (outputLimit rc) < m" "negative \<or> raw AND NOT (ref_mask ref) = 0"
    using placed by (auto simp: placeInteger_def Let_def n_def m_def split: if_splits)
  have bits: "bit (outputLimit rc) k \<longleftrightarrow> k < 16 * rc \<and> k < 64" for k
    using outputLimit_mask [OF rc] by (simp add: bit_mask_iff conj_commute)
  have covered: "bit raw k \<Longrightarrow> k < 16 * rc \<Longrightarrow> k < 64 \<Longrightarrow> bit (ref_mask ref) k" for k
  proof (rule ccontr)
    assume k: "bit raw k" "k < 16 * rc" "k < 64" "\<not> bit (ref_mask ref) k"
    then have "bit (raw AND NOT (ref_mask ref)) k" "bit (outputLimit rc AND NOT (ref_mask ref)) k"
      using bits [of k] by (simp_all add: bit_simps)
    then show False using guard(2) neg by auto
  qed
  have w: "16 * rc \<le> 64" using rc by auto
  have "drop_bit n (outputLimit rc) = mask (16 * rc - n)"
  proof (rule bit_word_eqI)
    fix k assume "k < LENGTH(64)"
    then show "bit (drop_bit n (outputLimit rc)) k = bit (mask (16 * rc - n) :: u64) k"
      using w bits [of "n + k"] by (auto simp: bit_drop_bit_eq bit_mask_iff)
  qed
  then have small: "bit m k \<Longrightarrow> k < 16 * rc - n" for k
    using guard(1) le_mask_bits [of m "16 * rc - n" k] by (simp add: not_less)
  have "drop_bit n (push_bit n m AND outputLimit rc) AND ref_mask ref = raw AND outputLimit rc"
  proof (rule bit_word_eqI)
    fix k assume k: "k < LENGTH(64)"
    have "bit (drop_bit n (push_bit n m AND outputLimit rc) AND ref_mask ref) k
        \<longleftrightarrow> bit m k \<and> n + k < 16 * rc \<and> n + k < 64 \<and> bit (ref_mask ref) k"
      using bits [of "n + k"] by (auto simp: bit_simps)
    also have "\<dots> \<longleftrightarrow> bit m k"
      using small [of k] w by (auto simp: m_def bit_and_iff)
    also have "\<dots> \<longleftrightarrow> bit (raw AND outputLimit rc) k"
      using covered [of k] bits [of k] by (auto simp: m_def bit_and_iff)
    finally show "bit (drop_bit n (push_bit n m AND outputLimit rc) AND ref_mask ref) k
        = bit (raw AND outputLimit rc) k" .
  qed
  then show ?thesis by (simp add: out unpack_packInt [OF rc] n_def)
qed

lemma integer_input_exact:
  assumes "exactInteger qt t v ref" "integerValue t v = Some r" "integerInput fpu qt t v ref = Some (raw, negative)"
  shows "raw = r" "negative \<longleftrightarrow> isSignedType t \<and> sint r < 0"
  using assms by (auto simp: exactInteger_def integerInput_def split: if_splits)

lemma integerValue_type: "integerValue t v = Some r \<Longrightarrow> registerCountFor t \<in> {1, 2, 4} \<and> t \<notin> {Bool, F32, F64}"
  by (cases v) (auto simp: integerValue_def split: if_splits)

lemma scalar_integer_roundtrip:
  assumes exact: "exactInteger qt t v ref" and enc: "scalarEncode fpu qt t v ref \<noteq> []"
  shows "scalarDecode fpu t (scalarEncode fpu qt t v ref) ref = v"
proof -
  obtain r where r: "integerValue t v = Some r"
    using exact by (auto simp: exactInteger_def split: option.splits)
  note ty = integerValue_type [OF r]
  have lin: "\<not> hasLinearTransform ref"
    and mask: "isSignedType t \<and> sint r < 0 \<Longrightarrow> outputLimit (registerCountFor t) AND NOT (ref_mask ref) = 0"
    using exact r by (auto simp: exactInteger_def)
  obtain raw negative where inp: "integerInput fpu qt t v ref = Some (raw, negative)"
    and shift: "0 \<le> ref_shift ref" "ref_shift ref < 64"
    and out: "scalarEncode fpu qt t v ref = placeInteger (registerCountFor t) ref raw negative"
    using enc ty by (auto simp: scalarEncode_def Let_def split: if_splits option.splits prod.splits)
  note raw = integer_input_exact [OF exact r inp]
  let ?m = "drop_bit (nat (ref_shift ref)) (unpackInt (scalarEncode fpu qt t v ref) (registerCountFor t) (ref_wordOrder ref))
      AND ref_mask ref"
  have "?m = r AND outputLimit (registerCountFor t)"
    using placeInteger_roundtrip [OF conjunct1 [OF ty] shift, of negative raw] mask enc out raw by auto
  moreover have "length (scalarEncode fpu qt t v ref) = registerCountFor t"
    using scalarEncode_length [OF enc] .
  ultimately show ?thesis
    using shift ty no_transform [OF lin] integerVariant_value [OF r lin]
    by (simp add: scalarDecode_def Let_def)
qed

lemma scalar_bool_roundtrip:
  assumes "qt_toBool qt (QBool b) = b" "scalarEncode fpu qt Bool (QBool b) ref \<noteq> []"
  shows "scalarDecode fpu Bool (scalarEncode fpu qt Bool (QBool b) ref) ref = QBool b"
proof -
  define k where "k = nat (case ref_bit ref of None \<Rightarrow> 0 | Some b \<Rightarrow> b)"
  have k: "k < 16" "\<not> (case ref_bit ref of None \<Rightarrow> 0 | Some b \<Rightarrow> b) < 0"
      "\<not> 15 < (case ref_bit ref of None \<Rightarrow> 0 | Some b \<Rightarrow> b)"
    using assms(2) by (auto simp: scalarEncode_def Let_def k_def split: if_splits option.splits)
  have "bit (push_bit k 1 :: u16) k" using k(1) by (simp add: bit_simps)
  then have "drop_bit k (push_bit k 1 :: u16) AND 1 \<noteq> 0"
    by (simp only: bit_iff_odd_drop_bit and_one_eq odd_iff_mod_2_eq_one) simp
  then show ?thesis
    using assms(1) k(2,3) by (auto simp: scalarDecode_def scalarEncode_def Let_def qvalue_def k_def)
qed

lemma scalar_f64_roundtrip:
  assumes "qt_toDouble qt (QDouble d) = Some d" "\<not> hasLinearTransform ref"
    and "scalarEncode fpu qt F64 (QDouble d) ref \<noteq> []"
  shows "scalarDecode fpu F64 (scalarEncode fpu qt F64 (QDouble d) ref) ref = QDouble d"
  using assms
  by (auto simp: scalarDecode_def scalarEncode_def floatInput_def Let_def length_packInt unpack_packInt
      outputLimit_def split: if_splits)

interpretation scalar: codec_contract "scalarEncode fpu qt t" "scalarDecode fpu t" "exactScalar qt t"
    "registerCountFor t" for fpu qt t
proof unfold_locales
  fix v ref
  assume "exactScalar qt t v ref" "scalarEncode fpu qt t v ref \<noteq> []"
  then show "scalarDecode fpu t (scalarEncode fpu qt t v ref) ref = v"
    by (auto simp: exactScalar_def intro: scalar_integer_roundtrip scalar_bool_roundtrip scalar_f64_roundtrip
        split: QVariant.splits)
qed (auto intro: scalarEncode_length scalarDecode_prefix)

subsection \<open>The enumeration codec satisfies it\<close>

lemma emplace_fold:
  "map_of (fold emplaceReverse xs known) name
     = (case map_of known name of Some r \<Rightarrow> Some r | None \<Rightarrow> map_of (map prod.swap xs) name)"
  by (induction xs arbitrary: known)
    (auto simp: emplaceReverse_def map_add_def split: option.splits prod.splits)

lemma enum_reverse_forward:
  assumes "distinct (map fst fwd)" "map_of (enum_reverse (enumU16Codec i fwd)) name = Some raw"
  shows "map_of fwd raw = Some name"
proof -
  have "map_of (map prod.swap fwd) name = Some raw"
    using assms(2) by (simp add: enumU16Codec_def emplace_fold)
  then have "(raw, name) \<in> set fwd" by (auto dest!: map_of_SomeD)
  then show ?thesis using assms(1) by simp
qed

definition exactEnum :: "QtVariant \<Rightarrow> EnumCodec \<Rightarrow> QVariant \<Rightarrow> PortRef \<Rightarrow> bool" where
  "exactEnum qt c v ref =
     (case v of QText name \<Rightarrow> qt_toString qt v = name
        \<and> (\<exists>raw. map_of (enum_reverse c) name = Some raw) | _ \<Rightarrow> False)"

lemma enumEncode_length: "enumEncode qt c v ref \<noteq> [] \<Longrightarrow> length (enumEncode qt c v ref) = 1"
  by (auto simp: enumEncode_def Let_def split: option.splits if_splits)

lemma enum_place:
  assumes "n < 16" "(ucast (raw :: u16) :: u64) AND NOT mk = 0"
    "\<not> 0xFFFF < (push_bit n (ucast raw AND mk) :: u64)"
  shows "drop_bit n (ucast (push_bit n (ucast raw AND mk) :: u64) :: u16) AND ucast mk = raw"
proof (rule bit_word_eqI)
  fix k assume k: "k < LENGTH(16)"
  have cov: "bit raw k \<Longrightarrow> bit mk k"
    using arg_cong [OF assms(2), of "\<lambda>x. bit x k"] k by (auto simp: bit_simps)
  have "push_bit n (ucast raw AND mk) \<le> (mask 16 :: u64)"
    using assms(3) by (simp add: mask_eq_exp_minus_1 not_less)
  then have "bit (push_bit n (ucast raw AND mk) :: u64) (n + k) \<Longrightarrow> n + k < 16"
    by (rule le_mask_bits)
  then have "bit raw k \<Longrightarrow> n + k < 16"
    using cov k assms(1) by (auto simp: bit_simps)
  then show "bit (drop_bit n (ucast (push_bit n (ucast raw AND mk) :: u64) :: u16) AND ucast mk) k = bit raw k"
    using cov k assms(1) by (auto simp: bit_simps)
qed

lemma enum_roundtrip_aux:
  assumes "distinct (map fst fwd)" "exactEnum qt (enumU16Codec i fwd) v ref"
    and "enumEncode qt (enumU16Codec i fwd) v ref \<noteq> []"
  shows "enumDecode (enumU16Codec i fwd) (enumEncode qt (enumU16Codec i fwd) v ref) ref = v"
proof -
  let ?c = "enumU16Codec i fwd"
  obtain name raw where v: "v = QText name" "qt_toString qt v = name"
    and rev: "map_of (enum_reverse ?c) name = Some raw"
    using assms(2) by (auto simp: exactEnum_def split: QVariant.splits)
  define sh where "sh = push_bit (nat (ref_shift ref)) ((ucast raw :: u64) AND ref_mask ref)"
  have g: "\<not> ref_shift ref < 0" "\<not> 15 < ref_shift ref" "(ucast raw :: u64) AND NOT (ref_mask ref) = 0"
      "\<not> 0xFFFF < sh" and out: "enumEncode qt ?c v ref = [ucast sh]"
    using assms(3) v rev by (auto simp: enumEncode_def Let_def sh_def split: if_splits)
  have "drop_bit (nat (ref_shift ref)) (ucast sh :: u16) AND ucast (ref_mask ref) = raw"
    unfolding sh_def using g enum_place [of "nat (ref_shift ref)" raw "ref_mask ref"] by (simp add: sh_def)
  moreover have "map_of (enum_forward ?c) raw = Some name"
    using enum_reverse_forward [OF assms(1) rev] by (simp add: enumU16Codec_def)
  ultimately show ?thesis
    unfolding out using g(1,2) v(1) by (simp add: enumDecode_def qvalue_def Let_def)
qed

interpretation enum: codec_contract
    "enumEncode qt (enumU16Codec i fwd)" "enumDecode (enumU16Codec i fwd)"
    "\<lambda>v ref. distinct (map fst fwd) \<and> exactEnum qt (enumU16Codec i fwd) v ref" 1 for qt i fwd
proof unfold_locales
  fix raw :: "u16 list" and ref
  assume "1 \<le> length raw"
  then show "enumDecode (enumU16Codec i fwd) (take 1 raw) ref = enumDecode (enumU16Codec i fwd) raw ref"
    by (auto simp: enumDecode_def qvalue_def Let_def)
qed (blast intro: enumEncode_length enum_roundtrip_aux)+

subsection \<open>\<open>CodecRegistry\<close>\<close>

text \<open>A registered codec object; \<open>ExternalCodec\<close> stands for the scripted ones.\<close>

datatype Codec = ScalarCodec ScalarType | EnumerationCodec EnumCodec | ExternalCodec qstring

fun codecId :: "Codec \<Rightarrow> qstring" where
  "codecId (ScalarCodec t) = idFor t"
| "codecId (EnumerationCodec c) = enum_id c"
| "codecId (ExternalCodec i) = i"

text \<open>Virtual dispatch of \<open>decode\<close>; \<open>None\<close> is an exception of a scripted codec.\<close>

definition codecDecode :: "Fpu \<Rightarrow> (qstring \<Rightarrow> u16 list \<Rightarrow> PortRef \<Rightarrow> QVariant option)
    \<Rightarrow> Codec \<Rightarrow> u16 list \<Rightarrow> PortRef \<Rightarrow> QVariant option" where
  "codecDecode fpu script c raw ref =
     (case c of ScalarCodec t \<Rightarrow> Some (scalarDecode fpu t raw ref)
      | EnumerationCodec e \<Rightarrow> Some (enumDecode e raw ref)
      | ExternalCodec i \<Rightarrow> script i raw ref)"

type_synonym CodecRegistry = "qstring \<rightharpoonup> Codec"

definition registerCodec :: "Codec option \<Rightarrow> CodecRegistry \<Rightarrow> CodecRegistry" where
  "registerCodec codec reg = (case codec of None \<Rightarrow> reg | Some c \<Rightarrow> reg(codecId c \<mapsto> c))"

definition findCodec :: "CodecRegistry \<Rightarrow> qstring \<Rightarrow> Codec option" where
  "findCodec reg i = reg i"

definition kBuiltins :: "ScalarType list" where
  "kBuiltins = [Bool, U16, S16, U32, S32, F32, U64, S64, F64, EnumU16]"

definition loadBuiltins :: "CodecRegistry \<Rightarrow> CodecRegistry" where
  "loadBuiltins reg = fold (\<lambda>t. registerCodec (Some (ScalarCodec t))) kBuiltins reg"

lemma idFor_inj: "inj idFor"
proof (rule injI)
  fix s t assume "idFor s = idFor t"
  then show "s = t"
    by (cases s; cases t) (simp_all add: idFor_def to_lower_def char_to_lower_def)
qed

lemma loadBuiltins_find: "t \<noteq> String \<Longrightarrow> findCodec (loadBuiltins reg) (idFor t) = Some (ScalarCodec t)"
  using inj_eq [OF idFor_inj]
  by (cases t) (simp_all add: findCodec_def loadBuiltins_def kBuiltins_def registerCodec_def)

subsection \<open>Properties\<close>

text \<open>A concrete \<open>QVariant\<close> whose integer, boolean and text conversions are exact.\<close>

fun demoSigned :: "QVariant \<Rightarrow> u64 option" where
  "demoSigned (QS16 w) = Some (scast w)"
| "demoSigned (QS32 w) = Some (scast w)"
| "demoSigned (QS64 w) = Some w"
| "demoSigned (QU16 w) = Some (ucast w)"
| "demoSigned (QU32 w) = Some (ucast w)"
| "demoSigned _ = None"

fun demoText :: "QVariant \<Rightarrow> qstring" where
  "demoText (QText s) = s"
| "demoText _ = []"

definition demoQt :: QtVariant where
  "demoQt = \<lparr>qt_toBool = (\<lambda>v. v = QBool True), qt_toDouble = (\<lambda>v. case v of QDouble d \<Rightarrow> Some d | _ \<Rightarrow> None),
     qt_toLongLong = demoSigned, qt_toULongLong = demoSigned, qt_toUInt = (\<lambda>v. None), qt_toString = demoText,
     qt_equal = (=)\<rparr>"

definition demoFpu :: Fpu where
  "demoFpu = \<lparr>fp_add = (\<lambda>a b. a), fp_sub = (\<lambda>a b. a), fp_mul = (\<lambda>a b. a), fp_div = (\<lambda>a b. a), fp_round = (\<lambda>a. a),
     fp_of_int = (\<lambda>i. 0), fp_to_s64 = (\<lambda>d. 0), fp_to_u64 = (\<lambda>d. 0), fp_widen = (\<lambda>f. 0), fp_narrow = (\<lambda>d. 0)\<rparr>"

text \<open>Register packing and unpacking are inverse to each other for each of the four word
  orders and for one, two and four registers: unpacking what was packed gives the value reduced to
  the register width, and packing what was unpacked gives the registers back.\<close>

theorem word_order_roundtrip:
  assumes "rc \<in> {1, 2, 4}"
  shows "unpackInt (packInt v rc w) rc w = v AND outputLimit rc
     \<and> (rc \<le> length raw \<longrightarrow> packInt (unpackInt raw rc w) rc w = take rc raw)"
  using unpack_packInt [OF assms] pack_unpackInt [OF assms] by blast

theorem word_order_roundtrip_witness:
  "packInt 0x12345678 2 CDAB = [0x5678, 0x1234]
     \<and> packInt (unpackInt [0x5678, 0x1234, 7] 2 CDAB) 2 CDAB = [0x5678, 0x1234]"
proof -
  have "packInt 0x12345678 2 CDAB = [0x5678, 0x1234]" by code_simp
  then show ?thesis using word_order_roundtrip [of 2 0 CDAB "[0x5678, 0x1234, 7]"] by simp
qed

text \<open>C9: a scalar value the port represents exactly (a boolean, an integer of the codec's type
  without linear transform, a finite double) that is accepted by \<open>encode\<close> is recovered by
  \<open>decode\<close>, from any register image that starts with the encoded registers, whatever the word
  order, shift and mask.\<close>

theorem scalar_codec_roundtrip:
  assumes "exactScalar qt t v ref" "scalarEncode fpu qt t v ref \<noteq> []"
  shows "length (scalarEncode fpu qt t v ref) = registerCountFor t
     \<and> scalarDecode fpu t (scalarEncode fpu qt t v ref @ rest) ref = v"
  using scalar.encode_width [OF assms(2)] scalar.recovered_prefix [OF assms, of "scalarEncode fpu qt t v ref @ rest"]
  by simp

theorem scalar_codec_roundtrip_witness:
  "scalarEncode demoFpu demoQt S32 (QS32 (- 5)) (defaultPortRef\<lparr>ref_wordOrder := DCBA\<rparr>) = [0xFBFF, 0xFFFF]
     \<and> scalarDecode demoFpu S32 [0xFBFF, 0xFFFF, 9] (defaultPortRef\<lparr>ref_wordOrder := DCBA\<rparr>) = QS32 (- 5)"
proof -
  let ?ref = "defaultPortRef\<lparr>ref_wordOrder := DCBA\<rparr>"
  have e: "scalarEncode demoFpu demoQt S32 (QS32 (- 5)) ?ref = [0xFBFF, 0xFFFF]"
    and x: "exactScalar demoQt S32 (QS32 (- 5)) ?ref" by code_simp+
  then show ?thesis using scalar_codec_roundtrip [OF x, of demoFpu "[9]"] by simp
qed

text \<open>A negative number written through a mask narrower than the register is not rejected but
  silently truncated: with mask \<open>0x0FFF\<close> the S16 value -1 is accepted and decodes as 4095, while
  the positive number 4096, which does not fit either, is refused.\<close>

theorem masked_negative_truncated:
  "scalarDecode demoFpu S16 (scalarEncode demoFpu demoQt S16 (QS16 (- 1)) (defaultPortRef\<lparr>ref_mask := 0x0FFF\<rparr>))
       (defaultPortRef\<lparr>ref_mask := 0x0FFF\<rparr>) = QS16 4095
   \<and> scalarEncode demoFpu demoQt S16 (QS16 4096) (defaultPortRef\<lparr>ref_mask := 0x0FFF\<rparr>) = []"
  by code_simp

text \<open>A name the enumeration codec can write is the name it reads back, even when several raw
  values share it, and unknown raw values decode to a text instead of an invalid value.\<close>

theorem enum_codec_roundtrip:
  assumes "distinct (map fst fwd)" "(raw, name) \<in> set fwd" "qt_toString qt (QText name) = name"
    and "enumEncode qt (enumU16Codec i fwd) (QText name) ref \<noteq> []"
  shows "enumDecode (enumU16Codec i fwd) (enumEncode qt (enumU16Codec i fwd) (QText name) ref) ref = QText name"
proof -
  have "map_of (enum_reverse (enumU16Codec i fwd)) name \<noteq> None"
  proof -
    have "name \<in> fst ` set (map prod.swap fwd)" using assms(2) by (force simp: image_iff)
    then show ?thesis by (simp add: enumU16Codec_def emplace_fold map_of_eq_None_iff)
  qed
  then have "exactEnum qt (enumU16Codec i fwd) (QText name) ref"
    using assms(3) by (auto simp: exactEnum_def)
  then show ?thesis using enum.roundtrip assms(1,4) by blast
qed

theorem enum_codec_roundtrip_witness:
  "enumDecode (enumU16Codec ''e'' [(1, ''on''), (2, ''on''), (0, ''off'')])
     (enumEncode demoQt (enumU16Codec ''e'' [(1, ''on''), (2, ''on''), (0, ''off'')]) (QText ''on'')
        (defaultPortRef\<lparr>ref_shift := 4, ref_mask := 3\<rparr>)) (defaultPortRef\<lparr>ref_shift := 4, ref_mask := 3\<rparr>) = QText ''on''"
proof -
  let ?f = "[(1, ''on''), (2, ''on''), (0, ''off'')] :: (u16 \<times> qstring) list"
  let ?r = "defaultPortRef\<lparr>ref_shift := 4, ref_mask := 3\<rparr>"
  have e: "enumEncode demoQt (enumU16Codec ''e'' ?f) (QText ''on'') ?r \<noteq> []" by code_simp
  show ?thesis using enum_codec_roundtrip [of ?f 2 "''on''" demoQt, OF _ _ _ e] by (simp add: demoQt_def)
qed

end
