(* ===== verification/Transport_Types.thy ===== *)
theory Transport_Types
  imports Codecs Scheduler
begin

text \<open>
  Requests and results exchanged with a transport
  (\<open>include/core/transport/TransportTypes.h\<close>).  A transport itself (sockets, serial ports,
  protocol stacks) is an environment: its results are arguments of the operations that use it.
\<close>

record ReadRequest =
  rd_table :: RegisterType
  rd_startAddress :: int
  rd_count :: int

record WriteBatch =
  wr_table :: RegisterType
  wr_startAddress :: int
  wr_values :: "u16 list"

record ReadResult =
  rr_ok :: bool
  rr_values :: "u16 list"
  rr_startAddress :: int
  rr_errorMessage :: qstring

record WriteResult =
  wres_ok :: bool
  wres_errorMessage :: qstring

datatype ConnectionState = Disconnected | Connecting | Connected | ConnError

datatype TransportKind = ModbusTcpClient | ModbusTcpServer | ModbusRtu | OpcUaClient | MqttClient
  | MqttPahoClient | S7Client

record EndpointInfo =
  ep_address :: qstring
  ep_port :: u16

record TransportStatus =
  ts_transportId :: qstring
  ts_kind :: TransportKind
  ts_state :: ConnectionState
  ts_localEndpoint :: EndpointInfo
  ts_remoteEndpoint :: EndpointInfo
  ts_errorMessage :: qstring
  ts_changedAt :: int
  ts_revision :: u64

record PeerSession =
  ps_transportId :: qstring
  ps_sessionId :: qstring
  ps_localEndpoint :: EndpointInfo
  ps_remoteEndpoint :: EndpointInfo
  ps_connectedAt :: int

subsection \<open>The status tracker\<close>

text \<open>
  \<open>TransportStatusTracker\<close> (\<open>src/TransportStatusTracker.h\<close>): \<open>update\<close> gives the pair of statuses it
  publishes when it changed anything.
\<close>

definition statusTracker :: "int \<Rightarrow> qstring \<Rightarrow> TransportKind \<Rightarrow> EndpointInfo \<Rightarrow> EndpointInfo \<Rightarrow> TransportStatus" where
  "statusTracker now i kind local remote = \<lparr>ts_transportId = i, ts_kind = kind, ts_state = Disconnected, ts_localEndpoint = local,
     ts_remoteEndpoint = remote, ts_errorMessage = [], ts_changedAt = now, ts_revision = 0\<rparr>"

definition updateStatus :: "int \<Rightarrow> ConnectionState \<Rightarrow> qstring \<Rightarrow> TransportStatus \<Rightarrow> (TransportStatus \<times> TransportStatus) option \<times> TransportStatus" where
  "updateStatus now state msg st =
     (if ts_state st = state \<and> ts_errorMessage st = msg then (None, st)
      else let st' = st\<lparr>ts_state := state, ts_errorMessage := msg, ts_changedAt := now, ts_revision := ts_revision st + 1\<rparr>
           in (Some (st, st'), st'))"

end
