(* ===== verification/Sink_Window.thy ===== *)
theory Sink_Window
  imports Transport_Types
begin

text \<open>
  The batched write target \<open>SinkWindow\<close> (\<open>src/SinkWindow.cpp\<close>): staging into a register
  snapshot, the flush decision, and the asynchronous flush with its generation guard.  The last
  part is the interleaving of staging threads with a flush in flight.
\<close>

subsection \<open>State and operations\<close>

record SinkConfig =
  swc_moduleId :: qstring
  swc_table :: RegisterType
  swc_startAddress :: int
  swc_size :: int
  swc_priority :: Priority
  swc_debounceMs :: int
  swc_keepAlivePeriodMs :: int
  swc_initial :: "u16 list"

record SinkWindow =
  sw_cfg :: SinkConfig
  sw_snapshot :: "u16 list"
  sw_dirty :: bool
  sw_forceFlush :: bool
  sw_started :: bool
  sw_generation :: u64
  sw_dirtyAt :: time_ns
  sw_lastFlushAt :: time_ns
  sw_inFlight :: bool

definition sinkWindow :: "SinkConfig \<Rightarrow> SinkWindow" where
  "sinkWindow c =
     (let populate = min (length (swc_initial c)) (nat (swc_size c))
      in \<lparr>sw_cfg = c,
          sw_snapshot = take populate (swc_initial c) @ replicate (nat (swc_size c) - populate) 0,
          sw_dirty = False, sw_forceFlush = False, sw_started = False, sw_generation = 0,
          sw_dirtyAt = 0, sw_lastFlushAt = 0, sw_inFlight = False\<rparr>)"

definition sinkTickPeriodMs :: "SinkWindow \<Rightarrow> int" where
  "sinkTickPeriodMs w =
     (let d = max 10 (swc_debounceMs (sw_cfg w)); k = swc_keepAlivePeriodMs (sw_cfg w)
      in if 0 < k \<and> k < d then max 10 k else d)"

definition stageRegister :: "time_ns \<Rightarrow> int \<Rightarrow> u16 \<Rightarrow> u16 \<Rightarrow> SinkWindow \<Rightarrow> bool \<times> SinkWindow" where
  "stageRegister now absAddress value msk w =
     (let idx = absAddress - swc_startAddress (sw_cfg w)
      in if idx < 0 \<or> swc_size (sw_cfg w) \<le> idx then (False, w)
         else let cur = sw_snapshot w ! nat idx;
                  nxt = (cur AND NOT msk) OR (value AND msk)
              in if nxt = cur then (False, w)
                 else (True, w\<lparr>sw_snapshot := (sw_snapshot w)[nat idx := nxt],
                               sw_generation := sw_generation w + 1,
                               sw_dirtyAt := (if sw_dirty w then sw_dirtyAt w else now),
                               sw_dirty := True\<rparr>))"

definition forceFlush :: "SinkWindow \<Rightarrow> SinkWindow" where
  "forceFlush w = w\<lparr>sw_forceFlush := True, sw_generation := sw_generation w + 1\<rparr>"

definition decideFlush :: "time_ns \<Rightarrow> SinkWindow \<Rightarrow> (u16 list \<times> qstring \<times> u64) option" where
  "decideFlush now w =
     (let reason = (if sw_forceFlush w then Some ''force''
                    else if sw_dirty w \<and> swc_debounceMs (sw_cfg w) \<le> duration_ms (now - sw_dirtyAt w)
                    then Some ''debounce'' else None);
          reason = (if reason = None \<and> 0 < swc_keepAlivePeriodMs (sw_cfg w)
                       \<and> swc_keepAlivePeriodMs (sw_cfg w) \<le> duration_ms (now - sw_lastFlushAt w)
                    then Some ''keepalive'' else reason)
      in case reason of None \<Rightarrow> None | Some r \<Rightarrow> Some (sw_snapshot w, r, sw_generation w))"

definition markFlushed :: "time_ns \<Rightarrow> bool \<Rightarrow> u64 \<Rightarrow> SinkWindow \<Rightarrow> SinkWindow" where
  "markFlushed now ok gen w =
     (if \<not> ok then w
      else if sw_generation w \<noteq> gen then w
      else w\<lparr>sw_dirty := False, sw_forceFlush := False, sw_lastFlushAt := now\<rparr>)"

definition sinkBatch :: "SinkWindow \<Rightarrow> u16 list \<Rightarrow> WriteBatch" where
  "sinkBatch w values = \<lparr>wr_table = swc_table (sw_cfg w), wr_startAddress = swc_startAddress (sw_cfg w),
     wr_values = values\<rparr>"

definition sinkTag :: "SinkWindow \<Rightarrow> RequestTag" where
  "sinkTag w = \<lparr>tag_moduleId = swc_moduleId (sw_cfg w), tag_priority = swc_priority (sw_cfg w),
     tag_interruptable = False\<rparr>"

text \<open>
  \<open>onTick\<close>: \<open>submit\<close> is the scheduler's answer to the tag, \<open>write\<close> the transport's answer to the
  batch (used only when the work ran), \<open>t1\<close> the clock at \<open>markFlushed\<close>.
\<close>

definition onTick :: "time_ns \<Rightarrow> time_ns \<Rightarrow> (RequestTag \<Rightarrow> SubmitResult) \<Rightarrow> (WriteBatch \<Rightarrow> WriteResult)
    \<Rightarrow> SinkWindow \<Rightarrow> SubmitResult \<times> SinkWindow" where
  "onTick now t1 submit write w =
     (if \<not> sw_started w then (rejectWith ResultKind.Cancelled ''module not started'', w)
      else case decideFlush now w of
        None \<Rightarrow> (\<lparr>res_kind = ResultKind.Ok, res_errorMessage = ''no flush due'', res_latencyMs = 0\<rparr>, w)
      | Some (values, reason, gen) \<Rightarrow>
          (let submission = submit (sinkTag w)
           in if res_kind submission \<noteq> ResultKind.Ok then (submission, w)
              else let r = write (sinkBatch w values);
                       w = markFlushed t1 (wres_ok r) gen w
                   in (submission\<lparr>res_kind := (if wres_ok r then res_kind submission else ResultKind.Error),
                                  res_errorMessage := reason @ (if wres_ok r then []
                                                       else '': '' @ wres_errorMessage r)\<rparr>, w)))"

text \<open>
  \<open>driveTick\<close>: the flush handed to \<open>submitAsync\<close>, if any, with the generation its completion
  closure captured; \<open>accepted\<close> is whether the scheduler took it.
\<close>

definition sinkDriveTick :: "time_ns \<Rightarrow> bool \<Rightarrow> SinkWindow \<Rightarrow> (WriteBatch \<times> u64) option \<times> SinkWindow" where
  "sinkDriveTick now accepted w =
     (if \<not> sw_started w then (None, w)
      else if sw_inFlight w then (None, w)
      else case decideFlush now w of
        None \<Rightarrow> (None, w\<lparr>sw_inFlight := False\<rparr>)
      | Some (values, reason, gen) \<Rightarrow>
          (if accepted then (Some (sinkBatch w values, gen), w\<lparr>sw_inFlight := True\<rparr>)
           else (None, w\<lparr>sw_inFlight := False\<rparr>)))"

definition sinkWriteDone :: "time_ns \<Rightarrow> bool \<Rightarrow> u64 \<Rightarrow> SinkWindow \<Rightarrow> SinkWindow" where
  "sinkWriteDone now ok gen w = (markFlushed now ok gen w)\<lparr>sw_inFlight := False\<rparr>"

definition sinkStart :: "time_ns \<Rightarrow> SinkWindow \<Rightarrow> SinkWindow" where
  "sinkStart now w = w\<lparr>sw_started := True, sw_lastFlushAt := now\<rparr>"

definition sinkStop :: "SinkWindow \<Rightarrow> SinkWindow" where
  "sinkStop w = w\<lparr>sw_started := False\<rparr>"

subsection \<open>Staging\<close>

lemma length_sinkWindow: "length (sw_snapshot (sinkWindow c)) = nat (swc_size c)"
  by (simp add: sinkWindow_def Let_def)

lemma stageRegister_fields:
  assumes "stageRegister now a v m w = (r, w')"
  shows "sw_cfg w' = sw_cfg w" "length (sw_snapshot w') = length (sw_snapshot w)"
    "sw_started w' = sw_started w" "sw_inFlight w' = sw_inFlight w" "sw_forceFlush w' = sw_forceFlush w"
    "\<not> r \<Longrightarrow> w' = w" "r \<Longrightarrow> sw_dirty w' \<and> sw_generation w' = sw_generation w + 1"
  using assms by (auto simp: stageRegister_def Let_def split: if_splits)

lemma masked_same_iff: "((cur AND NOT m) OR (v AND m) = cur) \<longleftrightarrow> v AND m = cur AND (m :: u16)"
  by (simp add: bit_eq_iff bit_simps; blast)

subsection \<open>Staging threads and one flush in flight\<close>

text \<open>
  \<open>flight\<close> is the image and generation the pending completion closure holds, \<open>acked\<close> the image
  of the last write the transport acknowledged (at first the initial image), \<open>changes\<close> the number
  of generation increments, unbounded where the program's counter has 64 bits.
\<close>

record SinkSystem =
  win :: SinkWindow
  flight :: "(u16 list \<times> u64) option"
  acked :: "u16 list"
  changes :: nat

datatype SinkEvent =
    StageEv time_ns int u16 u16
  | ForceEv
  | TickEv time_ns bool
  | WriteDoneEv time_ns bool
  | StartEv time_ns
  | StopEv

definition startSink :: "SinkConfig \<Rightarrow> SinkSystem" where
  "startSink c = \<lparr>win = sinkWindow c, flight = None, acked = sw_snapshot (sinkWindow c), changes = 0\<rparr>"

fun sinkEvent :: "SinkEvent \<Rightarrow> SinkSystem \<Rightarrow> SinkSystem option" where
  "sinkEvent (StageEv now a v m) x =
     (case stageRegister now a v m (win x) of
        (r, w) \<Rightarrow> Some (x\<lparr>win := w, changes := changes x + (if r then 1 else 0)\<rparr>))"
| "sinkEvent ForceEv x = Some (x\<lparr>win := forceFlush (win x), changes := changes x + 1\<rparr>)"
| "sinkEvent (TickEv now accepted) x =
     (case sinkDriveTick now accepted (win x) of
        (None, w) \<Rightarrow> Some (x\<lparr>win := w\<rparr>)
      | (Some (batch, gen), w) \<Rightarrow> Some (x\<lparr>win := w, flight := Some (wr_values batch, gen)\<rparr>))"
| "sinkEvent (WriteDoneEv now ok) x =
     (case flight x of None \<Rightarrow> None
      | Some (values, gen) \<Rightarrow>
          Some (x\<lparr>win := sinkWriteDone now ok gen (win x), flight := None,
                  acked := (if ok then values else acked x)\<rparr>))"
| "sinkEvent (StartEv now) x = Some (x\<lparr>win := sinkStart now (win x)\<rparr>)"
| "sinkEvent StopEv x = Some (x\<lparr>win := sinkStop (win x)\<rparr>)"

inductive sinkStep :: "SinkSystem \<Rightarrow> SinkSystem \<Rightarrow> bool" where
  "sinkEvent ev x = Some y \<Longrightarrow> sinkStep x y"

text \<open>The generation was taken at change \<open>c\<close>; if nothing changed since, the image is current.\<close>

definition freshAt :: "nat \<Rightarrow> u16 list \<Rightarrow> u64 \<Rightarrow> u16 list \<Rightarrow> bool" where
  "freshAt n vals gen snap \<longleftrightarrow> (\<exists>c \<le> n. gen = of_nat c \<and> (c = n \<longrightarrow> vals = snap))"

lemma freshAt_Suc: "freshAt n vals gen snap \<Longrightarrow> freshAt (Suc n) vals gen snap'"
  by (auto simp: freshAt_def intro: le_SucI)

lemma freshAt_now: "freshAt n snap (of_nat n) snap"
  by (auto simp: freshAt_def)

definition flight_ok :: "SinkSystem \<Rightarrow> bool" where
  "flight_ok x \<longleftrightarrow>
     (case flight x of None \<Rightarrow> \<not> sw_inFlight (win x)
      | Some (values, gen) \<Rightarrow> sw_inFlight (win x)
          \<and> (values \<noteq> sw_snapshot (win x) \<longrightarrow> sw_dirty (win x))
          \<and> freshAt (changes x) values gen (sw_snapshot (win x)))"

definition sink_inv :: "SinkSystem \<Rightarrow> bool" where
  "sink_inv x \<longleftrightarrow> length (sw_snapshot (win x)) = nat (swc_size (sw_cfg (win x)))
     \<and> sw_generation (win x) = of_nat (changes x) \<and> flight_ok x
     \<and> (changes x < 2 ^ 64 \<and> \<not> sw_dirty (win x) \<longrightarrow> sw_snapshot (win x) = acked x)"

lemma startSink_inv: "sink_inv (startSink c)"
  by (simp add: sink_inv_def flight_ok_def startSink_def sinkWindow_def Let_def)

lemma stage_inv:
  assumes "sink_inv x" "stageRegister now a v m (win x) = (r, w)"
  shows "sink_inv (x\<lparr>win := w, changes := changes x + (if r then 1 else 0)\<rparr>)"
proof (cases r)
  case True
  note f = stageRegister_fields [OF assms(2)]
  have "flight_ok (x\<lparr>win := w, changes := changes x + 1\<rparr>)"
    using assms(1) f True by (auto simp: sink_inv_def flight_ok_def intro: freshAt_Suc split: option.splits)
  then show ?thesis
    using assms(1) f True by (simp add: sink_inv_def)
next
  case False
  then show ?thesis using assms(1) stageRegister_fields(6) [OF assms(2)] by simp
qed

lemma force_inv:
  assumes "sink_inv x"
  shows "sink_inv (x\<lparr>win := forceFlush (win x), changes := changes x + 1\<rparr>)"
proof -
  have "flight_ok (x\<lparr>win := forceFlush (win x), changes := changes x + 1\<rparr>)"
    using assms by (auto simp: sink_inv_def flight_ok_def forceFlush_def intro: freshAt_Suc split: option.splits)
  then show ?thesis using assms by (simp add: sink_inv_def forceFlush_def)
qed

lemma tick_cases:
  assumes "sinkDriveTick now accepted w = (out, w')"
  obtains "out = None" "w' = w" | "out = None" "\<not> sw_inFlight w" "w' = w\<lparr>sw_inFlight := False\<rparr>"
  | vals reason gen where "\<not> sw_inFlight w" "decideFlush now w = Some (vals, reason, gen)"
      "out = Some (sinkBatch w vals, gen)" "w' = w\<lparr>sw_inFlight := True\<rparr>"
proof (cases "\<not> sw_started w \<or> sw_inFlight w")
  case True
  then show ?thesis using assms that(1) by (auto simp: sinkDriveTick_def split: if_splits)
next
  case False
  then show ?thesis
    using assms that(2,3) by (cases "decideFlush now w") (auto simp: sinkDriveTick_def split: if_splits)
qed

lemma decideFlush_image:
  "decideFlush now w = Some (vals, reason, gen) \<Longrightarrow> vals = sw_snapshot w \<and> gen = sw_generation w"
  by (auto simp: decideFlush_def Let_def split: option.splits if_splits)

lemma tick_inv:
  assumes "sink_inv x" "sinkEvent (TickEv now accepted) x = Some y"
  shows "sink_inv y"
proof (cases rule: tick_cases [of now accepted "win x" "fst (sinkDriveTick now accepted (win x))"
      "snd (sinkDriveTick now accepted (win x))", OF prod.collapse [symmetric]])
  case (3 vals reason gen)
  then have y: "y = x\<lparr>win := (win x)\<lparr>sw_inFlight := True\<rparr>, flight := Some (vals, gen)\<rparr>"
    using assms(2) by (cases "sinkDriveTick now accepted (win x)") (auto simp: sinkBatch_def)
  have "vals = sw_snapshot (win x)" "gen = of_nat (changes x)"
    using decideFlush_image [OF 3(2)] assms(1) by (auto simp: sink_inv_def)
  then show ?thesis using assms(1) y by (auto simp: sink_inv_def flight_ok_def freshAt_now)
qed (use assms in \<open>cases "sinkDriveTick now accepted (win x)";
    auto simp: sink_inv_def flight_ok_def split: option.splits\<close>)+

lemma markFlushed_unchanged [simp]:
  "sw_snapshot (markFlushed now ok gen w) = sw_snapshot w" "sw_cfg (markFlushed now ok gen w) = sw_cfg w"
  "sw_generation (markFlushed now ok gen w) = sw_generation w"
  by (auto simp: markFlushed_def)


lemma writeDone_inv:
  assumes inv: "sink_inv x" and fl: "flight x = Some (vals, gen)"
  shows "sink_inv (x\<lparr>win := sinkWriteDone now ok gen (win x), flight := None,
      acked := (if ok then vals else acked x)\<rparr>)"
proof -
  have g: "sw_generation (win x) = of_nat (changes x)"
      "vals \<noteq> sw_snapshot (win x) \<longrightarrow> sw_dirty (win x)" "freshAt (changes x) vals gen (sw_snapshot (win x))"
    using inv fl by (auto simp: sink_inv_def flight_ok_def)
  have cur: "vals = sw_snapshot (win x)" if "changes x < 2 ^ 64" "sw_generation (win x) = gen"
  proof -
    obtain c where c: "c \<le> changes x" "gen = of_nat c" "c = changes x \<longrightarrow> vals = sw_snapshot (win x)"
      using g(3) by (auto simp: freshAt_def)
    have "c < 2 ^ 64" using c(1) that(1) by (rule le_less_trans)
    then have "changes x = c" using of_nat_u64_inj [OF that(1)] that(2) g(1) c(2) by metis
    then show ?thesis using c(3) by simp
  qed
  show ?thesis
  proof (cases "ok \<and> sw_generation (win x) = gen")
    case True
    then show ?thesis
      using inv cur by (auto simp: sink_inv_def flight_ok_def sinkWriteDone_def markFlushed_def simp del: power_numeral)
  next
    case False
    then have "markFlushed now ok gen (win x) = win x" by (auto simp: markFlushed_def)
    then show ?thesis
      using inv g(2) by (auto simp: sink_inv_def flight_ok_def sinkWriteDone_def simp del: power_numeral)
  qed
qed

lemma sinkStep_inv:
  assumes "sink_inv x" "sinkStep x y"
  shows "sink_inv y"
  using assms(2)
proof (cases rule: sinkStep.cases)
  case (1 ev)
  then show ?thesis
  proof (cases ev)
    case (StageEv now a v m)
    then show ?thesis using 1 stage_inv [OF assms(1), of now a v m]
      by (cases "stageRegister now a v m (win x)") simp
  next
    case ForceEv
    then show ?thesis using 1 force_inv [OF assms(1)] by simp
  next
    case (TickEv now accepted)
    then show ?thesis using 1 tick_inv [OF assms(1)] by simp
  next
    case (WriteDoneEv now ok)
    then obtain vals gen where fl: "flight x = Some (vals, gen)" using 1 by (auto split: option.splits)
    show ?thesis using 1 WriteDoneEv fl writeDone_inv [OF assms(1) fl, where now = now and ok = ok] by simp
  next
    case (StartEv now)
    then show ?thesis using 1 assms(1)
      by (auto simp: sinkStart_def sink_inv_def flight_ok_def split: option.splits)
  next
    case StopEv
    then show ?thesis using 1 assms(1)
      by (auto simp: sinkStop_def sink_inv_def flight_ok_def split: option.splits)
  qed
qed

interpretation sink: transition_system "\<lambda>x. x = startSink c" sinkStep sink_inv for c
  by unfold_locales (auto intro: startSink_inv sinkStep_inv)

subsection \<open>Properties\<close>

fun sinkEvents :: "SinkEvent list \<Rightarrow> SinkSystem \<Rightarrow> SinkSystem option" where
  "sinkEvents [] x = Some x"
| "sinkEvents (ev # evs) x = (case sinkEvent ev x of None \<Rightarrow> None | Some y \<Rightarrow> sinkEvents evs y)"

lemma sinkEvents_reach:
  "reach (\<lambda>x. x = startSink c) sinkStep x \<Longrightarrow> sinkEvents evs x = Some y
     \<Longrightarrow> reach (\<lambda>x. x = startSink c) sinkStep y"
proof (induction evs arbitrary: x)
  case (Cons ev evs)
  from Cons.prems(2) obtain z where "sinkEvent ev x = Some z" "sinkEvents evs z = Some y"
    by (auto split: option.splits)
  with Cons.IH [of z] reach_step [OF Cons.prems(1) sinkStep.intros] show ?case by blast
qed simp

definition demoSinkConfig :: SinkConfig where
  "demoSinkConfig = \<lparr>swc_moduleId = ''sink'', swc_table = HoldingRegisters, swc_startAddress = 100, swc_size = 3,
     swc_priority = Priority_High, swc_debounceMs = 20, swc_keepAlivePeriodMs = 0, swc_initial = [7]\<rparr>"

text \<open>A register staged while the write of an older image is in flight, then a second flush.\<close>

definition demoSinkTrace :: "SinkEvent list" where
  "demoSinkTrace = [StartEv 1000, StageEv 2000 101 5 0xFFFF, TickEv 30000000 True, StageEv 31000000 102 9 0xFFFF,
     WriteDoneEv 32000000 True, TickEv 60000000 True, WriteDoneEv 61000000 True]"

definition demoSink :: SinkSystem where
  "demoSink = the (sinkEvents demoSinkTrace (startSink demoSinkConfig))"

lemma demoSink_reachable: "reach (\<lambda>x. x = startSink demoSinkConfig) sinkStep demoSink"
proof (rule sinkEvents_reach [of demoSinkConfig "startSink demoSinkConfig" demoSinkTrace])
  have "sinkEvents demoSinkTrace (startSink demoSinkConfig) \<noteq> None" by code_simp
  then show "sinkEvents demoSinkTrace (startSink demoSinkConfig) = Some demoSink" by (simp add: demoSink_def)
qed (simp add: reach_init)

text \<open>C10: no lost update.  However staging, forced flushes, ticks and write completions
  interleave, a window that reports itself clean holds exactly the image of the last write the
  transport acknowledged (for fewer than \<open>2^64\<close> changes, the range of the generation counter).
  An update staged while an older image is being written is therefore never forgotten.\<close>

theorem sink_no_lost_update:
  assumes "reach (\<lambda>x. x = startSink c) sinkStep x" "changes x < 2 ^ 64" "\<not> sw_dirty (win x)"
  shows "sw_snapshot (win x) = acked x"
  using sink.reach_inv [OF assms(1)] assms(2,3) unfolding sink_inv_def by blast

theorem sink_no_lost_update_witness:
  "changes demoSink = 2 \<and> \<not> sw_dirty (win demoSink) \<and> sw_snapshot (win demoSink) = acked demoSink
     \<and> acked demoSink = [7, 5, 9]"
proof -
  have d: "changes demoSink = 2" "\<not> sw_dirty (win demoSink)" "acked demoSink = [7, 5, 9]" by code_simp+
  then show ?thesis using sink_no_lost_update [OF demoSink_reachable] by simp
qed

text \<open>Staging.  Inside the window exactly the masked bits of one register are replaced, the
  result says whether they differed, a difference marks the window dirty and advances the
  generation; outside the window nothing changes.\<close>

theorem stage_register_effect:
  assumes "length (sw_snapshot w) = nat (swc_size (sw_cfg w))"
    and "i = a - swc_startAddress (sw_cfg w)" "stageRegister now a v m w = (r, w')"
  shows "if 0 \<le> i \<and> i < swc_size (sw_cfg w)
     then (r \<longleftrightarrow> v AND m \<noteq> sw_snapshot w ! nat i AND m)
        \<and> sw_snapshot w' = (sw_snapshot w)[nat i := (sw_snapshot w ! nat i AND NOT m) OR (v AND m)]
        \<and> sw_generation w' = sw_generation w + (if r then 1 else 0) \<and> (sw_dirty w' \<longleftrightarrow> r \<or> sw_dirty w)
     else \<not> r \<and> w' = w"
proof (cases "0 \<le> i \<and> i < swc_size (sw_cfg w)")
  case True
  let ?n = "(sw_snapshot w ! nat i AND NOT m) OR (v AND m)"
  have "nat i < length (sw_snapshot w)" using True assms(1) by simp
  then have "(sw_snapshot w)[nat i := ?n] = sw_snapshot w" if "?n = sw_snapshot w ! nat i"
    using that by (simp add: list_update_same_conv)
  then show ?thesis
    using True assms(2,3) masked_same_iff [of "sw_snapshot w ! nat i" m v]
    by (auto simp: stageRegister_def Let_def split: if_splits)
qed (use assms(2,3) in \<open>auto simp: stageRegister_def Let_def\<close>)

theorem stage_register_effect_witness:
  "sw_snapshot (snd (stageRegister 0 100 0x00FF 0x0F0F (sinkWindow demoSinkConfig))) = [0x000F, 0, 0]
     \<and> fst (stageRegister 0 100 0x00FF 0x0F0F (sinkWindow demoSinkConfig))"
proof -
  let ?w = "sinkWindow demoSinkConfig"
  have "length (sw_snapshot ?w) = nat (swc_size (sw_cfg ?w))" by code_simp
  moreover have "sw_snapshot ?w = [7, 0, 0]" "swc_startAddress (sw_cfg ?w) = 100" "swc_size (sw_cfg ?w) = 3"
    by code_simp+
  ultimately show ?thesis
    using stage_register_effect [of ?w 0 100 0 "0x00FF" "0x0F0F" "fst (stageRegister 0 100 0x00FF 0x0F0F ?w)"
        "snd (stageRegister 0 100 0x00FF 0x0F0F ?w)"] by simp
qed

text \<open>A flush cycle terminates the dirty state or keeps it.  When a started window is dirty for
  at least the debounce time and nothing is in flight, the tick submits the whole current snapshot;
  if the write succeeds and nothing was staged meanwhile the window is clean and idle again, and if
  it fails the window is still dirty, so that the next tick writes the same image again.\<close>

theorem sink_flush_cycle:
  assumes "sw_started w" "\<not> sw_inFlight w" "sw_dirty w" "0 \<le> swc_debounceMs (sw_cfg w)"
    and "milliseconds (swc_debounceMs (sw_cfg w)) \<le> now - sw_dirtyAt w"
    and "sinkDriveTick now True w = (out, w1)"
  shows "out = Some (sinkBatch w (sw_snapshot w), sw_generation w) \<and> sw_inFlight w1
     \<and> (let w2 = sinkWriteDone t1 True (sw_generation w) w1
        in \<not> sw_dirty w2 \<and> \<not> sw_forceFlush w2 \<and> \<not> sw_inFlight w2 \<and> sw_lastFlushAt w2 = t1)
     \<and> (let w2 = sinkWriteDone t1 False (sw_generation w) w1
        in sw_dirty w2 \<and> \<not> sw_inFlight w2 \<and> (\<forall>later \<ge> now. fst (sinkDriveTick later True w2) = out))"
proof -
  have dec: "\<exists>r. decideFlush later w = Some (sw_snapshot w, r, sw_generation w)" if "now \<le> later" for later
  proof -
    have "milliseconds (swc_debounceMs (sw_cfg w)) \<le> later - sw_dirtyAt w" using assms(5) that by linarith
    moreover have "0 \<le> milliseconds (swc_debounceMs (sw_cfg w))" using assms(4) by (simp add: milliseconds_def)
    ultimately have "swc_debounceMs (sw_cfg w) \<le> duration_ms (later - sw_dirtyAt w)"
      using duration_ms_ge_iff [OF assms(4)] by simp
    then show ?thesis using assms(3) by (auto simp: decideFlush_def Let_def)
  qed
  obtain r where r: "decideFlush now w = Some (sw_snapshot w, r, sw_generation w)"
    using dec [of now] by auto
  have w1: "out = Some (sinkBatch w (sw_snapshot w), sw_generation w)" "w1 = w\<lparr>sw_inFlight := True\<rparr>"
    using assms(1,2,6) r by (auto simp: sinkDriveTick_def)
  have w2: "sinkWriteDone t1 False (sw_generation w) w1 = w"
    using assms(2) w1(2) by (simp add: sinkWriteDone_def markFlushed_def)
  have "fst (sinkDriveTick later True w) = out" if "now \<le> later" for later
    using assms(1,2) dec [OF that] w1(1) by (auto simp: sinkDriveTick_def)
  then show ?thesis
    unfolding w2 using w1 assms(2,3) by (auto simp: sinkWriteDone_def markFlushed_def Let_def)
qed

theorem sink_flush_cycle_witness:
  "\<exists>w. sw_snapshot w = [7, 5, 0] \<and> sw_dirty w
     \<and> fst (sinkDriveTick 30000000 True w) = Some (sinkBatch w [7, 5, 0], sw_generation w)"
proof -
  define w where "w = snd (stageRegister 2000 101 5 0xFFFF (sinkStart 1000 (sinkWindow demoSinkConfig)))"
  have v: "sw_snapshot w = [7, 5, 0]" "sw_dirty w" "sw_started w" "\<not> sw_inFlight w"
      "swc_debounceMs (sw_cfg w) = 20" "sw_dirtyAt w = 2000"
    unfolding w_def by code_simp+
  then have "fst (sinkDriveTick 30000000 True w) = Some (sinkBatch w (sw_snapshot w), sw_generation w)"
    using sink_flush_cycle [of w 30000000 "fst (sinkDriveTick 30000000 True w)" "snd (sinkDriveTick 30000000 True w)"]
    by (simp add: milliseconds_def)
  with v(1,2) show ?thesis by (intro exI [of _ w]) simp
qed

end
