(* ===== verification/Datapoints.thy ===== *)
theory Datapoints
  imports Codecs
begin

text \<open>
  Datapoints and their registry: \<open>src/Datapoint.cpp\<close>, \<open>src/DatapointRegistry.cpp\<close>.  The
  signals a method emits are returned as a list; a writer callback is a handle, and
  \<open>writeDatapoint\<close> returns the call it makes.
\<close>

datatype Kind = Status | Command | Bidirectional
datatype DpState = DpOk | DpStale | DpError | DpMissing
datatype DpSignal = ValueChanged | StateChanged | TimestampChanged

record DatapointSpec =
  spec_id :: qstring
  spec_kind :: Kind
  spec_type :: ScalarType
  spec_source :: "PortRef option"
  spec_sink :: "PortRef option"
  spec_uiBinding :: qstring
  spec_persistTag :: qstring

record Datapoint =
  dp_spec :: DatapointSpec
  dp_value :: QVariant
  dp_state :: DpState
  dp_timestamp :: int
  dp_writer :: "nat option"

definition defaultSpec :: DatapointSpec where
  "defaultSpec = \<lparr>spec_id = [], spec_kind = Status, spec_type = U16, spec_source = None, spec_sink = None,
     spec_uiBinding = [], spec_persistTag = []\<rparr>"

definition newDatapoint :: "DatapointSpec \<Rightarrow> Datapoint" where
  "newDatapoint sp = \<lparr>dp_spec = sp, dp_value = QInvalid, dp_state = DpMissing, dp_timestamp = 0, dp_writer = None\<rparr>"

text \<open>\<open>Inl\<close> is \<open>std::invalid_argument\<close>.\<close>

definition setSpec :: "DatapointSpec \<Rightarrow> Datapoint \<Rightarrow> qstring + Datapoint" where
  "setSpec sp d =
     (if spec_id (dp_spec d) \<noteq> [] \<and> spec_id sp \<noteq> spec_id (dp_spec d)
      then Inl ''Datapoint id is immutable once assigned'' else Inr (d\<lparr>dp_spec := sp\<rparr>))"

definition dpValid :: "Datapoint \<Rightarrow> bool" where
  "dpValid d = (dp_state d = DpOk)"

fun stateText :: "DpState \<Rightarrow> qstring" where
  "stateText DpOk = ''Ok''"
| "stateText DpStale = ''Stale''"
| "stateText DpError = ''Error''"
| "stateText DpMissing = ''Missing''"

definition setValue :: "QtVariant \<Rightarrow> QVariant \<Rightarrow> int \<Rightarrow> Datapoint \<Rightarrow> DpSignal list \<times> Datapoint" where
  "setValue qt v ts d =
     (let stateFlag = dp_state d \<noteq> DpOk;
          valueFlag = (\<not> qt_equal qt (dp_value d) v);
          timestampFlag = dp_timestamp d \<noteq> ts
      in ((if valueFlag then [ValueChanged] else []) @ (if stateFlag then [StateChanged] else [])
            @ (if timestampFlag then [TimestampChanged] else []),
          d\<lparr>dp_state := DpOk, dp_value := (if valueFlag then v else dp_value d), dp_timestamp := ts\<rparr>))"

definition setState :: "DpState \<Rightarrow> Datapoint \<Rightarrow> DpSignal list \<times> Datapoint" where
  "setState s d = (if dp_state d \<noteq> s then ([StateChanged], d\<lparr>dp_state := s\<rparr>) else ([], d))"

definition setWriter :: "nat option \<Rightarrow> Datapoint \<Rightarrow> Datapoint" where
  "setWriter w d = d\<lparr>dp_writer := w\<rparr>"

definition writeDatapoint :: "QVariant \<Rightarrow> Datapoint \<Rightarrow> (nat \<times> QVariant) option" where
  "writeDatapoint v d = (case dp_writer d of None \<Rightarrow> None | Some cb \<Rightarrow> Some (cb, v))"

subsection \<open>The registry\<close>

text \<open>Datapoint objects are cells of a store; the registry maps ids to cells.\<close>

type_synonym DpStore = "nat \<Rightarrow> Datapoint"
type_synonym DatapointRegistry = "(qstring \<times> nat) list"

definition registerDp :: "DpStore \<Rightarrow> nat option \<Rightarrow> DatapointRegistry \<Rightarrow> bool \<times> DatapointRegistry" where
  "registerDp store dp reg =
     (case dp of None \<Rightarrow> (False, reg)
      | Some h \<Rightarrow>
        (let i = spec_id (dp_spec (store h))
         in if blank i then (False, reg)
            else if map_of reg i \<noteq> None then (False, reg) else (True, reg @ [(i, h)])))"

definition findDp :: "DatapointRegistry \<Rightarrow> qstring \<Rightarrow> nat option" where
  "findDp reg i = map_of reg i"

definition allDps :: "DatapointRegistry \<Rightarrow> nat list" where
  "allDps reg = map snd reg"

text \<open>The registry is a finite map whose keys are the non-blank ids of the cells they name.\<close>

definition registry_ok :: "DpStore \<Rightarrow> DatapointRegistry \<Rightarrow> bool" where
  "registry_ok store reg \<longleftrightarrow> distinct (map fst reg)
     \<and> (\<forall>(i, h) \<in> set reg. i = spec_id (dp_spec (store h)) \<and> \<not> blank i)"

lemma registerDp_ok [inv_intros]:
  "registry_ok store reg \<Longrightarrow> registry_ok store (snd (registerDp store dp reg))"
  by (auto simp: registry_ok_def registerDp_def Let_def map_of_eq_None_iff image_iff split: option.splits)

lemma registerDp_find:
  assumes "registerDp store (Some h) reg = (ok, reg')"
  shows "findDp reg' i = (if ok \<and> i = spec_id (dp_spec (store h)) then Some h else findDp reg i)"
  using assms
  by (auto simp: registerDp_def findDp_def Let_def map_add_def split: if_splits option.splits)

lemma setSpec_id:
  "setSpec sp d = Inr d' \<Longrightarrow> spec_id (dp_spec d) \<noteq> [] \<Longrightarrow> spec_id (dp_spec d') = spec_id (dp_spec d)"
  by (auto simp: setSpec_def split: if_splits)

subsection \<open>Properties\<close>

text \<open>The registry stays consistent with the objects it names.  Registering succeeds exactly
  for a datapoint with a non-blank id that is not taken; afterwards that id finds it and every other
  lookup is unchanged; and because an assigned id cannot be changed by \<open>setSpec\<close>, a later
  reconfiguration of any registered datapoint keeps every key equal to the id of its object.\<close>

theorem datapoint_registry_consistent:
  assumes "registry_ok store reg" "registerDp store (Some h) reg = (ok, reg')"
    and "setSpec sp (store k) = Inr d'"
  shows "(ok \<longleftrightarrow> \<not> blank (spec_id (dp_spec (store h))) \<and> findDp reg (spec_id (dp_spec (store h))) = None)
     \<and> (\<forall>i. findDp reg' i = (if ok \<and> i = spec_id (dp_spec (store h)) then Some h else findDp reg i))
     \<and> registry_ok store reg' \<and> (k \<in> set (allDps reg') \<longrightarrow> registry_ok (store(k := d')) reg')"
proof -
  have ok': "registry_ok store reg'"
    using registerDp_ok [OF assms(1), of "Some h"] assms(2) by simp
  have "spec_id (dp_spec d') = spec_id (dp_spec (store k))" if "k \<in> set (allDps reg')"
  proof (rule setSpec_id [OF assms(3)])
    from that obtain i where "(i, k) \<in> set reg'" by (auto simp: allDps_def)
    then have "\<not> blank (spec_id (dp_spec (store k)))" using ok' by (auto simp: registry_ok_def)
    then show "spec_id (dp_spec (store k)) \<noteq> []" by (auto simp: blank_def trimmed_def)
  qed
  then have "k \<in> set (allDps reg') \<longrightarrow> registry_ok (store(k := d')) reg'"
    using ok' by (auto simp: registry_ok_def)
  moreover have "ok \<longleftrightarrow> \<not> blank (spec_id (dp_spec (store h))) \<and> findDp reg (spec_id (dp_spec (store h))) = None"
    using assms(2) by (auto simp: registerDp_def findDp_def Let_def split: if_splits)
  ultimately show ?thesis using registerDp_find [OF assms(2)] ok' by blast
qed

definition demoStore :: DpStore where
  "demoStore h = newDatapoint (defaultSpec\<lparr>spec_id := (if h = 0 then ''plc.speed'' else ''plc.temp'')\<rparr>)"

theorem datapoint_registry_consistent_witness:
  "registry_ok demoStore (snd (registerDp demoStore (Some 0) [])) \<and> fst (registerDp demoStore (Some 0) [])
     \<and> findDp (snd (registerDp demoStore (Some 0) [])) ''plc.speed'' = Some 0"
proof -
  have i: "registry_ok demoStore []" by (simp add: registry_ok_def)
  have s: "setSpec (dp_spec (demoStore 0)) (demoStore 0) = Inr (demoStore 0)"
    by (simp add: setSpec_def demoStore_def newDatapoint_def)
  have c: "fst (registerDp demoStore (Some 0) [])" "spec_id (dp_spec (demoStore 0)) = ''plc.speed''" by code_simp+
  show ?thesis
    using datapoint_registry_consistent [OF i prod.collapse [symmetric] s, of 0] c by simp
qed

text \<open>Notifications.  A value update always leaves the datapoint valid with the new time stamp,
  holding a value equal to the one given, and signals exactly the components that changed; a state
  update signals exactly when the state differs and keeps value and time stamp.\<close>

theorem datapoint_notifications:
  assumes "\<And>v. qt_equal qt v v" "setValue qt v ts d = (sigs, d')" "setState s d = (sigs2, d2)"
  shows "dp_state d' = DpOk \<and> dp_timestamp d' = ts \<and> qt_equal qt (dp_value d') v \<and> dp_spec d' = dp_spec d
     \<and> (ValueChanged \<in> set sigs \<longleftrightarrow> \<not> qt_equal qt (dp_value d) v)
     \<and> (StateChanged \<in> set sigs \<longleftrightarrow> dp_state d \<noteq> DpOk)
     \<and> (TimestampChanged \<in> set sigs \<longleftrightarrow> dp_timestamp d \<noteq> ts) \<and> distinct sigs
     \<and> d2 = d\<lparr>dp_state := s\<rparr> \<and> (sigs2 = [StateChanged] \<longleftrightarrow> dp_state d \<noteq> s) \<and> (sigs2 = [] \<longleftrightarrow> dp_state d = s)"
  using assms by (auto simp: setValue_def setState_def Let_def split: if_splits)

theorem datapoint_notifications_witness:
  "fst (setValue demoQt (QU16 3) 9 (newDatapoint defaultSpec)) = [ValueChanged, StateChanged, TimestampChanged]
     \<and> qt_equal demoQt (dp_value (snd (setValue demoQt (QU16 3) 9 (newDatapoint defaultSpec)))) (QU16 3)"
proof -
  have e: "\<And>v. qt_equal demoQt v v" by (simp add: demoQt_def)
  have "fst (setValue demoQt (QU16 3) 9 (newDatapoint defaultSpec)) = [ValueChanged, StateChanged, TimestampChanged]"
    by code_simp
  moreover obtain sigs d' where r: "setValue demoQt (QU16 3) 9 (newDatapoint defaultSpec) = (sigs, d')" by fastforce
  moreover obtain sigs2 d2 where q: "setState DpOk (newDatapoint defaultSpec) = (sigs2, d2)" by fastforce
  ultimately show ?thesis using datapoint_notifications [OF e r q] by simp
qed

end
