(* ===== verification/Poll_Range.thy ===== *)
theory Poll_Range
  imports Transport_Types Datapoints
begin

text \<open>
  The polling module \<open>PollRange\<close> (\<open>src/PollRange.cpp\<close>): applying a read result to the bound
  datapoints, the synchronous cycle \<open>pollOnce\<close>, and the asynchronous cycle \<open>driveTick\<close> with its
  coalescing guard and run generation, interleaved with start, stop, pause and resume.
\<close>

subsection \<open>State and bindings\<close>

record Binding =
  bind_dp :: nat
  bind_codec :: Codec
  bind_source :: "PortRef option"
  bind_offset :: int
  bind_registerCount :: nat

record PollRange =
  pr_id :: qstring
  pr_transportId :: qstring
  pr_priority :: Priority
  pr_req :: ReadRequest
  pr_periodMs :: int
  pr_bindings :: "Binding list"
  pr_paused :: bool
  pr_inFlight :: bool
  pr_runGeneration :: u64
  pr_hasBus :: bool

record PollRangeCompleted =
  prc_moduleId :: qstring
  prc_transportId :: qstring
  prc_table :: RegisterType
  prc_startAddress :: int
  prc_count :: int
  prc_values :: "u16 list"

definition pollRange :: "qstring \<Rightarrow> qstring \<Rightarrow> ReadRequest \<Rightarrow> int \<Rightarrow> Priority \<Rightarrow> bool \<Rightarrow> PollRange" where
  "pollRange moduleId transportId request period prio hasBus =
     \<lparr>pr_id = moduleId, pr_transportId = transportId, pr_priority = prio, pr_req = request,
      pr_periodMs = period, pr_bindings = [], pr_paused = False, pr_inFlight = False,
      pr_runGeneration = 0, pr_hasBus = hasBus\<rparr>"

definition bindDatapoint :: "DpStore \<Rightarrow> nat option \<Rightarrow> Codec option \<Rightarrow> int \<Rightarrow> PollRange \<Rightarrow> PollRange" where
  "bindDatapoint store dp codec registerOffset p =
     (case (dp, codec) of
        (Some h, Some c) \<Rightarrow>
          p\<lparr>pr_bindings := pr_bindings p @ [\<lparr>bind_dp = h, bind_codec = c,
               bind_source = spec_source (dp_spec (store h)), bind_offset = registerOffset,
               bind_registerCount = registerCountFor (spec_type (dp_spec (store h)))\<rparr>]\<rparr>
      | _ \<Rightarrow> p)"

subsection \<open>Applying a result\<close>

definition markAll :: "DpState \<Rightarrow> Binding list \<Rightarrow> DpStore \<Rightarrow> DpStore" where
  "markAll st bs store = fold (\<lambda>b s. s(bind_dp b := snd (setState st (s (bind_dp b))))) bs store"

text \<open>The environment of a poll: Qt's variants, the codecs' \<open>decode\<close> and the clock.\<close>

record PollEnv =
  pe_qt :: QtVariant
  pe_decode :: "Codec \<Rightarrow> u16 list \<Rightarrow> PortRef \<Rightarrow> QVariant option"
  pe_now :: int

text \<open>What one binding reads from the image; \<open>None\<close> marks the datapoint as erroneous.\<close>

definition bindingValue :: "PollEnv \<Rightarrow> u16 list \<Rightarrow> Binding \<Rightarrow> QVariant option" where
  "bindingValue env vals b =
     (if bind_registerCount b \<le> 0 \<or> bind_offset b < 0
         \<or> int (length vals) < bind_offset b + int (bind_registerCount b) then None
      else case bind_source b of None \<Rightarrow> None
           | Some ref \<Rightarrow>
             (case pe_decode env (bind_codec b) (mid vals (nat (bind_offset b)) (bind_registerCount b)) ref of
                None \<Rightarrow> None
              | Some v \<Rightarrow> (if v = QInvalid then None else Some v)))"

definition applyBinding :: "PollEnv \<Rightarrow> u16 list \<Rightarrow> Binding \<Rightarrow> DpStore \<Rightarrow> DpStore" where
  "applyBinding env vals b store =
     (let d = store (bind_dp b)
      in store(bind_dp b := (case bindingValue env vals b of
            None \<Rightarrow> snd (setState DpError d)
          | Some v \<Rightarrow> snd (setValue (pe_qt env) v (pe_now env) d))))"

definition applyResult :: "PollEnv \<Rightarrow> ReadResult \<Rightarrow> PollRange \<Rightarrow> DpStore \<Rightarrow> DpStore \<times> PollRangeCompleted option" where
  "applyResult env r p store =
     (if \<not> rr_ok r \<or> int (length (rr_values r)) < rd_count (pr_req p)
      then (markAll DpError (pr_bindings p) store, None)
      else (fold (applyBinding env (rr_values r)) (pr_bindings p) store,
            if pr_hasBus p
            then Some \<lparr>prc_moduleId = pr_id p, prc_transportId = pr_transportId p, prc_table = rd_table (pr_req p),
                       prc_startAddress = rd_startAddress (pr_req p), prc_count = rd_count (pr_req p),
                       prc_values = mid (rr_values r) 0 (nat (rd_count (pr_req p)))\<rparr>
            else None))"

subsection \<open>Polling\<close>

definition pollTag :: "PollRange \<Rightarrow> RequestTag" where
  "pollTag p = \<lparr>tag_moduleId = pr_id p, tag_priority = pr_priority p, tag_interruptable = False\<rparr>"

definition pollOnce :: "PollEnv \<Rightarrow> (RequestTag \<Rightarrow> SubmitResult) \<Rightarrow> (ReadRequest \<Rightarrow> ReadResult) \<Rightarrow> PollRange \<Rightarrow> DpStore
    \<Rightarrow> SubmitResult \<times> DpStore \<times> PollRangeCompleted option" where
  "pollOnce env submit readFn p store =
     (if pr_paused p then (rejectWith ResultKind.Cancelled ''module paused'', store, None)
      else let submission = submit (pollTag p)
           in if res_kind submission \<noteq> ResultKind.Ok
              then (submission, markAll DpStale (pr_bindings p) store, None)
              else let r = readFn (pr_req p);
                       out = applyResult env r p store
                   in ((if \<not> rr_ok r \<or> int (length (rr_values r)) < rd_count (pr_req p)
                        then submission\<lparr>res_kind := ResultKind.Error,
                               res_errorMessage := (if rr_errorMessage r = [] then ''incomplete read result''
                                                    else rr_errorMessage r)\<rparr>
                        else submission), out))"

definition pollStart :: "PollRange \<Rightarrow> PollRange" where
  "pollStart p = p\<lparr>pr_runGeneration := pr_runGeneration p + 1, pr_paused := False\<rparr>"

definition pollStop :: "PollRange \<Rightarrow> PollRange" where
  "pollStop p = p\<lparr>pr_paused := True, pr_runGeneration := pr_runGeneration p + 1\<rparr>"

text \<open>\<open>driveTick\<close> up to the coalescing guard: whether this tick goes on.\<close>

definition pollTickEnter :: "PollRange \<Rightarrow> bool \<times> PollRange" where
  "pollTickEnter p =
     (if pr_paused p then (False, p)
      else if pr_inFlight p then (False, p) else (True, p\<lparr>pr_inFlight := True\<rparr>))"

text \<open>The run check of the completion callback and of the rejection path.\<close>

definition sameRun :: "u64 \<Rightarrow> PollRange \<Rightarrow> bool" where
  "sameRun runGeneration p = (\<not> pr_paused p \<and> pr_runGeneration p = runGeneration)"

definition pollRejected :: "u64 \<Rightarrow> PollRange \<Rightarrow> DpStore \<Rightarrow> PollRange \<times> DpStore" where
  "pollRejected runGeneration p store =
     (p\<lparr>pr_inFlight := False\<rparr>, if sameRun runGeneration p then markAll DpStale (pr_bindings p) store else store)"

subsection \<open>Lemmas on applying\<close>

lemma markAll_dp:
  "markAll st bs store h =
     (if h \<in> bind_dp ` set bs then (store h)\<lparr>dp_state := st\<rparr> else store h)"
proof (induction bs arbitrary: store)
  case (Cons b bs)
  then show ?case by (auto simp: markAll_def setState_def)
qed (simp add: markAll_def)

lemma applyBinding_other: "h \<noteq> bind_dp b \<Longrightarrow> applyBinding env vals b store h = store h"
  by (simp add: applyBinding_def Let_def)

lemma fold_applyBinding:
  assumes "distinct (map bind_dp bs)" "b \<in> set bs"
  shows "fold (applyBinding env vals) bs store (bind_dp b) = applyBinding env vals b store (bind_dp b)"
  using assms
proof (induction bs arbitrary: store)
  case (Cons c bs)
  have skip: "fold (applyBinding env vals) bs s h = s h" if "h \<notin> bind_dp ` set bs" for s h
    using that by (induction bs arbitrary: s) (auto simp: applyBinding_other)
  show ?case
  proof (cases "b = c")
    case True
    then show ?thesis using Cons.prems(1) skip [of "bind_dp c"] by simp
  next
    case False
    then have b: "b \<in> set bs" using Cons.prems(2) by simp
    then have "bind_dp b \<noteq> bind_dp c" using Cons.prems(1) by (metis distinct.simps(2) image_eqI list.map(2) set_map)
    with b have "b \<in> set bs" "bind_dp b \<noteq> bind_dp c" by auto
    then show ?thesis
      using Cons by (simp add: applyBinding_def Let_def)
  qed
qed simp

subsection \<open>The asynchronous cycle\<close>

text \<open>
  The position of the tick that holds the coalescing guard: between the guard and the load of the
  run generation, waiting for the reply (with that generation), or applying a reply that passed the
  run check.  \<open>lifecycle\<close> counts start, stop, pause and resume calls, \<open>issued\<close> is its value when the
  generation was loaded.
\<close>

datatype PollPc = PollIdle | PollEntered | PollWaiting u64 | PollApplying ReadResult

record PollSystem =
  poll :: PollRange
  pollPc :: PollPc
  dpStore :: DpStore
  lifecycle :: nat
  issued :: nat
  published :: "PollRangeCompleted list"

datatype PollEvent =
    PollTickEv
  | PollSubmitEv bool
  | PollReplyEv ReadResult
  | PollApplyEv PollEnv
  | PollStartEv
  | PollStopEv

definition startPoll :: "PollRange \<Rightarrow> DpStore \<Rightarrow> PollSystem" where
  "startPoll p st = \<lparr>poll = p\<lparr>pr_inFlight := False, pr_runGeneration := 0\<rparr>, pollPc = PollIdle, dpStore = st,
     lifecycle = 0, issued = 0, published = []\<rparr>"

fun pollEvent :: "PollEvent \<Rightarrow> PollSystem \<Rightarrow> PollSystem option" where
  "pollEvent PollTickEv x =
     (case pollTickEnter (poll x) of
        (True, p) \<Rightarrow> Some (x\<lparr>poll := p, pollPc := PollEntered\<rparr>)
      | (False, p) \<Rightarrow> Some (x\<lparr>poll := p\<rparr>))"
| "pollEvent (PollSubmitEv accepted) x =
     (if pollPc x = PollEntered
      then (if accepted
            then Some (x\<lparr>pollPc := PollWaiting (pr_runGeneration (poll x)), issued := lifecycle x\<rparr>)
            else (case pollRejected (pr_runGeneration (poll x)) (poll x) (dpStore x) of
                    (p, st) \<Rightarrow> Some (x\<lparr>poll := p, dpStore := st, pollPc := PollIdle\<rparr>)))
      else None)"
| "pollEvent (PollReplyEv r) x =
     (case pollPc x of
        PollWaiting gen \<Rightarrow>
          (if sameRun gen (poll x) then Some (x\<lparr>pollPc := PollApplying r\<rparr>)
           else Some (x\<lparr>poll := (poll x)\<lparr>pr_inFlight := False\<rparr>, pollPc := PollIdle\<rparr>))
      | _ \<Rightarrow> None)"
| "pollEvent (PollApplyEv env) x =
     (case pollPc x of
        PollApplying r \<Rightarrow>
          (case applyResult env r (poll x) (dpStore x) of
             (st, ev) \<Rightarrow> Some (x\<lparr>dpStore := st, poll := (poll x)\<lparr>pr_inFlight := False\<rparr>, pollPc := PollIdle,
                                 published := published x @ (case ev of None \<Rightarrow> [] | Some e \<Rightarrow> [e])\<rparr>))
      | _ \<Rightarrow> None)"
| "pollEvent PollStartEv x = Some (x\<lparr>poll := pollStart (poll x), lifecycle := lifecycle x + 1\<rparr>)"
| "pollEvent PollStopEv x = Some (x\<lparr>poll := pollStop (poll x), lifecycle := lifecycle x + 1\<rparr>)"

inductive pollStep :: "PollSystem \<Rightarrow> PollSystem \<Rightarrow> bool" where
  "pollEvent ev x = Some y \<Longrightarrow> pollStep x y"

definition poll_inv :: "PollSystem \<Rightarrow> bool" where
  "poll_inv x \<longleftrightarrow> (pr_inFlight (poll x) \<longleftrightarrow> pollPc x \<noteq> PollIdle)
     \<and> pr_runGeneration (poll x) = of_nat (lifecycle x) \<and> issued x \<le> lifecycle x
     \<and> (\<forall>gen. pollPc x = PollWaiting gen \<longrightarrow> gen = of_nat (issued x))"

lemma pollStep_inv:
  assumes "poll_inv x" "pollStep x y" shows "poll_inv y"
  using assms(2)
proof (cases rule: pollStep.cases)
  case (1 ev)
  then show ?thesis
    using assms(1)
    by (cases ev)
      (auto simp: poll_inv_def pollTickEnter_def pollRejected_def pollStart_def pollStop_def
        split: if_splits PollPc.splits prod.splits)
qed

interpretation polling: transition_system "\<lambda>x. x = startPoll p st" pollStep poll_inv for p st
proof unfold_locales
  show "x = startPoll p st \<Longrightarrow> poll_inv x" for x
    by (simp add: poll_inv_def startPoll_def)
qed (rule pollStep_inv)

subsection \<open>Properties\<close>

text \<open>What a read result does to the bound datapoints.  A complete result gives every bound
  datapoint either the value its codec decodes from its own slice of the image, with state Ok, or
  the state Error with the old value kept, and publishes the first \<open>count\<close> registers; an incomplete
  or failed result only marks all of them Error and publishes nothing; no other datapoint changes.\<close>

theorem poll_apply_result:
  assumes "distinct (map bind_dp (pr_bindings p))" "applyResult env r p store = (store', ev)"
  shows "(if rr_ok r \<and> rd_count (pr_req p) \<le> int (length (rr_values r))
      then (\<forall>b \<in> set (pr_bindings p).
              store' (bind_dp b) = (case bindingValue env (rr_values r) b of
                  None \<Rightarrow> (store (bind_dp b))\<lparr>dp_state := DpError\<rparr>
                | Some v \<Rightarrow> snd (setValue (pe_qt env) v (pe_now env) (store (bind_dp b)))))
         \<and> (ev \<noteq> None \<longleftrightarrow> pr_hasBus p)
         \<and> (\<forall>e. ev = Some e \<longrightarrow> prc_values e = take (nat (rd_count (pr_req p))) (rr_values r)
                \<and> prc_moduleId e = pr_id p)
      else (\<forall>b \<in> set (pr_bindings p). store' (bind_dp b) = (store (bind_dp b))\<lparr>dp_state := DpError\<rparr>) \<and> ev = None)
     \<and> (\<forall>h. h \<notin> bind_dp ` set (pr_bindings p) \<longrightarrow> store' h = store h)"
proof (cases "rr_ok r \<and> rd_count (pr_req p) \<le> int (length (rr_values r))")
  case True
  then have s: "store' = fold (applyBinding env (rr_values r)) (pr_bindings p) store"
    and ev: "ev = (if pr_hasBus p
            then Some \<lparr>prc_moduleId = pr_id p, prc_transportId = pr_transportId p, prc_table = rd_table (pr_req p),
                       prc_startAddress = rd_startAddress (pr_req p), prc_count = rd_count (pr_req p),
                       prc_values = mid (rr_values r) 0 (nat (rd_count (pr_req p)))\<rparr>
            else None)"
    using assms(2) by (auto simp: applyResult_def split: if_splits)
  have one: "store' (bind_dp b) = (case bindingValue env (rr_values r) b of
      None \<Rightarrow> (store (bind_dp b))\<lparr>dp_state := DpError\<rparr>
    | Some v \<Rightarrow> snd (setValue (pe_qt env) v (pe_now env) (store (bind_dp b))))"
    if "b \<in> set (pr_bindings p)" for b
    unfolding s fold_applyBinding [OF assms(1) that]
    by (auto simp: applyBinding_def Let_def setState_def split: option.splits)
  have other: "fold (applyBinding env vals) bs st h = st h" if "h \<notin> bind_dp ` set bs" for vals bs st h
    using that by (induction bs arbitrary: st) (auto simp: applyBinding_other)
  show ?thesis using True one other s ev by (auto simp: mid_def)
next
  case False
  then have "store' = markAll DpError (pr_bindings p) store" "ev = None"
    using assms(2) by (auto simp: applyResult_def split: if_splits)
  then show ?thesis using False by (auto simp: markAll_dp)
qed

definition demoPoll :: PollRange where
  "demoPoll = bindDatapoint demoStore (Some 1) (Some (ScalarCodec U16)) 0
     (bindDatapoint (\<lambda>_. newDatapoint (defaultSpec\<lparr>spec_source := Some defaultPortRef\<rparr>)) (Some 0) (Some (ScalarCodec U16)) 1
       (pollRange ''poll'' ''plc'' \<lparr>rd_table = HoldingRegisters, rd_startAddress = 40, rd_count = 2\<rparr> 100 Priority_Normal True))"

definition demoEnv :: PollEnv where
  "demoEnv = \<lparr>pe_qt = demoQt, pe_decode = codecDecode demoFpu (\<lambda>i raw ref. None), pe_now = 77\<rparr>"

definition demoRead :: ReadResult where
  "demoRead = \<lparr>rr_ok = True, rr_values = [10, 11, 12], rr_startAddress = 40, rr_errorMessage = []\<rparr>"

theorem poll_apply_result_witness:
  "dp_value (fst (applyResult demoEnv demoRead demoPoll demoStore) 0) = QU16 11
     \<and> dp_state (fst (applyResult demoEnv demoRead demoPoll demoStore) 1) = DpError
     \<and> (\<exists>e. snd (applyResult demoEnv demoRead demoPoll demoStore) = Some e \<and> prc_values e = [10, 11])"
proof -
  let ?out = "applyResult demoEnv demoRead demoPoll demoStore"
  have d: "distinct (map bind_dp (pr_bindings demoPoll))" by code_simp
  have c: "dp_value (fst ?out 0) = QU16 11" "dp_state (fst ?out 1) = DpError" by code_simp+
  have v: "rr_ok demoRead" "rd_count (pr_req demoPoll) = 2" "rr_values demoRead = [10, 11, 12]" "pr_hasBus demoPoll"
    by code_simp+
  have o: "?out = (fst ?out, snd ?out)" by simp
  from poll_apply_result [OF d o] v
  obtain e where "snd ?out = Some e" "prc_values e = [10, 11]" by auto
  with c show ?thesis by blast
qed

text \<open>Replies of an earlier run are discarded.  When the completion callback decides to apply a
  reply, the module is running and no start, stop, pause or resume happened since the request was
  issued (for fewer than \<open>2^64\<close> such calls); otherwise the datapoints are left untouched.\<close>

theorem poll_stale_reply_discarded:
  assumes "reach (\<lambda>x. x = startPoll p st) pollStep x" "pollPc x = PollWaiting gen"
    and "lifecycle x < 2 ^ 64" "pollEvent (PollReplyEv r) x = Some y"
  shows "(if \<not> pr_paused (poll x) \<and> issued x = lifecycle x then pollPc y = PollApplying r
      else pollPc y = PollIdle \<and> \<not> pr_inFlight (poll y)) \<and> dpStore y = dpStore x"
proof -
  have inv: "poll_inv x" by (rule polling.reach_inv [OF assms(1)])
  then have g: "gen = of_nat (issued x)" "pr_runGeneration (poll x) = of_nat (lifecycle x)" "issued x \<le> lifecycle x"
    using assms(2) by (auto simp: poll_inv_def)
  have "issued x < 2 ^ 64" using g(3) assms(3) by (rule le_less_trans)
  then have "pr_runGeneration (poll x) = gen \<longleftrightarrow> issued x = lifecycle x"
    using of_nat_u64_inj [OF assms(3), of "issued x"] g(1,2) by metis
  then show ?thesis using assms(2,4) by (auto simp: sameRun_def split: if_splits)
qed

fun pollEvents :: "PollEvent list \<Rightarrow> PollSystem \<Rightarrow> PollSystem option" where
  "pollEvents [] x = Some x"
| "pollEvents (ev # evs) x = (case pollEvent ev x of None \<Rightarrow> None | Some y \<Rightarrow> pollEvents evs y)"

lemma pollEvents_reach:
  "reach (\<lambda>x. x = startPoll p st) pollStep x \<Longrightarrow> pollEvents evs x = Some y
     \<Longrightarrow> reach (\<lambda>x. x = startPoll p st) pollStep y"
proof (induction evs arbitrary: x)
  case (Cons ev evs)
  from Cons.prems(2) obtain z where "pollEvent ev x = Some z" "pollEvents evs z = Some y"
    by (auto split: option.splits)
  with Cons.IH [of z] reach_step [OF Cons.prems(1) pollStep.intros] show ?case by blast
qed simp

text \<open>A poll issued before a stop and restart, answered after it.\<close>

theorem poll_stale_reply_discarded_witness:
  "\<exists>x y. reach (\<lambda>x. x = startPoll demoPoll demoStore) pollStep x \<and> pollPc x = PollWaiting 1
     \<and> \<not> pr_paused (poll x) \<and> pollEvent (PollReplyEv demoRead) x = Some y \<and> pollPc y = PollIdle"
proof -
  let ?evs = "[PollStartEv, PollTickEv, PollSubmitEv True, PollStopEv, PollStartEv]"
  define x where "x = the (pollEvents ?evs (startPoll demoPoll demoStore))"
  have v: "pollPc x = PollWaiting 1" "lifecycle x = 3" "issued x = 1" "\<not> pr_paused (poll x)"
    unfolding x_def by code_simp+
  have "pollEvents ?evs (startPoll demoPoll demoStore) \<noteq> None" by code_simp
  then have "pollEvents ?evs (startPoll demoPoll demoStore) = Some x" by (simp add: x_def)
  then have r: "reach (\<lambda>x. x = startPoll demoPoll demoStore) pollStep x"
    by (rule pollEvents_reach [rotated]) (simp add: reach_init)
  obtain y where y: "pollEvent (PollReplyEv demoRead) x = Some y"
    using v(1) by (cases "sameRun 1 (poll x)") simp_all
  have "pollPc y = PollIdle"
    using poll_stale_reply_discarded [OF r v(1) _ y] v(2,3) by simp
  then show ?thesis using r v y by blast
qed

text \<open>Coalescing.  At most one poll is outstanding, a tick that finds one outstanding or the
  module paused changes nothing, and the guard is released on every path: a rejected submission
  and a discarded reply release it at once, an applied reply when it has been applied.\<close>

theorem poll_guard_released:
  assumes "reach (\<lambda>x. x = startPoll p st) pollStep x"
  shows "(pr_inFlight (poll x) \<longleftrightarrow> pollPc x \<noteq> PollIdle)
     \<and> (pollPc x \<noteq> PollIdle \<or> pr_paused (poll x) \<longrightarrow> pollEvent PollTickEv x = Some x)
     \<and> (\<forall>y. pollEvent (PollSubmitEv False) x = Some y \<longrightarrow> \<not> pr_inFlight (poll y))
     \<and> (\<forall>y env. pollEvent (PollApplyEv env) x = Some y \<longrightarrow> \<not> pr_inFlight (poll y))
     \<and> (\<forall>gen r. pollPc x = PollWaiting gen \<longrightarrow>
          (\<exists>y. pollEvent (PollReplyEv r) x = Some y \<and> (pollPc y = PollApplying r \<or> \<not> pr_inFlight (poll y))))"
proof -
  have "poll_inv x" by (rule polling.reach_inv [OF assms])
  moreover have "\<not> pr_inFlight (poll y)" if "pollEvent (PollApplyEv env) x = Some y" for y env
    using that by (cases "pollPc x") (auto split: prod.splits)
  ultimately show ?thesis
    by (cases "pollPc x") (auto simp: poll_inv_def pollTickEnter_def pollRejected_def)
qed

theorem poll_guard_released_witness:
  "pr_inFlight (poll (startPoll demoPoll demoStore)) \<longleftrightarrow> pollPc (startPoll demoPoll demoStore) \<noteq> PollIdle"
  using poll_guard_released [OF reach_init [where init = "\<lambda>x. x = startPoll demoPoll demoStore" and step = pollStep,
        OF refl]] by blast

text \<open>The events of one undisturbed asynchronous poll, as the scheduler and the transport answer.\<close>

definition pollCycle :: "PollEnv \<Rightarrow> (RequestTag \<Rightarrow> SubmitResult) \<Rightarrow> (ReadRequest \<Rightarrow> ReadResult) \<Rightarrow> PollRange \<Rightarrow> PollEvent list" where
  "pollCycle env submit readFn p =
     PollTickEv # (if pr_paused p then []
       else if res_kind (submit (pollTag p)) = ResultKind.Ok then [PollSubmitEv True, PollReplyEv (readFn (pr_req p)), PollApplyEv env]
       else [PollSubmitEv False])"

text \<open>C12: the two polling paths agree.  In every reachable state with no poll outstanding, the
  asynchronous cycle of \<open>driveTick\<close>, undisturbed, does to the datapoints and publishes on the bus
  exactly what the synchronous \<open>pollOnce\<close> does with the same answers of the scheduler and of the
  transport, paused, rejected, failed and incomplete polls included, and leaves the module as it was.\<close>

theorem poll_sync_async_agree:
  assumes "reach (\<lambda>x. x = startPoll p st) pollStep x" "pollPc x = PollIdle"
  shows "\<exists>y. pollEvents (pollCycle env submit readFn (poll x)) x = Some y \<and> poll y = poll x \<and> pollPc y = PollIdle
    \<and> (case pollOnce env submit readFn (poll x) (dpStore x) of
         (_, store, ev) \<Rightarrow> dpStore y = store \<and> published y = published x @ (case ev of None \<Rightarrow> [] | Some e \<Rightarrow> [e]))"
proof -
  have idle: "\<not> pr_inFlight (poll x)" using polling.reach_inv [OF assms(1)] assms(2) by (simp add: poll_inv_def)
  then have same: "(poll x)\<lparr>pr_inFlight := False\<rparr> = poll x" by simp
  consider "pr_paused (poll x)" | "\<not> pr_paused (poll x)" "res_kind (submit (pollTag (poll x))) \<noteq> ResultKind.Ok"
    | "\<not> pr_paused (poll x)" "res_kind (submit (pollTag (poll x))) = ResultKind.Ok" by blast
  then show ?thesis
  proof cases
    case 3
    have "applyResult env r (p'\<lparr>pr_inFlight := True\<rparr>) store = applyResult env r p' store" for r p' store
      by (simp add: applyResult_def)
    then show ?thesis using 3 idle assms(2) same
      by (simp add: pollCycle_def pollTickEnter_def sameRun_def pollOnce_def Let_def case_prod_beta)
  qed (use idle assms(2) same in \<open>simp_all add: pollCycle_def pollTickEnter_def pollRejected_def sameRun_def pollOnce_def Let_def\<close>)
qed

theorem poll_sync_async_agree_witness:
  "\<exists>y. pollEvents (pollCycle demoEnv (\<lambda>_. okResult 3) (\<lambda>_. demoRead) (pollStart demoPoll)) ((startPoll demoPoll demoStore)\<lparr>poll := pollStart demoPoll, lifecycle := 1\<rparr>) = Some y
     \<and> dpStore y = fst (applyResult demoEnv demoRead demoPoll demoStore)"
proof -
  define x where "x = (startPoll demoPoll demoStore)\<lparr>poll := pollStart demoPoll, lifecycle := 1\<rparr>"
  have "pollStart (demoPoll\<lparr>pr_inFlight := False, pr_runGeneration := 0\<rparr>) = pollStart demoPoll" by code_simp
  then have "pollEvents [PollStartEv] (startPoll demoPoll demoStore) = Some x" by (simp add: x_def startPoll_def)
  then have r: "reach (\<lambda>x. x = startPoll demoPoll demoStore) pollStep x"
    by (rule pollEvents_reach [rotated]) (simp add: reach_init)
  have "pollPc x = PollIdle" "poll x = pollStart demoPoll" "dpStore x = demoStore" by (simp_all add: x_def startPoll_def)
  moreover have "\<not> pr_paused (pollStart demoPoll)" "res_kind (okResult 3) = ResultKind.Ok" by code_simp+
  moreover have "applyResult demoEnv demoRead (pollStart demoPoll) demoStore = applyResult demoEnv demoRead demoPoll demoStore"
    by (simp add: applyResult_def pollStart_def)
  ultimately show ?thesis
    using poll_sync_async_agree [OF r, of demoEnv "\<lambda>_. okResult 3" "\<lambda>_. demoRead"] unfolding x_def[symmetric]
    by (auto simp: pollOnce_def Let_def case_prod_beta)
qed

end
