(* ===== verification/Event_Bus.thy ===== *)
theory Event_Bus
  imports Field_Prelude
begin

text \<open>
  The event bus (\<open>src/EventBus.cpp\<close>): the channel table with its weak references, dispatch to
  the live subscribers, and the life cycle of one subscription entry under concurrent
  publication and cancellation.
\<close>

subsection \<open>Subscription entries\<close>

record Entry =
  accepting :: bool
  active :: int
  activeByThread :: "nat \<rightharpoonup> int"

definition newEntry :: Entry where
  "newEntry = \<lparr>accepting = True, active = 0, activeByThread = Map.empty\<rparr>"

definition selfActive :: "nat \<Rightarrow> Entry \<Rightarrow> int" where
  "selfActive tid e = (case activeByThread e tid of None \<Rightarrow> 0 | Some n \<Rightarrow> n)"

definition beginInvoke :: "nat \<Rightarrow> Entry \<Rightarrow> bool \<times> Entry" where
  "beginInvoke tid e =
     (if \<not> accepting e then (False, e)
      else (True, e\<lparr>active := active e + 1, activeByThread := (activeByThread e)(tid \<mapsto> selfActive tid e + 1)\<rparr>))"

definition endInvoke :: "nat \<Rightarrow> Entry \<Rightarrow> Entry" where
  "endInvoke tid e =
     (let m = (case activeByThread e tid of None \<Rightarrow> activeByThread e
               | Some n \<Rightarrow> if n - 1 = 0 then (activeByThread e)(tid := None) else (activeByThread e)(tid \<mapsto> n - 1))
      in e\<lparr>activeByThread := m, active := (if 0 < active e then active e - 1 else active e)\<rparr>)"

text \<open>\<open>cancelAndDrain\<close>: the locked prefix, and the condition its wait returns on.\<close>

definition cancelEntry :: "Entry \<Rightarrow> Entry" where
  "cancelEntry e = e\<lparr>accepting := False\<rparr>"

definition drained :: "nat \<Rightarrow> Entry \<Rightarrow> bool" where
  "drained tid e = (active e \<le> selfActive tid e)"

subsection \<open>The channel table\<close>

text \<open>
  \<open>entries\<close> of the heap are numbered; \<open>alive\<close> says that the subscription token still holds its
  strong reference, so that the weak pointers of the table can be locked.
\<close>

record Bus =
  channels :: "nat \<rightharpoonup> nat list"
  alive :: "nat \<Rightarrow> bool"
  acceptingEntry :: "nat \<Rightarrow> bool"
  nextEntry :: nat
  totalPublished :: u64
  totalDelivered :: u64
  totalHandlerFailures :: u64

definition newBus :: Bus where
  "newBus = \<lparr>channels = Map.empty, alive = (\<lambda>_. False), acceptingEntry = (\<lambda>_. False), nextEntry = 0,
     totalPublished = 0, totalDelivered = 0, totalHandlerFailures = 0\<rparr>"

definition channel :: "Bus \<Rightarrow> nat \<Rightarrow> nat list" where
  "channel b ti = (case channels b ti of None \<Rightarrow> [] | Some l \<Rightarrow> l)"

definition subscribeErased :: "nat \<Rightarrow> Bus \<Rightarrow> nat \<times> Bus" where
  "subscribeErased ti b =
     (let e = nextEntry b
      in (e, b\<lparr>channels := (channels b)(ti \<mapsto> filter (alive b) (channel b ti) @ [e]),
               alive := (alive b)(e := True), acceptingEntry := (acceptingEntry b)(e := True),
               nextEntry := e + 1\<rparr>))"

text \<open>
  Dispatch of one event: \<open>run e\<close> is whether the handler of entry \<open>e\<close> returns normally (False: it
  throws).  The result lists the handlers called, in order.
\<close>

fun dispatch :: "(nat \<Rightarrow> bool) \<Rightarrow> nat list \<Rightarrow> Bus \<Rightarrow> nat list \<times> Bus" where
  "dispatch run [] b = ([], b)"
| "dispatch run (e # es) b =
     (if acceptingEntry b e then
        let b' = (if run e then b\<lparr>totalDelivered := totalDelivered b + 1\<rparr>
                  else b\<lparr>totalHandlerFailures := totalHandlerFailures b + 1\<rparr>)
        in (case dispatch run es b' of (called, b'') \<Rightarrow> (e # called, b''))
      else dispatch run es b)"

definition publishErased :: "(nat \<Rightarrow> bool) \<Rightarrow> nat \<Rightarrow> Bus \<Rightarrow> nat list \<times> Bus" where
  "publishErased run ti b =
     (let b = b\<lparr>totalPublished := totalPublished b + 1\<rparr>
      in case channels b ti of None \<Rightarrow> ([], b)
         | Some l \<Rightarrow> (let live = filter (alive b) l
                     in dispatch run live (b\<lparr>channels := (channels b)(ti \<mapsto> live)\<rparr>)))"

text \<open>\<open>Subscription::cancel\<close> (or destruction): the token is released.\<close>

definition cancelSubscription :: "nat \<Rightarrow> Bus \<Rightarrow> Bus" where
  "cancelSubscription e b =
     b\<lparr>alive := (alive b)(e := False), acceptingEntry := (acceptingEntry b)(e := False)\<rparr>"

definition activeSubscribers :: "nat list \<Rightarrow> Bus \<Rightarrow> nat" where
  "activeSubscribers types b = (\<Sum>ti\<leftarrow>types. length (filter (alive b) (channel b ti)))"

subsection \<open>Dispatch\<close>

lemma dispatch_spec:
  "dispatch run es b = (called, b') \<Longrightarrow>
     called = filter (acceptingEntry b) es
     \<and> totalDelivered b' = totalDelivered b + of_nat (length (filter run called))
     \<and> totalHandlerFailures b' = totalHandlerFailures b + of_nat (length (filter (\<lambda>e. \<not> run e) called))
     \<and> totalPublished b' = totalPublished b \<and> channels b' = channels b \<and> alive b' = alive b
     \<and> acceptingEntry b' = acceptingEntry b"
proof (induction es arbitrary: b called b')
  case (Cons e es)
  show ?case
  proof (cases "acceptingEntry b e")
    case True
    let ?b = "if run e then b\<lparr>totalDelivered := totalDelivered b + 1\<rparr>
        else b\<lparr>totalHandlerFailures := totalHandlerFailures b + 1\<rparr>"
    obtain c where c: "dispatch run es ?b = (c, b')" "called = e # c"
      using Cons.prems True by (auto simp: Let_def split: prod.splits if_splits)
    show ?thesis using Cons.IH [OF c(1)] True c(2) by (auto split: if_splits)
  next
    case False
    then show ?thesis using Cons by simp
  qed
qed simp

text \<open>Isolation and accounting of a publication.  Every live, accepting subscriber of the event
  type is called exactly once, in subscription order, whichever of the handlers throw; nobody else
  is called; each call is counted either as delivered or as a failure.\<close>

theorem publish_isolated:
  assumes "publishErased run ti b = (called, b')"
  shows "called = filter (acceptingEntry b) (filter (alive b) (channel b ti))
     \<and> totalPublished b' = totalPublished b + 1
     \<and> totalDelivered b' + totalHandlerFailures b'
         = totalDelivered b + totalHandlerFailures b + of_nat (length called)
     \<and> totalHandlerFailures b' = totalHandlerFailures b + of_nat (length (filter (\<lambda>e. \<not> run e) called))"
proof (cases "channels b ti")
  case None
  then show ?thesis using assms by (auto simp: publishErased_def channel_def)
next
  case (Some l)
  then have "dispatch run (filter (alive b) l)
      (b\<lparr>totalPublished := totalPublished b + 1, channels := (channels b)(ti \<mapsto> filter (alive b) l)\<rparr>) = (called, b')"
    using assms by (simp add: publishErased_def Let_def)
  note d = dispatch_spec [OF this]
  have "(of_nat (length called) :: u64)
      = of_nat (length (filter run called)) + of_nat (length (filter (\<lambda>e. \<not> run e) called))"
    using filter_partition_length [of run called] by (metis of_nat_add)
  then show ?thesis using d Some by (simp add: channel_def algebra_simps)
qed

definition demoBus :: Bus where
  "demoBus = cancelSubscription 1 (snd (subscribeErased 5 (snd (subscribeErased 5 (snd (subscribeErased 5 newBus))))))"

theorem publish_isolated_witness:
  "publishErased (\<lambda>e. e \<noteq> 0) 5 demoBus = ([0, 2], snd (publishErased (\<lambda>e. e \<noteq> 0) 5 demoBus))
     \<and> totalHandlerFailures (snd (publishErased (\<lambda>e. e \<noteq> 0) 5 demoBus)) = 1"
proof -
  let ?r = "publishErased (\<lambda>e. e \<noteq> 0) 5 demoBus"
  have c: "fst ?r = [0, 2]" "totalHandlerFailures demoBus = 0" by code_simp+
  then have r: "?r = ([0, 2], snd ?r)" by (metis prod.collapse)
  show ?thesis using publish_isolated [OF r] r c(2) by simp
qed

subsection \<open>Concurrent invocation and cancellation of one entry\<close>

text \<open>
  \<open>stack\<close> lists the threads inside the handler, once per nested invocation; \<open>draining\<close> the
  threads waiting in \<open>cancelAndDrain\<close> and \<open>returned\<close> those that came back from it.
\<close>

record EntrySystem =
  ent :: Entry
  stack :: "nat list"
  draining :: "nat list"
  returned :: "nat list"

inductive entryStep :: "EntrySystem \<Rightarrow> EntrySystem \<Rightarrow> bool" where
  enter: "beginInvoke t (ent x) = (True, e) \<Longrightarrow> entryStep x (x\<lparr>ent := e, stack := t # stack x\<rparr>)"
| refused: "beginInvoke t (ent x) = (False, e) \<Longrightarrow> entryStep x (x\<lparr>ent := e\<rparr>)"
| finish: "t \<in> set (stack x) \<Longrightarrow> entryStep x (x\<lparr>ent := endInvoke t (ent x), stack := remove1 t (stack x)\<rparr>)"
| cancel: "entryStep x (x\<lparr>ent := cancelEntry (ent x), draining := t # draining x\<rparr>)"
| drain: "t \<in> set (draining x) \<Longrightarrow> drained t (ent x)
     \<Longrightarrow> entryStep x (x\<lparr>draining := remove1 t (draining x), returned := t # returned x\<rparr>)"

inductive_cases entryStepE: "entryStep x y"

definition startEntrySystem :: EntrySystem where
  "startEntrySystem = \<lparr>ent = newEntry, stack = [], draining = [], returned = []\<rparr>"

definition entry_inv :: "EntrySystem \<Rightarrow> bool" where
  "entry_inv x \<longleftrightarrow> active (ent x) = int (length (stack x))
     \<and> (\<forall>t. activeByThread (ent x) t
          = (if t \<in> set (stack x) then Some (int (count_list (stack x) t)) else None))
     \<and> (draining x @ returned x \<noteq> [] \<longrightarrow> \<not> accepting (ent x))
     \<and> (\<forall>t \<in> set (returned x). \<forall>u \<in> set (stack x). u = t)"

lemma count_remove1: "count_list (remove1 t xs) u = count_list xs u - (if u = t \<and> t \<in> set xs then 1 else 0)"
  by (induction xs) (auto simp: count_list_0_iff)

lemma endInvoke_counts:
  assumes inv: "entry_inv x" and t: "t \<in> set (stack x)"
  shows "active (endInvoke t (ent x)) = int (length (remove1 t (stack x)))"
    "activeByThread (endInvoke t (ent x)) u
       = (if u \<in> set (remove1 t (stack x)) then Some (int (count_list (remove1 t (stack x)) u)) else None)"
proof -
  have len: "active (ent x) = int (length (stack x))" "0 < length (stack x)"
    and cnt: "activeByThread (ent x) u = (if u \<in> set (stack x) then Some (int (count_list (stack x) u)) else None)" for u
    using inv t by (auto simp: entry_inv_def)
  have c0: "0 < count_list (stack x) t" using t by (simp add: count_list_0_iff zero_less_iff_neq_zero)
  have mem: "u \<in> set (remove1 t (stack x)) \<longleftrightarrow> 0 < count_list (remove1 t (stack x)) u" for u
    by (metis count_list_0_iff gr_zeroI less_numeral_extra(3))
  show "active (endInvoke t (ent x)) = int (length (remove1 t (stack x)))"
  proof -
    have "active (endInvoke t (ent x)) = int (length (stack x)) - 1"
      using len by (simp add: endInvoke_def Let_def)
    moreover have "length (remove1 t (stack x)) = length (stack x) - 1"
      using t by (simp add: length_remove1)
    ultimately show ?thesis using len(2) by linarith
  qed
  show "activeByThread (endInvoke t (ent x)) u
       = (if u \<in> set (remove1 t (stack x)) then Some (int (count_list (remove1 t (stack x)) u)) else None)"
  proof (cases "u = t")
    case True
    then show ?thesis
      using cnt [of t] t c0 by (auto simp: mem count_remove1 endInvoke_def Let_def)
  next
    case False
    then show ?thesis
      using cnt [of u] cnt [of t] t by (auto simp: endInvoke_def Let_def count_remove1)
  qed
qed

lemma count_all: "length xs \<le> count_list xs t \<Longrightarrow> u \<in> set xs \<Longrightarrow> u = t"
proof (induction xs)
  case (Cons x xs)
  have "count_list xs t \<le> length xs" by (rule count_le_length)
  with Cons show ?case by (auto split: if_splits)
qed simp

lemma drained_alone:
  assumes "entry_inv x" "drained t (ent x)" "u \<in> set (stack x)"
  shows "u = t"
proof (rule count_all [OF _ assms(3)])
  show "length (stack x) \<le> count_list (stack x) t"
    using assms(1,2) by (auto simp: entry_inv_def drained_def selfActive_def split: if_splits)
qed

lemma entryStep_inv:
  assumes inv: "entry_inv x" and step: "entryStep x y"
  shows "entry_inv y"
  using step
proof (cases rule: entryStep.cases)
  case (finish t)
  then show ?thesis
    using inv endInvoke_counts [OF inv finish(2)] set_remove1_subset [of t "stack x"]
    by (auto simp: entry_inv_def) (auto simp: endInvoke_def Let_def)
next
  case (drain t)
  then show ?thesis
    using inv drained_alone [OF inv drain(3)] by (auto simp: entry_inv_def)
qed (use inv in \<open>auto simp: entry_inv_def beginInvoke_def selfActive_def cancelEntry_def split: if_splits\<close>)

interpretation entry: transition_system "\<lambda>x. x = startEntrySystem" entryStep entry_inv
proof unfold_locales
  show "x = startEntrySystem \<Longrightarrow> entry_inv x" for x
    by (simp add: entry_inv_def startEntrySystem_def newEntry_def)
qed (rule entryStep_inv)

text \<open>C11: cancellation is a barrier.  Once \<open>cancelAndDrain\<close> has returned on a thread, no other
  thread is inside the handler and no invocation can begin any more, in every later state; the
  cancelling thread itself may still be inside its own nested invocations.\<close>

theorem cancel_is_barrier:
  assumes "reach (\<lambda>x. x = startEntrySystem) entryStep x" "t \<in> set (returned x)"
  shows "(\<forall>u \<in> set (stack x). u = t) \<and> fst (beginInvoke u (ent x)) = False
     \<and> (\<forall>y. entryStep\<^sup>*\<^sup>* x y \<longrightarrow> (\<forall>u \<in> set (stack y). u = t) \<and> \<not> accepting (ent y))"
proof -
  have keep: "t \<in> set (returned y)" if "entryStep\<^sup>*\<^sup>* x y" for y
    using that assms(2) by (induction rule: rtranclp_induct) (auto elim!: entryStepE)
  have inv: "entry_inv y" if "entryStep\<^sup>*\<^sup>* x y" for y
    using entry.run_inv [OF entry.reach_inv [OF assms(1)] that] .
  have bar: "(\<forall>u \<in> set (stack y). u = t) \<and> \<not> accepting (ent y)" if "entryStep\<^sup>*\<^sup>* x y" for y
    using inv [OF that] keep [OF that] by (auto simp: entry_inv_def)
  then show ?thesis using bar [of x] by (auto simp: beginInvoke_def)
qed

text \<open>Thread 1 publishes, thread 2 cancels and waits until thread 1 has left the handler.\<close>

theorem cancel_is_barrier_witness:
  "\<exists>x. reach (\<lambda>x. x = startEntrySystem) entryStep x \<and> returned x = [2] \<and> stack x = [] \<and> \<not> fst (beginInvoke 3 (ent x))"
proof -
  let ?i = "\<lambda>x. x = startEntrySystem"
  define a where "a = startEntrySystem\<lparr>ent := snd (beginInvoke 1 newEntry), stack := [1]\<rparr>"
  define b where "b = a\<lparr>ent := cancelEntry (ent a), draining := [2]\<rparr>"
  define c where "c = b\<lparr>ent := endInvoke 1 (ent b), stack := []\<rparr>"
  define d where "d = c\<lparr>draining := [], returned := [2]\<rparr>"
  have "entryStep startEntrySystem a"
    using entryStep.enter [of 1 startEntrySystem "snd (beginInvoke 1 newEntry)"]
    by (simp add: a_def startEntrySystem_def beginInvoke_def newEntry_def)
  then have "reach ?i entryStep a" by (auto intro: reach_step reach_init)
  moreover have "entryStep a b"
    using entryStep.cancel [of a 2] by (simp add: b_def a_def startEntrySystem_def)
  ultimately have "reach ?i entryStep b" by (rule reach_step)
  moreover have "entryStep b c"
    using entryStep.finish [of 1 b] by (simp add: c_def b_def a_def)
  ultimately have "reach ?i entryStep c" by (rule reach_step)
  moreover have "drained 2 (ent c)" by (simp add: c_def b_def a_def) code_simp
  then have "entryStep c d"
    using entryStep.drain [of 2 c] by (simp add: d_def c_def b_def a_def startEntrySystem_def)
  ultimately have r: "reach ?i entryStep d" by (rule reach_step)
  then show ?thesis
    using cancel_is_barrier [OF r, of 2 3] by (intro exI [of _ d]) (simp add: d_def c_def)
qed

end
