(* ===== verification/Heartbeat_Command.thy ===== *)
theory Heartbeat_Command
  imports Transport_Types
begin

text \<open>
  The modules \<open>Heartbeat\<close> (\<open>src/Heartbeat.cpp\<close>), a constant payload written periodically, and
  \<open>Command\<close> (\<open>src/Command.cpp\<close>), a one-shot sequence of writes.
\<close>

subsection \<open>Heartbeat\<close>

record HeartbeatConfig =
  hbc_moduleId :: qstring
  hbc_table :: RegisterType
  hbc_address :: int
  hbc_values :: "u16 list"
  hbc_periodMs :: int
  hbc_priority :: Priority

record Heartbeat =
  hb_cfg :: HeartbeatConfig
  hb_started :: bool
  hb_lastSentAt :: time_ns
  hb_inFlight :: bool

definition heartbeat :: "HeartbeatConfig \<Rightarrow> Heartbeat" where
  "heartbeat c = \<lparr>hb_cfg = c, hb_started = False, hb_lastSentAt = 0, hb_inFlight = False\<rparr>"

definition heartbeatBatch :: "Heartbeat \<Rightarrow> WriteBatch" where
  "heartbeatBatch h = \<lparr>wr_table = hbc_table (hb_cfg h), wr_startAddress = hbc_address (hb_cfg h),
     wr_values = hbc_values (hb_cfg h)\<rparr>"

definition heartbeatTag :: "Heartbeat \<Rightarrow> RequestTag" where
  "heartbeatTag h = \<lparr>tag_moduleId = hbc_moduleId (hb_cfg h), tag_priority = hbc_priority (hb_cfg h),
     tag_interruptable = False\<rparr>"

definition heartbeatTooSoon :: "time_ns \<Rightarrow> Heartbeat \<Rightarrow> bool" where
  "heartbeatTooSoon now h =
     (0 < hbc_periodMs (hb_cfg h) \<and> duration_ms (now - hb_lastSentAt h) < hbc_periodMs (hb_cfg h))"

definition heartbeatOnTick :: "time_ns \<Rightarrow> (RequestTag \<Rightarrow> SubmitResult) \<Rightarrow> (WriteBatch \<Rightarrow> WriteResult)
    \<Rightarrow> Heartbeat \<Rightarrow> SubmitResult \<times> Heartbeat" where
  "heartbeatOnTick now submit write h =
     (if \<not> hb_started h then (rejectWith ResultKind.Cancelled ''module not started'', h)
      else if heartbeatTooSoon now h
      then (\<lparr>res_kind = ResultKind.Ok, res_errorMessage = ''not yet'', res_latencyMs = 0\<rparr>, h)
      else let submission = submit (heartbeatTag h)
           in if res_kind submission = ResultKind.Ok
              then let r = write (heartbeatBatch h)
                   in ((if wres_ok r then submission
                        else submission\<lparr>res_kind := ResultKind.Error, res_errorMessage := wres_errorMessage r\<rparr>),
                       h\<lparr>hb_lastSentAt := now\<rparr>)
              else (submission, h))"

text \<open>
  \<open>driveTick\<close>.  The write may complete on another thread before \<open>submitAsync\<close> returns, hence the
  argument \<open>early\<close>: whether the completion has already released the guard.
\<close>

definition heartbeatDriveTick :: "time_ns \<Rightarrow> bool \<Rightarrow> bool \<Rightarrow> Heartbeat \<Rightarrow> WriteBatch option \<times> Heartbeat" where
  "heartbeatDriveTick now accepted early h =
     (if \<not> hb_started h then (None, h)
      else if heartbeatTooSoon now h then (None, h)
      else if hb_inFlight h then (None, h)
      else if accepted then (Some (heartbeatBatch h), h\<lparr>hb_inFlight := \<not> early, hb_lastSentAt := now\<rparr>)
      else (None, h\<lparr>hb_inFlight := False\<rparr>))"

definition heartbeatDone :: "Heartbeat \<Rightarrow> Heartbeat" where
  "heartbeatDone h = h\<lparr>hb_inFlight := False\<rparr>"

definition heartbeatStart :: "Heartbeat \<Rightarrow> Heartbeat" where
  "heartbeatStart h = h\<lparr>hb_started := True, hb_lastSentAt := 0\<rparr>"

definition heartbeatStop :: "Heartbeat \<Rightarrow> Heartbeat" where
  "heartbeatStop h = h\<lparr>hb_started := False\<rparr>"

definition heartbeatResume :: "Heartbeat \<Rightarrow> Heartbeat" where
  "heartbeatResume h = h\<lparr>hb_started := True\<rparr>"

text \<open>A run of the module; \<open>sent\<close> lists the times of the writes since the last start, newest first.\<close>

record HeartbeatRun =
  hb :: Heartbeat
  sent :: "time_ns list"

datatype HeartbeatEvent = BeatTick time_ns bool bool | BeatDone | BeatStart | BeatStop | BeatResume

fun beatEvent :: "HeartbeatEvent \<Rightarrow> HeartbeatRun \<Rightarrow> HeartbeatRun" where
  "beatEvent (BeatTick now accepted early) x =
     (case heartbeatDriveTick now accepted early (hb x) of
        (None, h) \<Rightarrow> x\<lparr>hb := h\<rparr>
      | (Some _, h) \<Rightarrow> x\<lparr>hb := h, sent := now # sent x\<rparr>)"
| "beatEvent BeatDone x = x\<lparr>hb := heartbeatDone (hb x)\<rparr>"
| "beatEvent BeatStart x = x\<lparr>hb := heartbeatStart (hb x), sent := []\<rparr>"
| "beatEvent BeatStop x = x\<lparr>hb := heartbeatStop (hb x)\<rparr>"
| "beatEvent BeatResume x = x\<lparr>hb := heartbeatResume (hb x)\<rparr>"

fun spaced :: "int \<Rightarrow> time_ns list \<Rightarrow> bool" where
  "spaced p (a # b # r) = (milliseconds p \<le> a - b \<and> spaced p (b # r))"
| "spaced p _ = True"

definition beat_inv :: "HeartbeatConfig \<Rightarrow> HeartbeatRun \<Rightarrow> bool" where
  "beat_inv c x \<longleftrightarrow> hb_cfg (hb x) = c \<and> (\<forall>t ts. sent x = t # ts \<longrightarrow> hb_lastSentAt (hb x) = t)
     \<and> (0 < hbc_periodMs c \<longrightarrow> spaced (hbc_periodMs c) (sent x))"

lemma tooSoon_spaced:
  assumes "0 < p" "\<not> duration_ms d < p" shows "milliseconds p \<le> d"
proof (cases "0 \<le> d")
  case True
  then show ?thesis using duration_ms_ge_iff [of p d] assms by simp
next
  case False
  then have "duration_ms d \<le> 0" by (auto simp: duration_ms_def sgn_if)
  then show ?thesis using assms by simp
qed

lemma beatEvent_inv: "beat_inv c x \<Longrightarrow> beat_inv c (beatEvent ev x)"
proof (cases ev)
  case (BeatTick now accepted early)
  assume inv: "beat_inv c x"
  show ?thesis
  proof (cases "fst (heartbeatDriveTick now accepted early (hb x))")
    case None
    then have "hb_lastSentAt (snd (heartbeatDriveTick now accepted early (hb x))) = hb_lastSentAt (hb x)"
      "hb_cfg (snd (heartbeatDriveTick now accepted early (hb x))) = hb_cfg (hb x)"
      by (auto simp: heartbeatDriveTick_def split: if_splits)
    then show ?thesis using None inv BeatTick by (auto simp: beat_inv_def split: prod.splits)
  next
    case (Some b)
    then have g: "\<not> heartbeatTooSoon now (hb x)"
      and h: "snd (heartbeatDriveTick now accepted early (hb x)) = (hb x)\<lparr>hb_inFlight := \<not> early, hb_lastSentAt := now\<rparr>"
      by (auto simp: heartbeatDriveTick_def split: if_splits)
    have sp: "milliseconds (hbc_periodMs c) \<le> now - hb_lastSentAt (hb x)" if "0 < hbc_periodMs c"
      using g that inv tooSoon_spaced by (auto simp: heartbeatTooSoon_def beat_inv_def)
    show ?thesis
      using Some h inv BeatTick sp by (cases "sent x") (auto simp: beat_inv_def split: prod.splits)
  qed
qed (auto simp: beat_inv_def heartbeatDone_def heartbeatStart_def heartbeatStop_def heartbeatResume_def)

text \<open>Heartbeats of one run are spaced by at least the configured period, whatever the tick
  times and the answers of the scheduler; stopping, pausing and resuming do not break the spacing.\<close>

theorem heartbeat_spacing:
  assumes "0 < hbc_periodMs c"
  shows "spaced (hbc_periodMs c) (sent (fold beatEvent evs \<lparr>hb = heartbeat c, sent = []\<rparr>))"
proof -
  have "beat_inv c (fold beatEvent evs \<lparr>hb = heartbeat c, sent = []\<rparr>)"
  proof (rule fold_invariant [where P = "beat_inv c"])
    show "beat_inv c \<lparr>hb = heartbeat c, sent = []\<rparr>" by (simp add: beat_inv_def heartbeat_def)
  qed (rule beatEvent_inv)
  then show ?thesis using assms by (simp add: beat_inv_def)
qed

definition demoBeat :: HeartbeatConfig where
  "demoBeat = \<lparr>hbc_moduleId = ''hb'', hbc_table = HoldingRegisters, hbc_address = 5, hbc_values = [1],
     hbc_periodMs = 1000, hbc_priority = Priority_Low\<rparr>"

definition demoBeatEvents :: "HeartbeatEvent list" where
  "demoBeatEvents = [BeatStart, BeatTick 5000000000 True True, BeatTick 5500000000 True True,
     BeatTick 6000000000 True False, BeatTick 7000000000 True True, BeatDone, BeatTick 7100000000 True True]"

theorem heartbeat_spacing_witness:
  "sent (fold beatEvent demoBeatEvents \<lparr>hb = heartbeat demoBeat, sent = []\<rparr>) = [7100000000, 6000000000, 5000000000]
     \<and> spaced 1000 [7100000000, 6000000000, 5000000000]"
proof -
  have "sent (fold beatEvent demoBeatEvents \<lparr>hb = heartbeat demoBeat, sent = []\<rparr>) = [7100000000, 6000000000, 5000000000]"
    "hbc_periodMs demoBeat = 1000" by code_simp+
  then show ?thesis using heartbeat_spacing [of demoBeat demoBeatEvents] by simp
qed

subsection \<open>Command\<close>

record CommandEntry =
  ce_table :: RegisterType
  ce_address :: int
  ce_value :: u16

record CommandConfig =
  cmd_moduleId :: qstring
  cmd_priority :: Priority
  cmd_interruptable :: bool
  cmd_writes :: "CommandEntry list"

definition commandBatch :: "CommandEntry \<Rightarrow> WriteBatch" where
  "commandBatch e = \<lparr>wr_table = ce_table e, wr_startAddress = ce_address e, wr_values = [ce_value e]\<rparr>"

definition commandTag :: "CommandConfig \<Rightarrow> RequestTag" where
  "commandTag c = \<lparr>tag_moduleId = cmd_moduleId c, tag_priority = cmd_priority c, tag_interruptable = cmd_interruptable c\<rparr>"

definition noWrite :: WriteResult where
  "noWrite = \<lparr>wres_ok = False, wres_errorMessage = []\<rparr>"

text \<open>
  \<open>execute\<close>: \<open>answer batch\<close> gives the scheduler's result and the result the work stored, which
  stays default constructed when the work did not run.
\<close>

fun commandLoop :: "(WriteBatch \<Rightarrow> SubmitResult \<times> WriteResult option) \<Rightarrow> CommandEntry list \<Rightarrow> SubmitResult
    \<Rightarrow> WriteBatch list \<times> SubmitResult" where
  "commandLoop answer [] firstFailure = ([], firstFailure)"
| "commandLoop answer (e # es) firstFailure =
     (let batch = commandBatch e;
          (submission, w) = answer batch;
          write = (case w of None \<Rightarrow> noWrite | Some w \<Rightarrow> w);
          ff = (if res_kind submission \<noteq> ResultKind.Ok \<and> res_kind firstFailure = ResultKind.Ok then submission
                else if \<not> wres_ok write \<and> res_kind firstFailure = ResultKind.Ok
                then \<lparr>res_kind = ResultKind.Error, res_errorMessage = wres_errorMessage write,
                      res_latencyMs = res_latencyMs submission\<rparr>
                else firstFailure);
          (batches, r) = commandLoop answer es ff
      in (batch # batches, r))"

definition execute :: "(WriteBatch \<Rightarrow> SubmitResult \<times> WriteResult option) \<Rightarrow> CommandConfig \<Rightarrow> WriteBatch list \<times> SubmitResult" where
  "execute answer c = commandLoop answer (cmd_writes c) (okResult 0)"

definition executeAsync :: "CommandConfig \<Rightarrow> (RequestTag \<times> WriteBatch) list" where
  "executeAsync c = map (\<lambda>e. (commandTag c, commandBatch e)) (cmd_writes c)"

text \<open>The outcome of one write.\<close>

definition writeOutcome :: "SubmitResult \<times> WriteResult option \<Rightarrow> SubmitResult option" where
  "writeOutcome a =
     (let write = (case snd a of None \<Rightarrow> noWrite | Some w \<Rightarrow> w)
      in if res_kind (fst a) \<noteq> ResultKind.Ok then Some (fst a)
         else if \<not> wres_ok write
         then Some \<lparr>res_kind = ResultKind.Error, res_errorMessage = wres_errorMessage write,
                    res_latencyMs = res_latencyMs (fst a)\<rparr>
         else None)"

lemma commandLoop_spec:
  "commandLoop answer es ff = (bs, r) \<Longrightarrow> bs = map commandBatch es
     \<and> r = (if res_kind ff \<noteq> ResultKind.Ok then ff
            else case filter (\<lambda>o'. o' \<noteq> None) (map (writeOutcome \<circ> answer \<circ> commandBatch) es) of
                   Some f # _ \<Rightarrow> f | _ \<Rightarrow> ff)"
proof (induction es arbitrary: ff bs r)
  case (Cons e es)
  define o' where "o' = writeOutcome (answer (commandBatch e))"
  define ff' where "ff' = (case o' of Some f \<Rightarrow> if res_kind ff = ResultKind.Ok then f else ff | None \<Rightarrow> ff)"
  have bad: "res_kind f \<noteq> ResultKind.Ok" if "o' = Some f" for f
    using that by (auto simp: o'_def writeOutcome_def Let_def split: if_splits)
  obtain sub w where a: "answer (commandBatch e) = (sub, w)" by fastforce
  have "commandLoop answer (e # es) ff = (case commandLoop answer es ff' of (bs', r) \<Rightarrow> (commandBatch e # bs', r))"
    unfolding ff'_def o'_def
    by (cases "res_kind ff = ResultKind.Ok"; cases "res_kind sub = ResultKind.Ok"; cases w)
      (simp_all add: a writeOutcome_def Let_def split: option.splits)
  then obtain bs' where "commandLoop answer es ff' = (bs', r)" and bs: "bs = commandBatch e # bs'"
    using Cons.prems by (auto split: prod.splits)
  note IH = Cons.IH [OF this(1)]
  show ?case
  proof (cases o')
    case None
    then have "ff' = ff" by (simp add: ff'_def)
    with None show ?thesis using IH bs by (auto simp: o'_def [symmetric])
  next
    case (Some f)
    then have "ff' = (if res_kind ff = ResultKind.Ok then f else ff)" by (simp add: ff'_def)
    with IH bs Some bad show ?thesis by (auto simp: o'_def [symmetric])
  qed
qed simp

text \<open>A command attempts every configured write, in order, whether or not earlier ones failed,
  and returns the outcome of the first failing write, or Ok when all succeeded.\<close>

theorem command_first_failure:
  assumes "execute answer c = (batches, r)"
  shows "batches = map commandBatch (cmd_writes c)
     \<and> (res_kind r = ResultKind.Ok \<longleftrightarrow> (\<forall>e \<in> set (cmd_writes c). writeOutcome (answer (commandBatch e)) = None))
     \<and> (res_kind r \<noteq> ResultKind.Ok \<longrightarrow>
          (\<exists>pre e post. cmd_writes c = pre @ e # post \<and> writeOutcome (answer (commandBatch e)) = Some r
             \<and> (\<forall>x \<in> set pre. writeOutcome (answer (commandBatch x)) = None)))"
proof -
  let ?f = "writeOutcome \<circ> answer \<circ> commandBatch"
  have bad: "res_kind x \<noteq> ResultKind.Ok" if "writeOutcome a = Some x" for a x
    using that by (auto simp: writeOutcome_def Let_def split: if_splits)
  note spec = commandLoop_spec [OF assms [unfolded execute_def]]
  show ?thesis
  proof (cases "\<forall>e \<in> set (cmd_writes c). ?f e = None")
    case True
    then have "filter (\<lambda>o'. o' \<noteq> None) (map ?f (cmd_writes c)) = []" by (auto simp: filter_empty_conv)
    then show ?thesis using spec True by (simp add: okResult_def)
  next
    case False
    then obtain pre e post where s: "cmd_writes c = pre @ e # post" "?f e \<noteq> None" "\<forall>x \<in> set pre. ?f x = None"
      using split_list_first_prop [of "cmd_writes c" "\<lambda>e. ?f e \<noteq> None"] by auto
    then obtain x where x: "?f e = Some x" by auto
    have "filter (\<lambda>o'. o' \<noteq> None) (map ?f pre) = []" using s(3) by (auto simp: filter_empty_conv)
    then have "r = x" using spec s(1) x by (simp add: okResult_def)
    then show ?thesis using spec s x bad [of "answer (commandBatch e)" x] by auto
  qed
qed

definition demoCommand :: CommandConfig where
  "demoCommand = \<lparr>cmd_moduleId = ''stop'', cmd_priority = Priority_Critical, cmd_interruptable = False,
     cmd_writes = [\<lparr>ce_table = HoldingRegisters, ce_address = 1, ce_value = 0\<rparr>,
                   \<lparr>ce_table = HoldingRegisters, ce_address = 2, ce_value = 9\<rparr>]\<rparr>"

definition demoAnswer :: "WriteBatch \<Rightarrow> SubmitResult \<times> WriteResult option" where
  "demoAnswer b = (if wr_startAddress b = 1 then (rejectWith CircuitOpen ''circuit open'', None)
     else (okResult 3, Some \<lparr>wres_ok = True, wres_errorMessage = []\<rparr>))"

theorem command_first_failure_witness:
  "length (fst (execute demoAnswer demoCommand)) = 2 \<and> res_kind (snd (execute demoAnswer demoCommand)) = CircuitOpen"
proof -
  have "res_kind (snd (execute demoAnswer demoCommand)) = CircuitOpen" "length (cmd_writes demoCommand) = 2"
    by code_simp+
  moreover obtain bs r where "execute demoAnswer demoCommand = (bs, r)" by fastforce
  ultimately show ?thesis using command_first_failure [of demoAnswer demoCommand bs r] by simp
qed

end
