(* ===== verification/Ack_Watch.thy ===== *)
theory Ack_Watch
  imports Field_Prelude
begin

text \<open>
  Waiting for an acknowledgement (\<open>src/AckWatch.cpp\<close>): one call of \<open>waitOnce\<close> against the
  bus handler, \<open>cancel\<close> and the timeout.  A condition variable wakes only threads that are
  already blocked; the predicate is evaluated with the waiter's mutex held, and blocking
  releases the mutex atomically.  The handler stores \<open>matched\<close> under that mutex, \<open>cancel\<close>
  stores \<open>cancelled\<close> without it.
\<close>

datatype AckResult = AckOk | AckTimeout | AckCancelled

text \<open>
  Positions of \<open>waitOnce\<close>: before the first test of \<open>cancelled\<close>; subscribed, before the mutex is
  taken; holding the mutex before and after a false predicate; blocked; out of \<open>wait_for\<close> with its
  result (mutex still held to read \<open>matched\<close>); returned.
\<close>

datatype WaitPc = WEntry | WSubscribed | WLocked | WDecided | WBlocked | WOut bool | WUnlocked bool bool | WReturned AckResult

record AckSystem =
  matched :: bool
  cancelled :: bool
  wpc :: WaitPc
  handlerNotifies :: nat
  cancelNotifies :: nat
  activeWaits :: nat

definition startAck :: AckSystem where
  "startAck = \<lparr>matched = False, cancelled = False, wpc = WEntry, handlerNotifies = 0, cancelNotifies = 0, activeWaits = 0\<rparr>"

definition holdsMutex :: "WaitPc \<Rightarrow> bool" where
  "holdsMutex p = (case p of WLocked \<Rightarrow> True | WDecided \<Rightarrow> True | WOut _ \<Rightarrow> True | _ \<Rightarrow> False)"

definition wake :: "AckSystem \<Rightarrow> AckSystem" where
  "wake x = (if wpc x = WBlocked then x\<lparr>wpc := WLocked\<rparr> else x)"

text \<open>The final decision of \<open>waitOnce\<close>.\<close>

definition ackResult :: "bool \<Rightarrow> bool \<Rightarrow> bool \<Rightarrow> AckResult" where
  "ackResult wasCancelled got isMatched =
     (if wasCancelled then AckCancelled else if \<not> got \<or> \<not> isMatched then AckTimeout else AckOk)"

datatype AckEvent =
    EnterEv
  | CurrentValueEv bool
  | PredicateEv
  | BlockEv
  | TimeoutEv
  | SpuriousEv
  | ReadMatchedEv
  | ReturnEv
  | HandlerEv
  | HandlerNotifyEv
  | CancelEv
  | CancelNotifyEv
  | ResumeEv

text \<open>\<open>HandlerEv\<close> is a \<open>DpChanged\<close> event whose id and value match.\<close>

fun ackEvent :: "AckEvent \<Rightarrow> AckSystem \<Rightarrow> AckSystem option" where
  "ackEvent EnterEv x =
     (if wpc x = WEntry
      then Some (if cancelled x then x\<lparr>wpc := WReturned AckCancelled\<rparr>
                 else x\<lparr>wpc := WSubscribed, activeWaits := activeWaits x + 1\<rparr>)
      else None)"
| "ackEvent (CurrentValueEv current) x =
     (if wpc x = WSubscribed then Some (x\<lparr>matched := matched x \<or> current, wpc := WLocked\<rparr>) else None)"
| "ackEvent PredicateEv x =
     (if wpc x = WLocked
      then Some (if matched x \<or> cancelled x then x\<lparr>wpc := WOut True\<rparr> else x\<lparr>wpc := WDecided\<rparr>)
      else None)"
| "ackEvent BlockEv x = (if wpc x = WDecided then Some (x\<lparr>wpc := WBlocked\<rparr>) else None)"
| "ackEvent TimeoutEv x =
     (if wpc x = WBlocked then Some (x\<lparr>wpc := WOut (matched x \<or> cancelled x)\<rparr>) else None)"
| "ackEvent SpuriousEv x = (if wpc x = WBlocked then Some (wake x) else None)"
| "ackEvent ReadMatchedEv x =
     (case wpc x of WOut got \<Rightarrow> Some (x\<lparr>wpc := WUnlocked got (matched x)\<rparr>) | _ \<Rightarrow> None)"
| "ackEvent ReturnEv x =
     (case wpc x of
        WUnlocked got m \<Rightarrow> Some (x\<lparr>wpc := WReturned (ackResult (cancelled x) got m), activeWaits := activeWaits x - 1\<rparr>)
      | _ \<Rightarrow> None)"
| "ackEvent HandlerEv x =
     (if holdsMutex (wpc x) \<or> wpc x = WEntry then None
      else Some (x\<lparr>matched := True, handlerNotifies := handlerNotifies x + 1\<rparr>))"
| "ackEvent HandlerNotifyEv x =
     (if 0 < handlerNotifies x then Some (wake (x\<lparr>handlerNotifies := handlerNotifies x - 1\<rparr>)) else None)"
| "ackEvent CancelEv x = Some (x\<lparr>cancelled := True, cancelNotifies := cancelNotifies x + 1\<rparr>)"
| "ackEvent CancelNotifyEv x =
     (if 0 < cancelNotifies x then Some (wake (x\<lparr>cancelNotifies := cancelNotifies x - 1\<rparr>)) else None)"
| "ackEvent ResumeEv x = Some (x\<lparr>cancelled := False\<rparr>)"

fun ackEvents :: "AckEvent list \<Rightarrow> AckSystem \<Rightarrow> AckSystem option" where
  "ackEvents [] x = Some x"
| "ackEvents (ev # evs) x = (case ackEvent ev x of None \<Rightarrow> None | Some y \<Rightarrow> ackEvents evs y)"

inductive ackStep :: "AckSystem \<Rightarrow> AckSystem \<Rightarrow> bool" where
  "ackEvent ev x = Some y \<Longrightarrow> ackStep x y"

definition ack_inv :: "AckSystem \<Rightarrow> bool" where
  "ack_inv x \<longleftrightarrow> (wpc x = WDecided \<longrightarrow> \<not> matched x)
     \<and> (wpc x = WBlocked \<and> matched x \<longrightarrow> 0 < handlerNotifies x)
     \<and> (wpc x = WEntry \<longrightarrow> \<not> matched x)
     \<and> (\<forall>got m. wpc x = WUnlocked got m \<and> m \<longrightarrow> matched x)
     \<and> (wpc x = WReturned AckOk \<longrightarrow> matched x)
     \<and> activeWaits x = (case wpc x of WEntry \<Rightarrow> 0 | WReturned _ \<Rightarrow> 0 | _ \<Rightarrow> 1)"

lemma ackEvent_inv: "ack_inv x \<Longrightarrow> ackEvent ev x = Some y \<Longrightarrow> ack_inv y"
  by (cases ev; cases "wpc x")
    (auto simp: ack_inv_def wake_def holdsMutex_def ackResult_def split: if_splits)

interpretation ack: transition_system "\<lambda>x. x = startAck" ackStep ack_inv
proof unfold_locales
  show "x = startAck \<Longrightarrow> ack_inv x" for x by (simp add: ack_inv_def startAck_def)
next
  show "ack_inv x \<Longrightarrow> ackStep x y \<Longrightarrow> ack_inv y" for x y
    by (auto elim!: ackStep.cases intro: ackEvent_inv)
qed

lemma ackEvents_reach:
  "reach (\<lambda>x. x = startAck) ackStep x \<Longrightarrow> ackEvents evs x = Some y \<Longrightarrow> reach (\<lambda>x. x = startAck) ackStep y"
proof (induction evs arbitrary: x)
  case (Cons ev evs)
  from Cons.prems(2) obtain z where "ackEvent ev x = Some z" "ackEvents evs z = Some y"
    by (auto split: option.splits)
  with Cons.IH [of z] reach_step [OF Cons.prems(1) ackStep.intros] show ?case by blast
qed simp

text \<open>No acknowledgement is missed.  In every interleaving a blocked waiter whose datapoint has
  matched is about to be notified, the call returns Ok only after a match was observed (by the
  subscription or in the current value), and the number of active waits is exact, which is what the
  destructor waits on.\<close>

theorem ack_not_missed:
  assumes "reach (\<lambda>x. x = startAck) ackStep x"
  shows "(wpc x = WBlocked \<and> matched x \<longrightarrow> 0 < handlerNotifies x)
     \<and> (wpc x = WReturned AckOk \<longrightarrow> matched x)
     \<and> (activeWaits x = 0 \<longleftrightarrow> wpc x = WEntry \<or> (\<exists>r. wpc x = WReturned r))"
  using ack.reach_inv [OF assms] by (cases "wpc x") (auto simp: ack_inv_def)

theorem ack_not_missed_witness:
  "\<exists>x. reach (\<lambda>x. x = startAck) ackStep x \<and> wpc x = WBlocked \<and> matched x \<and> 0 < handlerNotifies x"
proof -
  define x where "x = the (ackEvents [EnterEv, CurrentValueEv False, PredicateEv, BlockEv, HandlerEv] startAck)"
  have v: "wpc x = WBlocked" "matched x" unfolding x_def by code_simp+
  have "reach (\<lambda>x. x = startAck) ackStep x"
  proof (rule ackEvents_reach [OF reach_init])
    show "ackEvents [EnterEv, CurrentValueEv False, PredicateEv, BlockEv, HandlerEv] startAck = Some x"
      unfolding x_def by code_simp
  qed simp
  then show ?thesis using ack_not_missed v by blast
qed

text \<open>C13: a cancellation can be missed.  Because \<open>cancel\<close> stores its flag and notifies without
  holding the waiter's mutex, both can fall between the evaluation of the predicate and the moment
  the waiter blocks: the cancelled waiter then sleeps with no notification outstanding, until its
  timeout.\<close>

theorem ack_cancel_wakeup_lost:
  "\<exists>x. reach (\<lambda>x. x = startAck) ackStep x \<and> cancelled x \<and> wpc x = WBlocked
     \<and> cancelNotifies x = 0 \<and> handlerNotifies x = 0"
proof -
  define x where "x = the (ackEvents [EnterEv, CurrentValueEv False, PredicateEv, CancelEv, CancelNotifyEv, BlockEv] startAck)"
  have v: "cancelled x" "wpc x = WBlocked" "cancelNotifies x = 0" "handlerNotifies x = 0" unfolding x_def by code_simp+
  have "reach (\<lambda>x. x = startAck) ackStep x"
  proof (rule ackEvents_reach [OF reach_init])
    show "ackEvents [EnterEv, CurrentValueEv False, PredicateEv, CancelEv, CancelNotifyEv, BlockEv] startAck = Some x"
      unfolding x_def by code_simp
  qed simp
  then show ?thesis using v by blast
qed

end
