(* ===== verification/Module_Registry.thy ===== *)
theory Module_Registry
  imports Field_Prelude "HOL-Library.Char_ord" "HOL-Library.List_Lexorder"
begin

text \<open>
  The module registry and its tick driver (\<open>src/ModuleRegistry.cpp\<close>).  A functional module is
  seen through its interface: an id, a transport, a tick period and whether it is running; the
  life cycle calls it receives are recorded in order.  \<open>std::map\<close> is a list sorted by key.
\<close>

datatype LifecycleCall = CallStart | CallStop | CallPause | CallResume

record FunctionalModule =
  fm_id :: qstring
  fm_transportId :: qstring
  fm_tickPeriodMs :: int
  fm_calls :: "LifecycleCall list"

text \<open>A tick timer: the module it drives, its interval and whether it is active.\<close>

record TickTimer =
  tm_module :: qstring
  tm_interval :: int
  tm_active :: bool

text \<open>\<open>anchor\<close> is the timer parent; \<open>None\<close> is the null pointer.\<close>

record ModuleRegistry =
  modules :: "(qstring \<times> FunctionalModule) list"
  anchor :: "TickTimer list option"
  autoTick :: bool
  regStarted :: bool

definition moduleRegistry :: ModuleRegistry where
  "moduleRegistry = \<lparr>modules = [], anchor = None, autoTick = True, regStarted = False\<rparr>"

subsection \<open>The tick driver\<close>

definition tickStart :: "FunctionalModule \<Rightarrow> TickTimer list option \<Rightarrow> TickTimer list option" where
  "tickStart m a =
     (if fm_tickPeriodMs m \<le> 0 then a
      else Some ((case a of None \<Rightarrow> [] | Some ts \<Rightarrow> ts)
                 @ [\<lparr>tm_module = fm_id m, tm_interval = fm_tickPeriodMs m, tm_active = True\<rparr>]))"

definition tickStopAll :: "TickTimer list option \<Rightarrow> TickTimer list option" where
  "tickStopAll a = None"

definition forEachTimer :: "(TickTimer \<Rightarrow> TickTimer) \<Rightarrow> TickTimer list option \<Rightarrow> TickTimer list option" where
  "forEachTimer f a = map_option (map f) a"

definition tickPauseAll :: "TickTimer list option \<Rightarrow> TickTimer list option" where
  "tickPauseAll = forEachTimer (\<lambda>t. t\<lparr>tm_active := False\<rparr>)"

definition tickResumeAll :: "TickTimer list option \<Rightarrow> TickTimer list option" where
  "tickResumeAll = forEachTimer (\<lambda>t. if tm_active t then t else t\<lparr>tm_active := True\<rparr>)"

subsection \<open>The registry\<close>

definition registerModule :: "FunctionalModule option \<Rightarrow> ModuleRegistry \<Rightarrow> bool \<times> ModuleRegistry" where
  "registerModule md r =
     (case md of None \<Rightarrow> (False, r)
      | Some m \<Rightarrow>
        (if regStarted r then (False, r)
         else if blank (fm_id m) \<or> map_of (modules r) (fm_id m) \<noteq> None then (False, r)
         else (True, r\<lparr>modules := insort_key fst (fm_id m, m) (modules r)\<rparr>)))"

definition findModule :: "ModuleRegistry \<Rightarrow> qstring \<Rightarrow> FunctionalModule option" where
  "findModule r i = map_of (modules r) i"

definition byTransport :: "ModuleRegistry \<Rightarrow> qstring \<Rightarrow> FunctionalModule list" where
  "byTransport r t = filter (\<lambda>m. fm_transportId m = t) (map snd (modules r))"

definition allModules :: "ModuleRegistry \<Rightarrow> FunctionalModule list" where
  "allModules r = map snd (modules r)"

definition callAll :: "LifecycleCall \<Rightarrow> ModuleRegistry \<Rightarrow> ModuleRegistry" where
  "callAll c r = r\<lparr>modules := map (\<lambda>(i, m). (i, m\<lparr>fm_calls := fm_calls m @ [c]\<rparr>)) (modules r)\<rparr>"

definition startAll :: "ModuleRegistry \<Rightarrow> ModuleRegistry" where
  "startAll r =
     (if regStarted r then r
      else let r = callAll CallStart (r\<lparr>regStarted := True\<rparr>)
           in if autoTick r then r\<lparr>anchor := fold tickStart (allModules r) (anchor r)\<rparr> else r)"

definition stopAll :: "ModuleRegistry \<Rightarrow> ModuleRegistry" where
  "stopAll r = (callAll CallStop (r\<lparr>anchor := tickStopAll (anchor r)\<rparr>))\<lparr>regStarted := False\<rparr>"

definition pauseAll :: "ModuleRegistry \<Rightarrow> ModuleRegistry" where
  "pauseAll r = callAll CallPause (r\<lparr>anchor := tickPauseAll (anchor r)\<rparr>)"

definition resumeAll :: "ModuleRegistry \<Rightarrow> ModuleRegistry" where
  "resumeAll r = (let r = callAll CallResume r in if autoTick r then r\<lparr>anchor := tickResumeAll (anchor r)\<rparr> else r)"

definition setAutoTickEnabled :: "bool \<Rightarrow> ModuleRegistry \<Rightarrow> ModuleRegistry" where
  "setAutoTickEnabled on r = r\<lparr>autoTick := on\<rparr>"

subsection \<open>Timers never outlive their modules\<close>

datatype RegistryOp = OpRegister "FunctionalModule option" | OpStartAll | OpStopAll | OpPauseAll | OpResumeAll | OpAutoTick bool

fun registryOp :: "RegistryOp \<Rightarrow> ModuleRegistry \<Rightarrow> ModuleRegistry" where
  "registryOp (OpRegister m) r = snd (registerModule m r)"
| "registryOp OpStartAll r = startAll r"
| "registryOp OpStopAll r = stopAll r"
| "registryOp OpPauseAll r = pauseAll r"
| "registryOp OpResumeAll r = resumeAll r"
| "registryOp (OpAutoTick b) r = setAutoTickEnabled b r"

definition timersOf :: "ModuleRegistry \<Rightarrow> TickTimer list" where
  "timersOf r = (case anchor r of None \<Rightarrow> [] | Some ts \<Rightarrow> ts)"

definition timed :: "ModuleRegistry \<Rightarrow> FunctionalModule list" where
  "timed r = filter (\<lambda>m. 0 < fm_tickPeriodMs m) (allModules r)"

text \<open>
  Keys are the ids of their modules, sorted and non-blank; timers exist only between \<open>startAll\<close> and
  \<open>stopAll\<close>, one for each module with a positive period.
\<close>

definition registry_inv :: "ModuleRegistry \<Rightarrow> bool" where
  "registry_inv r \<longleftrightarrow> sorted (map fst (modules r)) \<and> distinct (map fst (modules r))
     \<and> (\<forall>(i, m) \<in> set (modules r). i = fm_id m \<and> \<not> blank i)
     \<and> (timersOf r \<noteq> [] \<longrightarrow> regStarted r
          \<and> map (\<lambda>t. (tm_module t, tm_interval t)) (timersOf r) = map (\<lambda>m. (fm_id m, fm_tickPeriodMs m)) (timed r))"

lemma fold_tickStart:
  "(case fold tickStart ms a of None \<Rightarrow> [] | Some ts \<Rightarrow> ts)
     = (case a of None \<Rightarrow> [] | Some ts \<Rightarrow> ts)
       @ map (\<lambda>m. \<lparr>tm_module = fm_id m, tm_interval = fm_tickPeriodMs m, tm_active = True\<rparr>)
           (filter (\<lambda>m. 0 < fm_tickPeriodMs m) ms)"
  by (induction ms arbitrary: a) (auto simp: tickStart_def)

lemma callAll_fields [simp]:
  "map fst (modules (callAll c r)) = map fst (modules r)" "anchor (callAll c r) = anchor r"
  "regStarted (callAll c r) = regStarted r" "autoTick (callAll c r) = autoTick r"
  "map (\<lambda>m. (fm_id m, fm_tickPeriodMs m)) (timed (callAll c r)) = map (\<lambda>m. (fm_id m, fm_tickPeriodMs m)) (timed r)"
  "(\<forall>(i, m) \<in> set (modules (callAll c r)). i = fm_id m \<and> \<not> blank i)
     \<longleftrightarrow> (\<forall>(i, m) \<in> set (modules r). i = fm_id m \<and> \<not> blank i)"
  by (auto simp: callAll_def timed_def allModules_def filter_map comp_def split_def)

lemma distinct_insort_fst:
  "distinct (map fst (insort_key fst x xs)) \<longleftrightarrow> fst x \<notin> fst ` set xs \<and> distinct (map fst xs)"
  by (induction xs) (auto simp: set_insort_key)

lemma registerModule_inv:
  assumes "registry_inv r" shows "registry_inv (snd (registerModule md r))"
proof (cases "fst (registerModule md r)")
  case False
  then have "snd (registerModule md r) = r"
    by (auto simp: registerModule_def split: option.splits)
  then show ?thesis using assms by simp
next
  case True
  then obtain m where m: "md = Some m" "\<not> regStarted r" "\<not> blank (fm_id m)" "map_of (modules r) (fm_id m) = None"
    by (auto simp: registerModule_def split: option.splits if_splits)
  let ?t = "r\<lparr>modules := insort_key fst (fm_id m, m) (modules r)\<rparr>"
  have s: "snd (registerModule md r) = ?t" using m by (simp add: registerModule_def)
  have "sorted (map fst (modules ?t))" using assms by (simp add: registry_inv_def sorted_insort_key)
  moreover have "distinct (map fst (modules ?t))"
    using assms m(4) by (simp add: registry_inv_def distinct_insort_fst map_of_eq_None_iff)
  moreover have "timersOf ?t = []" using assms m(2) by (auto simp: registry_inv_def timersOf_def)
  ultimately show ?thesis
    unfolding s using assms m(3) by (auto simp: registry_inv_def set_insort_key)
qed

lemma startAll_inv:
  assumes "registry_inv r" shows "registry_inv (startAll r)"
proof (cases "regStarted r")
  case False
  let ?r = "callAll CallStart (r\<lparr>regStarted := True\<rparr>)"
  have none: "timersOf r = []" using assms False by (auto simp: registry_inv_def)
  have "registry_inv ?r" using assms none by (auto simp: registry_inv_def timersOf_def timed_def allModules_def)
  moreover have "timersOf (?r\<lparr>anchor := fold tickStart (allModules ?r) (anchor ?r)\<rparr>)
      = map (\<lambda>m. \<lparr>tm_module = fm_id m, tm_interval = fm_tickPeriodMs m, tm_active = True\<rparr>) (timed ?r)"
    using none fold_tickStart [of "allModules ?r" "anchor ?r"] by (simp add: timersOf_def timed_def)
  ultimately have "registry_inv (?r\<lparr>anchor := fold tickStart (allModules ?r) (anchor ?r)\<rparr>)"
    by (auto simp: registry_inv_def timed_def allModules_def comp_def)
  with \<open>registry_inv ?r\<close> show ?thesis using False by (auto simp: startAll_def Let_def)
qed (use assms in \<open>simp add: startAll_def\<close>)

lemma timers_update:
  assumes "registry_inv r" "\<And>t. tm_module (f t) = tm_module t \<and> tm_interval (f t) = tm_interval t"
  shows "registry_inv (r\<lparr>anchor := forEachTimer f (anchor r)\<rparr>)"
proof -
  have "timersOf (r\<lparr>anchor := forEachTimer f (anchor r)\<rparr>) = map f (timersOf r)"
    by (auto simp: timersOf_def forEachTimer_def split: option.splits)
  then show ?thesis
    using assms by (auto simp: registry_inv_def timed_def allModules_def comp_def)
qed

lemma callAll_inv: "registry_inv r \<Longrightarrow> registry_inv (callAll c r)"
  by (auto simp: registry_inv_def timersOf_def)

lemma registryOp_inv: "registry_inv r \<Longrightarrow> registry_inv (registryOp op r)"
proof (cases op)
  case OpStopAll
  assume "registry_inv r"
  then have "registry_inv (callAll CallStop r)" by (rule callAll_inv)
  then show ?thesis
    using OpStopAll by (auto simp: registry_inv_def stopAll_def tickStopAll_def timersOf_def callAll_def)
next
  case OpPauseAll
  assume "registry_inv r"
  then show ?thesis
    using OpPauseAll timers_update [of r] by (simp add: pauseAll_def tickPauseAll_def callAll_inv)
next
  case OpResumeAll
  assume "registry_inv r"
  then have "registry_inv (callAll CallResume r)" by (rule callAll_inv)
  then show ?thesis
    using OpResumeAll timers_update [of "callAll CallResume r"] by (simp add: resumeAll_def tickResumeAll_def Let_def)
next
  case (OpAutoTick b)
  assume "registry_inv r"
  then show ?thesis
    using OpAutoTick by (auto simp: registry_inv_def setAutoTickEnabled_def timersOf_def timed_def allModules_def)
qed (auto intro: registerModule_inv startAll_inv)

text \<open>Tick timers and modules stay in step.  After any sequence of registry operations the
  module table is sorted by distinct non-blank ids, and timers exist only while the registry is
  started, exactly one per module with a positive period, with that period; a registration that
  could leave a timer pointing at a replaced module is refused.\<close>

theorem registry_timers_valid:
  assumes "r = fold registryOp ops moduleRegistry"
  shows "distinct (map fst (modules r)) \<and> sorted (map fst (modules r))
     \<and> (\<forall>t \<in> set (timersOf r). regStarted r
          \<and> (\<exists>m. findModule r (tm_module t) = Some m \<and> 0 < fm_tickPeriodMs m \<and> tm_interval t = fm_tickPeriodMs m))
     \<and> (regStarted r \<longrightarrow> registerModule md r = (False, r))"
proof -
  have inv: "registry_inv r" unfolding assms
    by (rule fold_invariant [where P = registry_inv])
      (simp_all add: registryOp_inv, simp add: registry_inv_def moduleRegistry_def timersOf_def)
  have "\<exists>m. findModule r (tm_module t) = Some m \<and> 0 < fm_tickPeriodMs m \<and> tm_interval t = fm_tickPeriodMs m"
    if t: "t \<in> set (timersOf r)" for t
  proof -
    have "timersOf r \<noteq> []" using t by auto
    then have "map (\<lambda>t. (tm_module t, tm_interval t)) (timersOf r) = map (\<lambda>m. (fm_id m, fm_tickPeriodMs m)) (timed r)"
      using inv by (simp add: registry_inv_def)
    moreover have "(tm_module t, tm_interval t) \<in> set (map (\<lambda>t. (tm_module t, tm_interval t)) (timersOf r))"
      using t by auto
    ultimately have "(tm_module t, tm_interval t) \<in> set (map (\<lambda>m. (fm_id m, fm_tickPeriodMs m)) (timed r))"
      by (simp only:)
    then obtain m i where m: "(i, m) \<in> set (modules r)" "0 < fm_tickPeriodMs m"
        "tm_module t = fm_id m" "tm_interval t = fm_tickPeriodMs m"
      by (auto simp: timed_def allModules_def)
    then have "map_of (modules r) (fm_id m) = Some m"
      using inv by (auto simp: registry_inv_def)
    then show ?thesis using m by (auto simp: findModule_def)
  qed
  then show ?thesis
    using inv by (auto simp: registry_inv_def registerModule_def split: option.splits)
qed

definition demoModule :: "qstring \<Rightarrow> int \<Rightarrow> FunctionalModule" where
  "demoModule i p = \<lparr>fm_id = i, fm_transportId = ''plc'', fm_tickPeriodMs = p, fm_calls = []\<rparr>"

theorem registry_timers_valid_witness:
  "map tm_module (timersOf (fold registryOp [OpRegister (Some (demoModule ''poll'' 100)),
       OpRegister (Some (demoModule ''ack'' 0)), OpRegister (Some (demoModule ''hb'' 50)), OpStartAll] moduleRegistry))
     = [''hb'', ''poll'']
   \<and> distinct (map fst (modules (fold registryOp [OpRegister (Some (demoModule ''poll'' 100)),
       OpRegister (Some (demoModule ''ack'' 0)), OpRegister (Some (demoModule ''hb'' 50)), OpStartAll] moduleRegistry)))"
proof -
  let ?r = "fold registryOp [OpRegister (Some (demoModule ''poll'' 100)),
       OpRegister (Some (demoModule ''ack'' 0)), OpRegister (Some (demoModule ''hb'' 50)), OpStartAll] moduleRegistry"
  have "map tm_module (timersOf ?r) = [''hb'', ''poll'']" by code_simp
  then show ?thesis using registry_timers_valid [OF refl, of "[OpRegister (Some (demoModule ''poll'' 100)),
       OpRegister (Some (demoModule ''ack'' 0)), OpRegister (Some (demoModule ''hb'' 50)), OpStartAll]" None] by blast
qed

end
