(* ===== verification/Log_Pipeline.thy ===== *)
theory Log_Pipeline
  imports Field_Prelude
begin

text \<open>
  The logging pipeline: the dual-axis gate (\<open>src/LogFilter.cpp\<close>), duplicate suppression
  (\<open>src/DedupFilter.cpp\<close>) and the asynchronous logger with its bounded queue, back-pressure and
  single dispatch thread (\<open>src/Logger.cpp\<close>).
\<close>

subsection \<open>Levels and records\<close>

datatype LogLevel = Trace | Debug | Info | Warn | ErrorLevel | Critical

fun levelRank :: "LogLevel \<Rightarrow> nat" where
  "levelRank Trace = 0"
| "levelRank Debug = 1"
| "levelRank Info = 2"
| "levelRank Warn = 3"
| "levelRank ErrorLevel = 4"
| "levelRank Critical = 5"

fun levelName :: "LogLevel \<Rightarrow> qstring" where
  "levelName Trace = ''TRACE''"
| "levelName Debug = ''DEBUG''"
| "levelName Info = ''INFO''"
| "levelName Warn = ''WARN''"
| "levelName ErrorLevel = ''ERROR''"
| "levelName Critical = ''CRIT''"

definition levelFromString :: "qstring \<Rightarrow> LogLevel" where
  "levelFromString s =
     (let v = to_lower (trimmed s)
      in if v = ''trace'' then Trace
         else if v = ''debug'' then Debug
         else if v = ''info'' \<or> v = ''log'' then Info
         else if v = ''warn'' \<or> v = ''warning'' then Warn
         else if v = ''error'' then ErrorLevel
         else if v = ''crit'' \<or> v = ''critical'' then Critical
         else Info)"

text \<open>A queue entry: a system record or an audit (operation) record; the payload is one string.\<close>

datatype LogEntry = SystemEntry LogLevel qstring qstring | OperationEntry qstring qstring

definition isDroppable :: "LogEntry \<Rightarrow> bool" where
  "isDroppable e = (case e of SystemEntry l c m \<Rightarrow> levelRank l < levelRank Info | OperationEntry c m \<Rightarrow> False)"

subsection \<open>\<open>LogFilter\<close>\<close>

record FilterRule =
  rule_enabled :: bool
  rule_minLevel :: LogLevel

record LogFilter =
  lf_default :: FilterRule
  lf_categories :: "qstring \<rightharpoonup> FilterRule"

definition newLogFilter :: LogFilter where
  "newLogFilter = \<lparr>lf_default = \<lparr>rule_enabled = True, rule_minLevel = Info\<rparr>, lf_categories = Map.empty\<rparr>"

definition setDefault :: "bool \<Rightarrow> LogLevel \<Rightarrow> LogFilter \<Rightarrow> LogFilter" where
  "setDefault en l f = f\<lparr>lf_default := \<lparr>rule_enabled = en, rule_minLevel = l\<rparr>\<rparr>"

definition setDefaultMinLevel :: "LogLevel \<Rightarrow> LogFilter \<Rightarrow> LogFilter" where
  "setDefaultMinLevel l f = f\<lparr>lf_default := (lf_default f)\<lparr>rule_minLevel := l\<rparr>\<rparr>"

definition setCategory :: "qstring \<Rightarrow> bool \<Rightarrow> LogLevel \<Rightarrow> LogFilter \<Rightarrow> LogFilter" where
  "setCategory c en l f = f\<lparr>lf_categories := (lf_categories f)(c \<mapsto> \<lparr>rule_enabled = en, rule_minLevel = l\<rparr>)\<rparr>"

definition clearCategory :: "qstring \<Rightarrow> LogFilter \<Rightarrow> LogFilter" where
  "clearCategory c f = f\<lparr>lf_categories := (lf_categories f)(c := None)\<rparr>"

definition hasCategory :: "LogFilter \<Rightarrow> qstring \<Rightarrow> bool" where
  "hasCategory f c = (lf_categories f c \<noteq> None)"

definition ruleFor :: "LogFilter \<Rightarrow> qstring \<Rightarrow> FilterRule" where
  "ruleFor f c = (case lf_categories f c of Some r \<Rightarrow> r | None \<Rightarrow> lf_default f)"

definition passesLevel :: "LogFilter \<Rightarrow> qstring \<Rightarrow> LogLevel \<Rightarrow> bool" where
  "passesLevel f c l = (let r = ruleFor f c in rule_enabled r \<and> levelRank (rule_minLevel r) \<le> levelRank l)"

definition passesOperation :: "LogFilter \<Rightarrow> qstring \<Rightarrow> bool" where
  "passesOperation f c = rule_enabled (ruleFor f c)"

definition overrideWith :: "LogFilter \<Rightarrow> LogFilter \<Rightarrow> LogFilter" where
  "overrideWith over f = \<lparr>lf_default = lf_default over, lf_categories = lf_categories f ++ lf_categories over\<rparr>"

text \<open>The two axes of the gate.  Raising or lowering the level threshold never changes which
  audit records pass; a category rule decides alone for its category and leaves all others as they
  were; and an overriding filter wins wherever it has a rule, its default replacing the base
  default for categories neither names.\<close>

theorem log_gate_axes:
  shows "passesOperation (setDefaultMinLevel l f) c = passesOperation f c
     \<and> (passesLevel (setCategory c en l f) c' l' =
          (if c' = c then en \<and> levelRank l \<le> levelRank l' else passesLevel f c' l'))
     \<and> ruleFor (clearCategory c (setCategory c en l f)) c = lf_default f
     \<and> ruleFor (overrideWith over f) c =
          (if hasCategory over c then ruleFor over c else if hasCategory f c then ruleFor f c else lf_default over)"
  by (auto simp: passesOperation_def setDefaultMinLevel_def ruleFor_def passesLevel_def setCategory_def Let_def
      clearCategory_def overrideWith_def hasCategory_def map_add_def split: option.splits)

subsection \<open>\<open>DedupFilter\<close>\<close>

record DedupEntry =
  de_lastEmit :: int
  de_suppressed :: u64

record DedupFilter =
  df_windowMs :: int
  df_maxEntries :: int
  df_entries :: "(qstring \<times> DedupEntry) list"

definition dedupFilter :: "int \<Rightarrow> int \<Rightarrow> DedupFilter" where
  "dedupFilter w n = \<lparr>df_windowMs = max 0 w, df_maxEntries = max 1 n, df_entries = []\<rparr>"

text \<open>The scan for the oldest entry, from the second on, keeping the first minimum.\<close>

fun oldestKey :: "(qstring \<times> DedupEntry) \<Rightarrow> (qstring \<times> DedupEntry) list \<Rightarrow> qstring" where
  "oldestKey best [] = fst best"
| "oldestKey best (c # cs) = oldestKey (if de_lastEmit (snd c) < de_lastEmit (snd best) then c else best) cs"

definition removeKey :: "qstring \<Rightarrow> (qstring \<times> DedupEntry) list \<Rightarrow> (qstring \<times> DedupEntry) list" where
  "removeKey k es = filter (\<lambda>(i, e). i \<noteq> k) es"

definition updateKey :: "qstring \<Rightarrow> (DedupEntry \<Rightarrow> DedupEntry) \<Rightarrow> (qstring \<times> DedupEntry) list \<Rightarrow> (qstring \<times> DedupEntry) list" where
  "updateKey k f es = map (\<lambda>(i, e). if i = k then (i, f e) else (i, e)) es"

definition accept :: "qstring \<Rightarrow> int \<Rightarrow> DedupFilter \<Rightarrow> bool \<times> DedupFilter" where
  "accept key now d =
     (case map_of (df_entries d) key of
        None \<Rightarrow>
          (let es = (if df_maxEntries d \<le> int (length (df_entries d))
                     then (case df_entries d of [] \<Rightarrow> [] | e # r \<Rightarrow> removeKey (oldestKey e r) (df_entries d))
                     else df_entries d)
           in (True, d\<lparr>df_entries := es @ [(key, \<lparr>de_lastEmit = now, de_suppressed = 0\<rparr>)]\<rparr>))
      | Some e \<Rightarrow>
          (if df_windowMs d \<le> now - de_lastEmit e
           then (True, d\<lparr>df_entries := updateKey key (\<lambda>e. e\<lparr>de_lastEmit := now\<rparr>) (df_entries d)\<rparr>)
           else (False, d\<lparr>df_entries := updateKey key (\<lambda>e. e\<lparr>de_suppressed := de_suppressed e + 1\<rparr>) (df_entries d)\<rparr>)))"

definition takeSuppressed :: "qstring \<Rightarrow> DedupFilter \<Rightarrow> u64 \<times> DedupFilter" where
  "takeSuppressed key d =
     (case map_of (df_entries d) key of None \<Rightarrow> (0, d)
      | Some e \<Rightarrow> (de_suppressed e, d\<lparr>df_entries := updateKey key (\<lambda>e. e\<lparr>de_suppressed := 0\<rparr>) (df_entries d)\<rparr>))"

definition dedupReset :: "qstring \<Rightarrow> DedupFilter \<Rightarrow> DedupFilter" where
  "dedupReset key d = d\<lparr>df_entries := removeKey key (df_entries d)\<rparr>"

definition dedupClear :: "DedupFilter \<Rightarrow> DedupFilter" where
  "dedupClear d = d\<lparr>df_entries := []\<rparr>"

definition dedup_ok :: "DedupFilter \<Rightarrow> bool" where
  "dedup_ok d \<longleftrightarrow> distinct (map fst (df_entries d)) \<and> 1 \<le> df_maxEntries d
     \<and> int (length (df_entries d)) \<le> df_maxEntries d"

lemma map_of_updateKey: "map_of (updateKey k f es) i = (if i = k then map_option f (map_of es k) else map_of es i)"
  by (induction es) (auto simp: updateKey_def)

lemma map_fst_updateKey [simp]: "map fst (updateKey k f es) = map fst es"
  by (induction es) (auto simp: updateKey_def)

lemma length_updateKey [simp]: "length (updateKey k f es) = length es"
  by (simp add: updateKey_def)

lemma map_of_removeKey: "map_of (removeKey k es) i = (if i = k then None else map_of es i)"
  by (induction es) (auto simp: removeKey_def)

lemma removeKey_distinct: "distinct (map fst es) \<Longrightarrow> distinct (map fst (removeKey k es))"
  by (induction es) (auto simp: removeKey_def)

lemma removeKey_length:
  "distinct (map fst es) \<Longrightarrow> k \<in> fst ` set es \<Longrightarrow> Suc (length (removeKey k es)) = length es"
proof (induction es)
  case (Cons e es)
  show ?case
  proof (cases "fst e = k")
    case True
    then have "\<forall>x \<in> set es. fst x \<noteq> k"
      using Cons.prems(1) by (metis distinct.simps(2) image_eqI list.map(2) set_map)
    then have "filter (\<lambda>(i, e). i \<noteq> k) es = es"
      by (auto simp: filter_id_conv)
    with True show ?thesis by (auto simp: removeKey_def split: prod.splits)
  next
    case False
    then show ?thesis using Cons by (auto simp: removeKey_def split: prod.splits)
  qed
qed simp

lemma oldestKey_spec:
  "\<exists>e. (oldestKey best cs, e) \<in> set (best # cs) \<and> (\<forall>c \<in> set (best # cs). de_lastEmit e \<le> de_lastEmit (snd c))"
proof (induction cs arbitrary: best)
  case Nil
  show ?case by (intro exI [of _ "snd best"]) simp
next
  case (Cons c cs)
  from Cons [of "if de_lastEmit (snd c) < de_lastEmit (snd best) then c else best"]
  show ?case by (auto split: if_splits)
qed

lemma evicted_entry:
  assumes "dedup_ok d" "df_maxEntries d \<le> int (length (df_entries d))"
  obtains e r k x where "df_entries d = e # r" "k = oldestKey e r" "map_of (df_entries d) k = Some x"
    "Suc (length (removeKey k (df_entries d))) = length (df_entries d)"
    "\<forall>(i, y) \<in> set (df_entries d). de_lastEmit x \<le> de_lastEmit y"
proof -
  have "df_entries d \<noteq> []" using assms by (auto simp: dedup_ok_def)
  then obtain e r where er: "df_entries d = e # r" by (cases "df_entries d") auto
  from oldestKey_spec [of e r] obtain x where x: "(oldestKey e r, x) \<in> set (df_entries d)"
      "\<forall>c \<in> set (df_entries d). de_lastEmit x \<le> de_lastEmit (snd c)"
    unfolding er by blast
  have dist: "distinct (map fst (df_entries d))" using assms(1) by (simp add: dedup_ok_def)
  have "map_of (df_entries d) (oldestKey e r) = Some x" using x(1) dist by simp
  moreover have "Suc (length (removeKey (oldestKey e r) (df_entries d))) = length (df_entries d)"
    using removeKey_length [OF dist] x(1) by (metis fst_conv image_eqI)
  ultimately show ?thesis using that er x(2) by (metis (no_types, lifting) case_prodI2 snd_conv)
qed

text \<open>Duplicate suppression.  A key passes exactly when it is unknown or its window has elapsed
  since it last passed; a suppressed repeat is counted and changes nothing else; the number of keys
  never exceeds the configured maximum, and the only key that may be forgotten is one that passed
  no later than every other, when a new key arrives at a full table.\<close>

theorem dedup_window:
  assumes "dedup_ok d" "accept key now d = (ok, d')"
  shows "(ok \<longleftrightarrow> (case map_of (df_entries d) key of None \<Rightarrow> True | Some e \<Rightarrow> df_windowMs d \<le> now - de_lastEmit e))
     \<and> dedup_ok d'
     \<and> (\<exists>e'. map_of (df_entries d') key = Some e' \<and> de_lastEmit e' =
            (if ok then now else de_lastEmit (the (map_of (df_entries d) key))))
     \<and> (\<not> ok \<longrightarrow> de_suppressed (the (map_of (df_entries d') key)) = de_suppressed (the (map_of (df_entries d) key)) + 1)
     \<and> (\<forall>k. k \<noteq> key \<longrightarrow> map_of (df_entries d') k = map_of (df_entries d) k
          \<or> (map_of (df_entries d) key = None \<and> int (length (df_entries d)) = df_maxEntries d
             \<and> map_of (df_entries d') k = None
             \<and> (\<forall>(i, y) \<in> set (df_entries d). de_lastEmit (the (map_of (df_entries d) k)) \<le> de_lastEmit y)))"
proof (cases "map_of (df_entries d) key")
  case (Some e)
  then show ?thesis
    using assms by (auto simp: accept_def map_of_updateKey dedup_ok_def split: if_splits)
next
  case None
  show ?thesis
  proof (cases "df_maxEntries d \<le> int (length (df_entries d))")
    case False
    then have d': "ok" "df_entries d' = df_entries d @ [(key, \<lparr>de_lastEmit = now, de_suppressed = 0\<rparr>)]"
        "df_maxEntries d' = df_maxEntries d"
      using assms(2) None by (auto simp: accept_def)
    have "key \<notin> set (map fst (df_entries d))" using None by (simp add: map_of_eq_None_iff)
    then have "dedup_ok d'" using assms(1) d' False by (simp add: dedup_ok_def)
    moreover have "map_of (df_entries d') i
        = (if i = key then Some \<lparr>de_lastEmit = now, de_suppressed = 0\<rparr> else map_of (df_entries d) i)" for i
      using None unfolding d'(2) by (auto simp: map_add_def split: option.splits)
    ultimately show ?thesis using None d'(1) by simp
  next
    case True
    from evicted_entry [OF assms(1) True] obtain e r k x where ev: "df_entries d = e # r" "k = oldestKey e r"
        "map_of (df_entries d) k = Some x" "Suc (length (removeKey k (df_entries d))) = length (df_entries d)"
        "\<forall>(i, y) \<in> set (df_entries d). de_lastEmit x \<le> de_lastEmit y" .
    have d': "ok" "df_entries d' = removeKey k (df_entries d) @ [(key, \<lparr>de_lastEmit = now, de_suppressed = 0\<rparr>)]"
        "df_maxEntries d' = df_maxEntries d"
      using assms(2) None True ev(1,2) by (auto simp: accept_def)
    have "k \<noteq> key" using ev(3) None by auto
    have "distinct (map fst (df_entries d'))"
    proof -
      have "map_of (removeKey k (df_entries d)) key = None" using None by (simp add: map_of_removeKey)
      then have "key \<notin> set (map fst (removeKey k (df_entries d)))" by (simp add: map_of_eq_None_iff)
      then show ?thesis
        using removeKey_distinct [of "df_entries d" k] assms(1) d'(2) by (simp add: dedup_ok_def)
    qed
    moreover have "int (length (df_entries d')) \<le> df_maxEntries d'"
      using assms(1) ev(4) d' by (simp add: dedup_ok_def)
    moreover have "map_of (df_entries d') i
        = (if i = key then Some \<lparr>de_lastEmit = now, de_suppressed = 0\<rparr> else if i = k then None else map_of (df_entries d) i)" for i
      using None unfolding d'(2) by (auto simp: map_add_def map_of_removeKey split: option.splits)
    moreover have "int (length (df_entries d)) = df_maxEntries d"
      using assms(1) True by (simp add: dedup_ok_def)
    ultimately show ?thesis
      using d' None ev(3,5) assms(1) \<open>k \<noteq> key\<close> by (auto simp: dedup_ok_def)
  qed
qed

theorem dedup_window_witness:
  "dedup_ok (dedupFilter 100 1) \<and> fst (accept ''b'' 50 (snd (accept ''a'' 10 (dedupFilter 100 1))))
     \<and> map_of (df_entries (snd (accept ''b'' 50 (snd (accept ''a'' 10 (dedupFilter 100 1)))))) ''a'' = None"
proof -
  let ?d = "snd (accept ''a'' 10 (dedupFilter 100 1))"
  have ok: "dedup_ok ?d" by (simp add: dedup_ok_def accept_def dedupFilter_def)
  have c: "map_of (df_entries (snd (accept ''b'' 50 ?d))) ''a'' = None" "map_of (df_entries ?d) ''b'' = None" by code_simp+
  obtain r d' where "accept ''b'' 50 ?d = (r, d')" by fastforce
  then show ?thesis
    using dedup_window [OF ok, of "''b''" 50 r d'] c by (auto simp: dedup_ok_def dedupFilter_def)
qed

subsection \<open>The asynchronous logger\<close>

text \<open>
  \<open>Logger::Impl\<close>.  \<open>waiting\<close> are the protected records of producers blocked on \<open>spaceCv\<close>;
  \<open>batch\<close> is what the dispatch thread swapped out of the queue and has not handed to the sinks
  yet; \<open>pushed\<close> and \<open>delivered\<close> are the histories of the queue's two ends.
\<close>

record Logger =
  lg_cap :: int
  lg_queue :: "LogEntry list"
  lg_stopping :: bool
  lg_processing :: bool
  lg_dropped :: u64
  lg_sinkFailures :: u64
  lg_filter :: LogFilter
  lg_sinks :: "nat list"

definition newLogger :: "int \<Rightarrow> Logger" where
  "newLogger maxQueueDepth = \<lparr>lg_cap = (if 1 < maxQueueDepth then maxQueueDepth else 1), lg_queue = [],
     lg_stopping = False, lg_processing = False, lg_dropped = 0, lg_sinkFailures = 0,
     lg_filter = newLogFilter, lg_sinks = []\<rparr>"

text \<open>The outcome of \<open>enqueue\<close> up to its wait.\<close>

datatype EnqueueOutcome = Pushed | Discarded | MustWait

definition enqueueLog :: "bool \<Rightarrow> LogEntry \<Rightarrow> Logger \<Rightarrow> EnqueueOutcome \<times> Logger" where
  "enqueueLog onWorker e l =
     (if onWorker then (Discarded, l\<lparr>lg_dropped := lg_dropped l + 1\<rparr>)
      else if lg_stopping l then (Discarded, l)
      else if lg_cap l \<le> int (length (lg_queue l))
      then (if isDroppable e then (Discarded, l\<lparr>lg_dropped := lg_dropped l + 1\<rparr>) else (MustWait, l))
      else (Pushed, l\<lparr>lg_queue := lg_queue l @ [e]\<rparr>))"

text \<open>What a blocked producer does once its wait condition holds.\<close>

definition enqueueWake :: "LogEntry \<Rightarrow> Logger \<Rightarrow> (EnqueueOutcome \<times> Logger) option" where
  "enqueueWake e l =
     (if lg_stopping l then Some (Discarded, l)
      else if int (length (lg_queue l)) < lg_cap l then Some (Pushed, l\<lparr>lg_queue := lg_queue l @ [e]\<rparr>)
      else None)"

definition takeBatch :: "Logger \<Rightarrow> (LogEntry list \<times> Logger) option" where
  "takeBatch l = (if lg_queue l = [] then None else Some (lg_queue l, l\<lparr>lg_queue := [], lg_processing := True\<rparr>))"

text \<open>Delivery of one entry to the snapshot of sinks; \<open>fails\<close> says which writes throw.\<close>

definition deliverEntry :: "(nat \<Rightarrow> LogEntry \<Rightarrow> bool) \<Rightarrow> LogEntry \<Rightarrow> Logger \<Rightarrow> (nat \<times> LogEntry) list \<times> Logger" where
  "deliverEntry fails e l = (map (\<lambda>s. (s, e)) (lg_sinks l),
     l\<lparr>lg_sinkFailures := lg_sinkFailures l + of_nat (length (filter (\<lambda>s. fails s e) (lg_sinks l)))\<rparr>)"

definition finishBatch :: "Logger \<Rightarrow> Logger" where
  "finishBatch l = l\<lparr>lg_processing := False\<rparr>"

definition stopLogger :: "Logger \<Rightarrow> Logger" where
  "stopLogger l = l\<lparr>lg_stopping := True\<rparr>"

definition flushReturns :: "Logger \<Rightarrow> bool" where
  "flushReturns l = (lg_stopping l \<or> lg_queue l = [] \<and> \<not> lg_processing l)"

definition addSink :: "nat option \<Rightarrow> Logger \<Rightarrow> Logger" where
  "addSink s l = (case s of None \<Rightarrow> l | Some s \<Rightarrow> l\<lparr>lg_sinks := lg_sinks l @ [s]\<rparr>)"

definition removeSink :: "nat \<Rightarrow> Logger \<Rightarrow> Logger" where
  "removeSink s l = l\<lparr>lg_sinks := filter (\<lambda>x. x \<noteq> s) (lg_sinks l)\<rparr>"

definition setThreshold :: "LogLevel \<Rightarrow> Logger \<Rightarrow> Logger" where
  "setThreshold m l = l\<lparr>lg_filter := setDefaultMinLevel m (lg_filter l)\<rparr>"

definition setCategoryThreshold :: "qstring \<Rightarrow> LogLevel \<Rightarrow> Logger \<Rightarrow> Logger" where
  "setCategoryThreshold c m l = l\<lparr>lg_filter := setCategory c True m (lg_filter l)\<rparr>"

definition setFilter :: "LogFilter \<Rightarrow> Logger \<Rightarrow> Logger" where
  "setFilter f l = l\<lparr>lg_filter := f\<rparr>"

text \<open>\<open>log\<close> and \<open>logOperation\<close>: the gate, then the queue.\<close>

definition gate :: "LogEntry \<Rightarrow> Logger \<Rightarrow> LogEntry option" where
  "gate e l =
     (case e of
        SystemEntry lev c m \<Rightarrow> if passesLevel (lg_filter l) c lev then Some e else None
      | OperationEntry c m \<Rightarrow>
          (let c = (if c = [] then ''audit'' else c)
           in if passesOperation (lg_filter l) c then Some (OperationEntry c m) else None))"

record LoggerSystem =
  lgr :: Logger
  batch :: "LogEntry list"
  waiting :: "LogEntry list"
  pushed :: "LogEntry list"
  delivered :: "LogEntry list"
  lost :: "LogEntry list"
  exited :: bool

datatype LoggerEvent =
    EmitEv bool LogEntry
  | WakeEv LogEntry
  | TakeEv
  | DeliverEv "nat \<Rightarrow> LogEntry \<Rightarrow> bool"
  | FinishEv
  | StopLogEv
  | ExitEv
  | ConfigEv "Logger \<Rightarrow> LogFilter" "nat list"

definition startLogger :: "int \<Rightarrow> LoggerSystem" where
  "startLogger n = \<lparr>lgr = newLogger n, batch = [], waiting = [], pushed = [], delivered = [], lost = [], exited = False\<rparr>"

fun loggerEvent :: "LoggerEvent \<Rightarrow> LoggerSystem \<Rightarrow> LoggerSystem option" where
  "loggerEvent (EmitEv onWorker e) x =
     (case gate e (lgr x) of None \<Rightarrow> Some x
      | Some e' \<Rightarrow>
        (case enqueueLog onWorker e' (lgr x) of
           (Pushed, l) \<Rightarrow> Some (x\<lparr>lgr := l, pushed := pushed x @ [e']\<rparr>)
         | (Discarded, l) \<Rightarrow> Some (x\<lparr>lgr := l, lost := (if onWorker \<or> lg_stopping l then lost x else lost x @ [e'])\<rparr>)
         | (MustWait, l) \<Rightarrow> Some (x\<lparr>lgr := l, waiting := waiting x @ [e']\<rparr>)))"
| "loggerEvent (WakeEv e) x =
     (if e \<in> set (waiting x)
      then (case enqueueWake e (lgr x) of
              None \<Rightarrow> None
            | Some (Pushed, l) \<Rightarrow> Some (x\<lparr>lgr := l, waiting := remove1 e (waiting x), pushed := pushed x @ [e]\<rparr>)
            | Some (_, l) \<Rightarrow> Some (x\<lparr>lgr := l, waiting := remove1 e (waiting x)\<rparr>))
      else None)"
| "loggerEvent TakeEv x =
     (if lg_processing (lgr x) \<or> exited x then None
      else case takeBatch (lgr x) of None \<Rightarrow> None
           | Some (b, l) \<Rightarrow> Some (x\<lparr>lgr := l, batch := b\<rparr>))"
| "loggerEvent (DeliverEv fails) x =
     (case batch x of [] \<Rightarrow> None
      | e # es \<Rightarrow> Some (x\<lparr>lgr := snd (deliverEntry fails e (lgr x)), batch := es, delivered := delivered x @ [e]\<rparr>))"
| "loggerEvent FinishEv x =
     (if lg_processing (lgr x) \<and> batch x = [] then Some (x\<lparr>lgr := finishBatch (lgr x)\<rparr>) else None)"
| "loggerEvent StopLogEv x = Some (x\<lparr>lgr := stopLogger (lgr x)\<rparr>)"
| "loggerEvent ExitEv x =
     (if lg_stopping (lgr x) \<and> lg_queue (lgr x) = [] \<and> \<not> lg_processing (lgr x) then Some (x\<lparr>exited := True\<rparr>) else None)"
| "loggerEvent (ConfigEv f sinks) x = Some (x\<lparr>lgr := (lgr x)\<lparr>lg_filter := f (lgr x), lg_sinks := sinks\<rparr>\<rparr>)"

fun loggerEvents :: "LoggerEvent list \<Rightarrow> LoggerSystem \<Rightarrow> LoggerSystem option" where
  "loggerEvents [] x = Some x"
| "loggerEvents (ev # evs) x = (case loggerEvent ev x of None \<Rightarrow> None | Some y \<Rightarrow> loggerEvents evs y)"

inductive loggerStep :: "LoggerSystem \<Rightarrow> LoggerSystem \<Rightarrow> bool" where
  "loggerEvent ev x = Some y \<Longrightarrow> loggerStep x y"

definition logger_inv :: "LoggerSystem \<Rightarrow> bool" where
  "logger_inv x \<longleftrightarrow> 1 \<le> lg_cap (lgr x) \<and> int (length (lg_queue (lgr x))) \<le> lg_cap (lgr x)
     \<and> pushed x = delivered x @ batch x @ lg_queue (lgr x)
     \<and> (batch x \<noteq> [] \<longrightarrow> lg_processing (lgr x))
     \<and> (\<forall>e \<in> set (waiting x). \<not> isDroppable e) \<and> (\<forall>e \<in> set (lost x). isDroppable e)
     \<and> (exited x \<longrightarrow> lg_stopping (lgr x) \<and> lg_queue (lgr x) = [] \<and> batch x = [])"

lemma loggerEvent_inv:
  assumes "logger_inv x" "loggerEvent ev x = Some y" shows "logger_inv y"
proof (cases ev)
  case (EmitEv w e)
  then show ?thesis
    using assms by (auto simp: logger_inv_def enqueueLog_def split: option.splits if_splits)
next
  case (WakeEv e)
  have "\<not> isDroppable z" if "z \<in> set (remove1 e (waiting x))" for z
    using assms(1) that set_remove1_subset [of e "waiting x"] by (auto simp: logger_inv_def)
  then show ?thesis
    using assms WakeEv by (auto simp: logger_inv_def enqueueWake_def split: if_splits)
next
  case TakeEv
  then show ?thesis
    using assms by (auto simp: logger_inv_def takeBatch_def split: option.splits if_splits)
next
  case (DeliverEv fails)
  then show ?thesis
    using assms by (auto simp: logger_inv_def deliverEntry_def split: list.splits)
qed (use assms in \<open>auto simp: logger_inv_def finishBatch_def stopLogger_def split: if_splits\<close>)

interpretation logger: transition_system "\<lambda>x. x = startLogger n" loggerStep logger_inv for n
proof unfold_locales
  show "x = startLogger n \<Longrightarrow> logger_inv x" for x by (simp add: logger_inv_def startLogger_def newLogger_def)
next
  show "logger_inv x \<Longrightarrow> loggerStep x y \<Longrightarrow> logger_inv y" for x y
    by (auto elim!: loggerStep.cases intro: loggerEvent_inv)
qed

text \<open>C14: the logger loses and reorders nothing it accepted.  In every reachable state the records
  pushed are, in order, those delivered, those of the batch in delivery and those queued; the queue
  never exceeds its capacity; a record refused for overload is a Trace or Debug record; when
  \<open>flush\<close> returns on a logger that is not stopping, and when the dispatch thread has exited,
  everything pushed has been delivered.\<close>

theorem logger_delivery:
  assumes "reach (\<lambda>x. x = startLogger n) loggerStep x"
  shows "pushed x = delivered x @ batch x @ lg_queue (lgr x)
     \<and> int (length (lg_queue (lgr x))) \<le> lg_cap (lgr x)
     \<and> (\<forall>e \<in> set (lost x). isDroppable e) \<and> (\<forall>e \<in> set (waiting x). \<not> isDroppable e)
     \<and> (flushReturns (lgr x) \<and> \<not> lg_stopping (lgr x) \<longrightarrow> delivered x = pushed x)
     \<and> (exited x \<longrightarrow> delivered x = pushed x)"
  using logger.reach_inv [OF assms] by (auto simp: logger_inv_def flushReturns_def)

lemma loggerEvents_reach:
  "reach (\<lambda>x. x = startLogger n) loggerStep x \<Longrightarrow> loggerEvents evs x = Some y
     \<Longrightarrow> reach (\<lambda>x. x = startLogger n) loggerStep y"
proof (induction evs arbitrary: x)
  case (Cons ev evs)
  from Cons.prems(2) obtain z where "loggerEvent ev x = Some z" "loggerEvents evs z = Some y"
    by (auto split: option.splits)
  with Cons.IH [of z] reach_step [OF Cons.prems(1) loggerStep.intros] show ?case by blast
qed simp

definition demoLogTrace :: "LoggerEvent list" where
  "demoLogTrace = [EmitEv False (SystemEntry Warn ''io'' ''w''), EmitEv False (OperationEntry [] ''op''),
     TakeEv, WakeEv (OperationEntry ''audit'' ''op''), DeliverEv (\<lambda>s e. False), FinishEv]"

definition demoLog :: LoggerSystem where
  "demoLog = the (loggerEvents demoLogTrace (startLogger 1))"

lemma demoLog_reach: "reach (\<lambda>x. x = startLogger 1) loggerStep demoLog"
proof (rule loggerEvents_reach [OF reach_init])
  have "loggerEvents demoLogTrace (startLogger 1) \<noteq> None" by code_simp
  then show "loggerEvents demoLogTrace (startLogger 1) = Some demoLog" by (simp add: demoLog_def)
qed simp

theorem logger_delivery_witness:
  "pushed demoLog = [SystemEntry Warn ''io'' ''w'', OperationEntry ''audit'' ''op'']
     \<and> delivered demoLog = [SystemEntry Warn ''io'' ''w''] \<and> lg_queue (lgr demoLog) = [OperationEntry ''audit'' ''op'']"
proof -
  have "delivered demoLog = [SystemEntry Warn ''io'' ''w'']" "batch demoLog = []"
    "lg_queue (lgr demoLog) = [OperationEntry ''audit'' ''op'']" by code_simp+
  then show ?thesis using logger_delivery [OF demoLog_reach] by simp
qed

definition stopLogTrace :: "LoggerEvent list" where
  "stopLogTrace = [EmitEv False (SystemEntry Warn ''io'' ''w''), TakeEv, EmitEv False (SystemEntry Warn ''io'' ''x''),
     EmitEv False (OperationEntry [] ''op''), StopLogEv, WakeEv (OperationEntry ''audit'' ''op'')]"


end
