(* ===== verification/Config_Schema.thy ===== *)
theory Config_Schema
  imports Transport_Types
begin

text \<open>
  The configuration schema (\<open>include/core/config/ConfigSchema.h\<close>) and the errors a load reports
  (\<open>ValidationError.h\<close>).  Every field of the C++ structures is a field of the record; the
  \<open>default\<close> constants are the member initialisers.  \<open>QVariantMap\<close> is an association list
  ordered by key.
\<close>

record ValidationError =
  ve_section :: qstring
  ve_field :: qstring
  ve_message :: qstring
  ve_lineNumber :: int

record MetaConfig =
  meta_project :: qstring
  meta_version :: qstring
  meta_generated :: qstring
  meta_logLevel :: qstring

record WatchRange =
  wt_table :: RegisterType
  wt_startAddress :: int
  wt_size :: int

record TransportConfig =
  tp_id :: qstring
  tp_kind :: TransportKind
  tp_host :: qstring
  tp_port :: int
  tp_slaveId :: int
  tp_listenAddress :: qstring
  tp_listenPort :: int
  tp_listenRanges :: "WatchRange list"
  tp_portName :: qstring
  tp_baudRate :: int
  tp_dataBits :: int
  tp_stopBits :: int
  tp_parity :: qstring
  tp_endpointUrl :: qstring
  tp_securityPolicy :: qstring
  tp_username :: qstring
  tp_password :: qstring
  tp_opcuaBackend :: qstring
  tp_nodeIdTemplate :: qstring
  tp_clientId :: qstring
  tp_brokerUri :: qstring
  tp_topicPrefix :: qstring
  tp_topicTemplate :: qstring
  tp_qos :: int
  tp_cleanSession :: bool
  tp_rack :: int
  tp_slot :: int
  tp_reconnectIntervalMs :: int
  tp_connectTimeoutMs :: int
  tp_requestTimeoutMs :: int
  tp_scheduler :: SchedulerConfig

record CodecConfig =
  cdc_id :: qstring
  cdc_kind :: qstring
  cdc_map :: "(qstring \<times> QVariant) list"
  cdc_script :: qstring
  cdc_arg :: qstring

record PollRangeConfig =
  prg_moduleId :: qstring
  prg_transport :: qstring
  prg_table :: qstring
  prg_startAddress :: int
  prg_count :: int
  prg_periodMs :: int
  prg_priority :: Priority

record SinkWindowConfig =
  win_moduleId :: qstring
  win_transport :: qstring
  win_table :: qstring
  win_startAddress :: int
  win_size :: int
  win_priority :: Priority
  win_debounceMs :: int
  win_keepaliveMs :: int
  win_initial :: "u16 list"

record HeartbeatSection =
  hbs_moduleId :: qstring
  hbs_transport :: qstring
  hbs_table :: qstring
  hbs_address :: int
  hbs_values :: "u16 list"
  hbs_periodMs :: int
  hbs_priority :: Priority
  hbs_incrementer :: qstring

record AckWatchConfig =
  aw_moduleId :: qstring
  aw_dp :: qstring
  aw_expected :: QVariant
  aw_timeoutMs :: int

record CommandWriteEntry =
  cwe_table :: qstring
  cwe_address :: int
  cwe_value :: u16

record CommandSection =
  cms_moduleId :: qstring
  cms_transport :: qstring
  cms_priority :: Priority
  cms_interruptable :: bool
  cms_writes :: "CommandWriteEntry list"

record PortRefConfig =
  pf_port :: qstring
  pf_table :: qstring
  pf_address :: int
  pf_bit :: int
  pf_wordOrder :: qstring
  pf_shift :: int
  pf_mask :: u64
  pf_scale :: double
  pf_offset :: double
  pf_codec :: qstring
  pf_window :: qstring

record DatapointAckRef =
  ackr_dp :: qstring
  ackr_expected :: QVariant
  ackr_timeoutMs :: int

record DatapointConfig =
  dpc_id :: qstring
  dpc_kind :: qstring
  dpc_type :: ScalarType
  dpc_source :: PortRefConfig
  dpc_sink :: PortRefConfig
  dpc_hasSource :: bool
  dpc_hasSink :: bool
  dpc_policy :: qstring
  dpc_ack :: DatapointAckRef
  dpc_hasAck :: bool
  dpc_ui :: qstring
  dpc_persist :: qstring

record RouteConfig =
  rt_name :: qstring
  rt_from :: qstring
  rt_to :: qstring
  rt_policy :: qstring

record PluginConfig =
  plg_name :: qstring
  plg_dllPath :: qstring

datatype BridgeMirrorPolicy = AfterPoll | Periodic

record BridgeConfig =
  br_server :: qstring
  br_plc :: qstring
  br_offset :: int
  br_writeStart :: int
  br_writeCount :: int
  br_mirrorStart :: int
  br_mirrorCount :: int
  br_mirrorPolicy :: BridgeMirrorPolicy
  br_mirrorPeriodMs :: int

record ConfigSchema =
  cs_meta :: MetaConfig
  cs_transports :: "TransportConfig list"
  cs_codecs :: "CodecConfig list"
  cs_pollRanges :: "PollRangeConfig list"
  cs_sinkWindows :: "SinkWindowConfig list"
  cs_heartbeats :: "HeartbeatSection list"
  cs_ackWatches :: "AckWatchConfig list"
  cs_commands :: "CommandSection list"
  cs_datapoints :: "DatapointConfig list"
  cs_routes :: "RouteConfig list"
  cs_bridges :: "BridgeConfig list"
  cs_plugins :: "PluginConfig list"

subsection \<open>Member initialisers\<close>

definition defaultMetaConfig :: MetaConfig where
  "defaultMetaConfig = \<lparr>meta_project = [], meta_version = [], meta_generated = [], meta_logLevel = []\<rparr>"

definition defaultTransportConfig :: TransportConfig where
  "defaultTransportConfig = \<lparr>tp_id = [], tp_kind = ModbusTcpClient, tp_host = [], tp_port = 502, tp_slaveId = 1,
     tp_listenAddress = [], tp_listenPort = 502, tp_listenRanges = [], tp_portName = [], tp_baudRate = 9600,
     tp_dataBits = 8, tp_stopBits = 1, tp_parity = ''none'', tp_endpointUrl = [], tp_securityPolicy = ''None'',
     tp_username = [], tp_password = [], tp_opcuaBackend = ''open62541'', tp_nodeIdTemplate = ''ns=2;s=Var_%1'',
     tp_clientId = [], tp_brokerUri = [], tp_topicPrefix = [], tp_topicTemplate = ''reg/%1'', tp_qos = 1,
     tp_cleanSession = True, tp_rack = 0, tp_slot = 1, tp_reconnectIntervalMs = 15000,
     tp_connectTimeoutMs = 3000, tp_requestTimeoutMs = 1000, tp_scheduler = defaultSchedulerConfig\<rparr>"

definition defaultPortRefConfig :: PortRefConfig where
  "defaultPortRefConfig = \<lparr>pf_port = [], pf_table = [], pf_address = 0, pf_bit = - 1, pf_wordOrder = [],
     pf_shift = 0, pf_mask = - 1, pf_scale = double_one, pf_offset = 0, pf_codec = [], pf_window = []\<rparr>"

definition defaultAckRef :: DatapointAckRef where
  "defaultAckRef = \<lparr>ackr_dp = [], ackr_expected = QInvalid, ackr_timeoutMs = 3000\<rparr>"

definition defaultDatapointConfig :: DatapointConfig where
  "defaultDatapointConfig = \<lparr>dpc_id = [], dpc_kind = [], dpc_type = U16, dpc_source = defaultPortRefConfig,
     dpc_sink = defaultPortRefConfig, dpc_hasSource = False, dpc_hasSink = False, dpc_policy = [],
     dpc_ack = defaultAckRef, dpc_hasAck = False, dpc_ui = [], dpc_persist = []\<rparr>"

definition defaultBridgeConfig :: BridgeConfig where
  "defaultBridgeConfig = \<lparr>br_server = [], br_plc = [], br_offset = 0, br_writeStart = 0, br_writeCount = 0,
     br_mirrorStart = 0, br_mirrorCount = 0, br_mirrorPolicy = AfterPoll, br_mirrorPeriodMs = 0\<rparr>"

definition emptySchema :: ConfigSchema where
  "emptySchema = \<lparr>cs_meta = defaultMetaConfig, cs_transports = [], cs_codecs = [], cs_pollRanges = [],
     cs_sinkWindows = [], cs_heartbeats = [], cs_ackWatches = [], cs_commands = [], cs_datapoints = [],
     cs_routes = [], cs_bridges = [], cs_plugins = []\<rparr>"

end
