(* ===== verification/Config_Validate.thy ===== *)
theory Config_Validate
  imports Config_Schema
begin

text \<open>
  Validation of a configuration (\<open>src/ConfigLoader.cpp\<close>): \<open>validateValues\<close> checks each
  section on its own, \<open>validateRefs\<close> the references and overlaps between sections, and
  \<open>validate\<close> is their composition with the uniqueness of ids.  Errors are collected in the
  order the code pushes them.

  Qt's number and URL parsers and the build flags are the fields of \<open>LoaderEnv\<close>.  Sums the
  code computes in \<open>qint64\<close> are exact for \<open>int\<close> operands; sums it computes in \<open>int\<close> go
  through \<open>int_add\<close>, which wraps.
\<close>

record LoaderEnv =
  le_toUInt :: "qstring \<Rightarrow> u32 option"
  le_urlValid :: "qstring \<Rightarrow> bool"
  le_urlScheme :: "qstring \<Rightarrow> qstring"
  le_urlHost :: "qstring \<Rightarrow> qstring"
  le_hasOpcUa :: bool
  le_hasMqttQt :: bool
  le_hasMqttPaho :: bool

named_theorems validate_defs \<open>definitions of the checks\<close>

subsection \<open>Helpers\<close>

definition rejectIf :: "bool \<Rightarrow> qstring \<Rightarrow> qstring \<Rightarrow> qstring \<Rightarrow> ValidationError list" where
  "rejectIf bad sec field msg =
     (if bad then [\<lparr>ve_section = sec, ve_field = field, ve_message = msg, ve_lineNumber = - 1\<rparr>] else [])"

lemma rejectIf_empty_iff [simp]: "rejectIf bad sec field msg = [] \<longleftrightarrow> \<not> bad"
  by (simp add: rejectIf_def)

definition apos :: qstring where "apos = [CHR 0x27]"

definition int_add :: "int \<Rightarrow> int \<Rightarrow> int" where
  "int_add a b = (a + b + 2147483648) mod 4294967296 - 2147483648"

lemma int_add_exact: "int_min \<le> a + b \<Longrightarrow> a + b \<le> int_max \<Longrightarrow> int_add a b = a + b"
  by (simp add: int_add_def int_min_def int_max_def)

definition qcontains :: "qstring \<Rightarrow> qstring \<Rightarrow> bool" where
  "qcontains pat s = list_ex (\<lambda>i. take (length pat) (drop i s) = pat) [0..<Suc (length s)]"

definition hex_char :: "nat \<Rightarrow> char" where
  "hex_char n = char_of (if n < 10 then 48 + n else 87 + n)"

fun show_hex :: "nat \<Rightarrow> qstring" where
  "show_hex n = (if n < 16 then [hex_char n] else show_hex (n div 16) @ [hex_char (n mod 16)])"

declare show_hex.simps [simp del]

fun checkUnique :: "qstring list \<Rightarrow> qstring \<Rightarrow> qstring \<Rightarrow> qstring list \<Rightarrow> ValidationError list" where
  "checkUnique seen sec field [] = []"
| "checkUnique seen sec field (i # is) =
     rejectIf (i \<in> set seen) sec field (qarg (''duplicate id '%1'' @ apos) i)
       @ checkUnique (if i \<in> set seen then seen else i # seen) sec field is"

definition isBuiltinCodecId :: "qstring \<Rightarrow> bool" where
  "isBuiltinCodecId i = (i \<in> set [''builtin.bool'', ''builtin.u16'', ''builtin.s16'', ''builtin.u32'', ''builtin.s32'',
     ''builtin.f32'', ''builtin.u64'', ''builtin.s64'', ''builtin.f64'', ''builtin.enumu16''])"

fun typeBitWidth :: "ScalarType \<Rightarrow> nat" where
  "typeBitWidth Bool = 1"
| "typeBitWidth U16 = 16"
| "typeBitWidth S16 = 16"
| "typeBitWidth EnumU16 = 16"
| "typeBitWidth U32 = 32"
| "typeBitWidth S32 = 32"
| "typeBitWidth F32 = 32"
| "typeBitWidth U64 = 64"
| "typeBitWidth S64 = 64"
| "typeBitWidth F64 = 64"
| "typeBitWidth String = 64"

definition isKnownTable :: "qstring \<Rightarrow> bool" where
  "isKnownTable t = (t \<in> set [''HR'', ''HoldingRegisters'', ''IR'', ''InputRegisters'', ''Coil'', ''Coils'', ''DI'', ''DiscreteInputs''])"

definition canonicalTable :: "qstring \<Rightarrow> qstring" where
  "canonicalTable t =
     (if t = ''HoldingRegisters'' then ''HR'' else if t = ''InputRegisters'' then ''IR''
      else if t = ''Coils'' then ''Coil'' else if t = ''DiscreteInputs'' then ''DI'' else t)"

fun canonicalRegisterType :: "RegisterType \<Rightarrow> qstring" where
  "canonicalRegisterType HoldingRegisters = ''HR''"
| "canonicalRegisterType InputRegisters = ''IR''"
| "canonicalRegisterType Coils = ''Coil''"
| "canonicalRegisterType DiscreteInputs = ''DI''"
| "canonicalRegisterType InvalidTable = []"

definition isWritableTable :: "qstring \<Rightarrow> bool" where
  "isWritableTable t = (t \<in> set [''HR'', ''HoldingRegisters'', ''Coil'', ''Coils''])"

definition maxReadCount :: "qstring \<Rightarrow> int" where
  "maxReadCount t = (if t \<in> set [''Coil'', ''Coils'', ''DI'', ''DiscreteInputs''] then 2000 else 125)"

definition maxWriteCount :: "qstring \<Rightarrow> int" where
  "maxWriteCount t = (if t \<in> set [''Coil'', ''Coils''] then 1968 else 123)"

definition usesModbusClientRequestLimits :: "TransportKind \<Rightarrow> bool" where
  "usesModbusClientRequestLimits k = (k = ModbusTcpClient \<or> k = ModbusRtu)"

definition rangesOverlap :: "int \<Rightarrow> int \<Rightarrow> int \<Rightarrow> int \<Rightarrow> bool" where
  "rangesOverlap aStart aCount bStart bCount =
     (0 < aCount \<and> 0 < bCount \<and> aStart < bStart + bCount \<and> bStart < aStart + aCount)"

definition validateRange :: "qstring \<Rightarrow> qstring \<Rightarrow> int \<Rightarrow> int \<Rightarrow> int \<Rightarrow> ValidationError list" where
  "validateRange sec field start count maxCount =
     rejectIf (start < 0 \<or> 65535 < start) sec field ''start address must be in [0, 65535]''
     @ rejectIf (count \<le> 0 \<or> maxCount < count) sec field (qarg ''count must be in [1, %1]'' (show_int maxCount))
     @ rejectIf (0 \<le> start \<and> 0 < count \<and> 65536 < start + count) sec field ''range exceeds address 65535''"

definition requireId :: "qstring \<Rightarrow> qstring \<Rightarrow> qstring \<Rightarrow> ValidationError list" where
  "requireId value sec field = rejectIf (blank value) sec field ''must not be empty''"

definition requirePositive :: "int \<Rightarrow> qstring \<Rightarrow> qstring \<Rightarrow> ValidationError list" where
  "requirePositive value sec field = rejectIf (value \<le> 0) sec field ''must be > 0''"

definition requireNonNegative :: "int \<Rightarrow> qstring \<Rightarrow> qstring \<Rightarrow> ValidationError list" where
  "requireNonNegative value sec field = rejectIf (value < 0) sec field ''must be >= 0''"

subsection \<open>\<open>validateValues\<close>\<close>

definition validateScheduler :: "SchedulerConfig \<Rightarrow> qstring \<Rightarrow> ValidationError list" where
  "validateScheduler c sec =
     requireNonNegative (cfg_interRequestGapMs c) sec ''inter_request_gap_ms''
     @ requirePositive (cfg_maxQueueDepth c) sec ''max_queue_depth''
     @ requirePositive (cfg_maxInflight c) sec ''max_inflight''
     @ requireNonNegative (cfg_starvationGuardMs c) sec ''starvation_guard_ms''
     @ requireNonNegative (cfg_circuitBreakerThreshold c) sec ''circuit_breaker_threshold''
     @ requirePositive (cfg_circuitBreakerOpenMs c) sec ''circuit_breaker_open_ms''"

definition validateMeta :: "MetaConfig \<Rightarrow> ValidationError list" where
  "validateMeta m =
     rejectIf (meta_logLevel m \<noteq> [] \<and> to_lower (trimmed (meta_logLevel m))
          \<notin> set [''trace'', ''debug'', ''info'', ''warn'', ''warning'', ''error'', ''crit'', ''critical''])
       ''meta'' ''log_level'' (qarg (''unknown log level '%1'' @ apos) (meta_logLevel m))"

definition validateEnumEntry :: "LoaderEnv \<Rightarrow> qstring \<Rightarrow> qstring \<times> QVariant \<Rightarrow> ValidationError list" where
  "validateEnumEntry env sec kv =
     rejectIf (case le_toUInt env (fst kv) of None \<Rightarrow> True | Some raw \<Rightarrow> 65535 < raw) sec ''map''
       (qarg ''key '%1' must be an integer in [0, 65535]'' (fst kv))
     @ rejectIf (case snd kv of QText _ \<Rightarrow> False | _ \<Rightarrow> True) sec ''map''
       (qarg ''value for key '%1' must be a string'' (fst kv))"

definition validateCodec :: "LoaderEnv \<Rightarrow> nat \<Rightarrow> CodecConfig \<Rightarrow> ValidationError list" where
  "validateCodec env i c = (let sec = qsection ''codec[%1]'' i in
     requireId (cdc_id c) sec ''id''
     @ rejectIf (isBuiltinCodecId (cdc_id c)) sec ''id'' (qarg '''%1' is reserved by a built-in codec'' (cdc_id c))
     @ (if cdc_kind c = ''enum_u16''
        then rejectIf (cdc_map c = []) sec ''map'' ''enum_u16 requires a non-empty map''
             @ concat (map (validateEnumEntry env sec) (cdc_map c))
        else if cdc_kind c = ''lua'' then requireId (cdc_script c) sec ''script''
        else rejectIf True sec ''kind'' (qarg (''unknown codec kind '%1'' @ apos) (cdc_kind c))))"

definition validatePort :: "int \<Rightarrow> qstring \<Rightarrow> qstring \<Rightarrow> ValidationError list" where
  "validatePort p sec field = rejectIf (p < 1 \<or> 65535 < p) sec field ''must be in [1, 65535]''"

definition validateMqttTail :: "TransportConfig \<Rightarrow> qstring \<Rightarrow> ValidationError list" where
  "validateMqttTail t sec =
     rejectIf (\<not> qcontains ''%1'' (tp_topicTemplate t)) sec ''topic_template'' ''must contain %1 for the register address''
     @ rejectIf (tp_qos t < 0 \<or> 2 < tp_qos t) sec ''qos'' ''must be in [0, 2]''"

fun validateTransportKind :: "LoaderEnv \<Rightarrow> TransportConfig \<Rightarrow> qstring \<Rightarrow> TransportKind \<Rightarrow> ValidationError list" where
  "validateTransportKind env t sec ModbusTcpClient = requireId (tp_host t) sec ''host'' @ validatePort (tp_port t) sec ''port''"
| "validateTransportKind env t sec ModbusTcpServer =
     requireId (tp_listenAddress t) sec ''listen_address'' @ validatePort (tp_listenPort t) sec ''listen_port''
     @ rejectIf (tp_listenRanges t = []) sec ''listen_ranges'' ''requires at least one register range''"
| "validateTransportKind env t sec ModbusRtu =
     requireId (tp_portName t) sec ''port_name'' @ requirePositive (tp_baudRate t) sec ''baud_rate''
     @ rejectIf (tp_dataBits t < 5 \<or> 8 < tp_dataBits t) sec ''data_bits'' ''must be in [5, 8]''
     @ rejectIf (tp_stopBits t \<noteq> 1 \<and> tp_stopBits t \<noteq> 2) sec ''stop_bits'' ''must be 1 or 2''
     @ rejectIf (tp_parity t \<notin> set [''none'', ''even'', ''odd'']) sec ''parity'' ''must be none, even, or odd''"
| "validateTransportKind env t sec OpcUaClient =
     rejectIf (\<not> le_hasOpcUa env) sec ''kind'' ''OPC UA support is disabled in this build''
     @ requireId (tp_endpointUrl t) sec ''endpoint_url''
     @ (let url = tp_endpointUrl t in
        rejectIf (\<not> le_urlValid env url \<or> le_urlScheme env url \<noteq> ''opc.tcp'' \<or> le_urlHost env url = []) sec ''endpoint_url''
          ''must be a valid opc.tcp:// URL with a host'')
     @ rejectIf (tp_securityPolicy t \<noteq> ''None'') sec ''security_policy'' ''only None is currently implemented''
     @ rejectIf (\<not> qcontains ''%1'' (tp_nodeIdTemplate t)) sec ''node_id_template'' ''must contain %1 for the register address''"
| "validateTransportKind env t sec MqttClient =
     rejectIf (\<not> le_hasMqttQt env) sec ''kind'' ''Qt MQTT support is disabled in this build''
     @ requireId (tp_brokerUri t) sec ''broker_uri''
     @ (let url = tp_brokerUri t in
        rejectIf (\<not> le_urlValid env url \<or> le_urlHost env url = [] \<or> le_urlScheme env url \<notin> set [''tcp'', ''mqtt'']) sec ''broker_uri''
          ''Qt MQTT requires tcp:// or mqtt:// with a host'')
     @ validateMqttTail t sec"
| "validateTransportKind env t sec MqttPahoClient =
     rejectIf (\<not> le_hasMqttPaho env) sec ''kind'' ''Paho MQTT support is disabled in this build''
     @ requireId (tp_brokerUri t) sec ''broker_uri''
     @ (let url = tp_brokerUri t in
        rejectIf (\<not> le_urlValid env url \<or> le_urlHost env url = []
            \<or> le_urlScheme env url \<notin> set [''tcp'', ''ssl'', ''ws'', ''wss'']) sec ''broker_uri''
          ''Paho MQTT requires tcp/ssl/ws/wss URL with a host'')
     @ validateMqttTail t sec"
| "validateTransportKind env t sec S7Client =
     requireId (tp_host t) sec ''host'' @ validatePort (tp_port t) sec ''port''
     @ rejectIf True sec ''kind'' ''s7_client is not implemented in this build''"

definition validateSlaveId :: "TransportConfig \<Rightarrow> qstring \<Rightarrow> ValidationError list" where
  "validateSlaveId t sec =
     (if tp_kind t \<in> set [ModbusTcpClient, ModbusTcpServer, ModbusRtu]
      then let maxSlaveId = (if tp_kind t = ModbusRtu then 247 else 255) in
           rejectIf (tp_slaveId t < 0 \<or> maxSlaveId < tp_slaveId t) sec ''slave_id'' (qarg ''must be in [0, %1]'' (show_int maxSlaveId))
      else [])"

definition validateTransport :: "LoaderEnv \<Rightarrow> nat \<Rightarrow> TransportConfig \<Rightarrow> ValidationError list" where
  "validateTransport env i t = (let sec = qsection ''transport[%1]'' i in
     requireId (tp_id t) sec ''id''
     @ requirePositive (tp_connectTimeoutMs t) sec ''connect_timeout_ms''
     @ requirePositive (tp_requestTimeoutMs t) sec ''request_timeout_ms''
     @ requireNonNegative (tp_reconnectIntervalMs t) sec ''reconnect_interval_ms''
     @ validateScheduler (tp_scheduler t) (sec @ ''.scheduler'')
     @ validateTransportKind env t sec (tp_kind t)
     @ validateSlaveId t sec
     @ for_each_indexed (\<lambda>j r. validateRange (sec @ qsection ''.listen_ranges[%1]'' j) ''range''
         (wt_startAddress r) (wt_size r) 65536) (tp_listenRanges t))"

definition validatePollRange :: "nat \<Rightarrow> PollRangeConfig \<Rightarrow> ValidationError list" where
  "validatePollRange i p = (let sec = qsection ''poll_range[%1]'' i in
     requireId (prg_moduleId p) sec ''module_id''
     @ (if \<not> isKnownTable (prg_table p)
        then rejectIf True sec ''table'' (qarg (''unknown register table '%1'' @ apos) (prg_table p))
        else validateRange sec ''range'' (prg_startAddress p) (prg_count p) 65536))"

definition validateSinkWindow :: "nat \<Rightarrow> SinkWindowConfig \<Rightarrow> ValidationError list" where
  "validateSinkWindow i w = (let sec = qsection ''sink_window[%1]'' i in
     requireId (win_moduleId w) sec ''module_id''
     @ (if \<not> isWritableTable (win_table w)
        then rejectIf True sec ''table'' (qarg ''table '%1' is not writable'' (win_table w))
        else validateRange sec ''range'' (win_startAddress w) (win_size w) 65536)
     @ requireNonNegative (win_debounceMs w) (sec @ ''.flush'') ''debounce_ms''
     @ requireNonNegative (win_keepaliveMs w) (sec @ ''.flush'') ''keepalive_ms''
     @ rejectIf (win_size w < int (length (win_initial w))) sec ''initial'' ''contains more values than the sink window'')"

definition validateHeartbeat :: "nat \<Rightarrow> HeartbeatSection \<Rightarrow> ValidationError list" where
  "validateHeartbeat i h = (let sec = qsection ''heartbeat[%1]'' i in
     requireId (hbs_moduleId h) sec ''module_id''
     @ (if \<not> isWritableTable (hbs_table h)
        then rejectIf True sec ''table'' (qarg ''table '%1' is not writable'' (hbs_table h))
        else if hbs_values h \<noteq> []
        then validateRange sec ''values'' (hbs_address h) (int (length (hbs_values h))) 65536 else [])
     @ rejectIf (hbs_incrementer h \<noteq> ''none'') sec ''incrementer''
         ''incrementing heartbeat payloads are not implemented; use none'')"

definition validateAckWatch :: "nat \<Rightarrow> AckWatchConfig \<Rightarrow> ValidationError list" where
  "validateAckWatch i a = (let sec = qsection ''ack_watch[%1]'' i in
     requireId (aw_moduleId a) sec ''module_id''
     @ requirePositive (aw_timeoutMs a) sec ''timeout_ms''
     @ rejectIf (aw_expected a = QInvalid) sec ''expected'' ''is required'')"

definition validateCommandWrite :: "qstring \<Rightarrow> nat \<Rightarrow> CommandWriteEntry \<Rightarrow> ValidationError list" where
  "validateCommandWrite sec j w = (let writeSec = sec @ qsection ''.writes[%1]'' j in
     rejectIf (\<not> isWritableTable (cwe_table w)) writeSec ''table'' (qarg ''table '%1' is not writable'' (cwe_table w))
     @ validateRange writeSec ''address'' (cwe_address w) 1 1)"

definition validateCommand :: "nat \<Rightarrow> CommandSection \<Rightarrow> ValidationError list" where
  "validateCommand i c = (let sec = qsection ''command[%1]'' i in
     requireId (cms_moduleId c) sec ''module_id''
     @ for_each_indexed (validateCommandWrite sec) (cms_writes c))"

definition validatePortRef :: "ScalarType \<Rightarrow> PortRefConfig \<Rightarrow> qstring \<Rightarrow> bool \<Rightarrow> ValidationError list" where
  "validatePortRef type p portSec source =
     rejectIf (source \<and> blank (pf_port p)) portSec ''port'' ''must not be empty''
     @ rejectIf (pf_table p \<noteq> [] \<and> \<not> isKnownTable (pf_table p)) portSec ''table'' (qarg (''unknown register table '%1'' @ apos) (pf_table p))
     @ rejectIf (source \<and> pf_table p = []) portSec ''table'' ''must not be empty''
     @ validateRange portSec ''addr'' (pf_address p) (max 1 (int (registerCountFor type))) 65536
     @ rejectIf (pf_bit p < - 1 \<or> 15 < pf_bit p) portSec ''bit'' ''must be in [0, 15] when set''
     @ rejectIf (0 \<le> pf_bit p \<and> type \<noteq> Bool) portSec ''bit'' ''bit is only supported for Bool datapoints''
     @ rejectIf (pf_shift p < 0 \<or> 63 < pf_shift p) portSec ''shift'' ''must be in [0, 63]''
     @ rejectIf (type \<noteq> Bool \<and> pf_mask p = 0) portSec ''mask'' ''must not be zero''
     @ rejectIf (pf_wordOrder p \<noteq> [] \<and> pf_wordOrder p \<notin> set [''ABCD'', ''CDAB'', ''BADC'', ''DCBA'']) portSec ''wordOrder''
         ''must be ABCD, CDAB, BADC, or DCBA''
     @ rejectIf (\<not> isfinite (pf_scale p) \<or> \<not> isfinite (pf_offset p) \<or> fp_eq (pf_scale p) 0) portSec ''scale''
         ''scale must be finite and non-zero; offset must be finite''
     @ rejectIf (type = Bool \<and> (pf_shift p \<noteq> 0 \<or> pf_mask p \<noteq> - 1 \<or> \<not> fp_eq (pf_scale p) double_one
           \<or> \<not> fp_eq (pf_offset p) 0 \<or> pf_wordOrder p \<noteq> [])) portSec ''transform''
         ''Bool uses only bit; mask/shift/wordOrder/scale/offset are not applicable''
     @ rejectIf ((type = F32 \<or> type = F64) \<and> (pf_shift p \<noteq> 0 \<or> pf_mask p \<noteq> - 1)) portSec ''transform''
         ''floating-point codecs do not apply mask/shift''
     @ rejectIf (\<not> source \<and> isMultiRegister type \<and> (pf_shift p \<noteq> 0 \<or> pf_mask p \<noteq> - 1)) portSec ''transform''
         ''multi-register sinks require full-word writes; mask/shift are not supported''"

definition validateAck :: "DatapointAckRef \<Rightarrow> qstring \<Rightarrow> ValidationError list" where
  "validateAck a sec =
     rejectIf True (sec @ ''.ack'') ''ack'' (''datapoint ack policies are not implemented; use a standalone ['' @ ''[ack_watch]]'')
     @ requirePositive (ackr_timeoutMs a) (sec @ ''.ack'') ''timeout_ms''
     @ rejectIf (blank (ackr_dp a)) (sec @ ''.ack'') ''dp'' ''must not be empty''
     @ rejectIf (ackr_expected a = QInvalid) (sec @ ''.ack'') ''expected'' ''is required''"

definition validateDatapoint :: "nat \<Rightarrow> DatapointConfig \<Rightarrow> ValidationError list" where
  "validateDatapoint i d = (let sec = qsection ''datapoint[%1]'' i in
     requireId (dpc_id d) sec ''id''
     @ rejectIf (dpc_kind d \<notin> set [''Status'', ''Command'', ''Bidirectional'']) sec ''kind''
         (qarg (''unknown datapoint kind '%1'' @ apos) (dpc_kind d))
     @ rejectIf (dpc_type d = String) sec ''type''
         ''String datapoints require an explicit register length, which is not supported yet''
     @ rejectIf (dpc_policy d \<noteq> [] \<and> dpc_policy d \<noteq> ''ContinuousMirror'') sec ''policy''
         (qarg ''policy '%1' is not implemented; use ContinuousMirror'' (dpc_policy d))
     @ (if dpc_hasSource d then validatePortRef (dpc_type d) (dpc_source d) (sec @ ''.source'') True else [])
     @ (if dpc_hasSink d then validatePortRef (dpc_type d) (dpc_sink d) (sec @ ''.sink'') False else [])
     @ (if dpc_hasAck d then validateAck (dpc_ack d) sec else []))"

definition validateBridge :: "nat \<Rightarrow> BridgeConfig \<Rightarrow> ValidationError list" where
  "validateBridge i b = (let sec = qsection ''bridge[%1]'' i in
     (if 0 < br_mirrorCount b
      then if br_mirrorPolicy b = Periodic then requirePositive (br_mirrorPeriodMs b) sec ''mirror_period_ms''
           else rejectIf (br_mirrorPeriodMs b \<noteq> 0) sec ''mirror_period_ms'' (''is only valid when mirror_policy is 'Periodic'' @ apos)
      else [])
     @ (if 0 < br_writeCount b
        then validateRange sec ''write'' (br_writeStart b) (br_writeCount b) 123
             @ (let plcStart = br_writeStart b - br_offset b in
                rejectIf (plcStart < 0 \<or> 65536 < plcStart + br_writeCount b) sec ''offset'' ''write range maps outside PLC address space'')
        else [])
     @ (if 0 < br_mirrorCount b
        then validateRange sec ''mirror'' (br_mirrorStart b) (br_mirrorCount b) 65536
             @ (let serverStart = br_mirrorStart b + br_offset b in
                rejectIf (serverStart < 0 \<or> 65536 < serverStart + br_mirrorCount b) sec ''offset''
                  ''mirror range maps outside server address space'')
        else []))"

definition validatePlugin :: "nat \<Rightarrow> PluginConfig \<Rightarrow> ValidationError list" where
  "validatePlugin i p = requireId (plg_dllPath p) (qsection ''plugin[%1]'' i) ''dll''"

definition validateValues :: "LoaderEnv \<Rightarrow> ConfigSchema \<Rightarrow> ValidationError list" where
  "validateValues env s =
     validateMeta (cs_meta s)
     @ for_each_indexed (validateCodec env) (cs_codecs s)
     @ for_each_indexed (validateTransport env) (cs_transports s)
     @ for_each_indexed validatePollRange (cs_pollRanges s)
     @ for_each_indexed validateSinkWindow (cs_sinkWindows s)
     @ for_each_indexed validateHeartbeat (cs_heartbeats s)
     @ for_each_indexed validateAckWatch (cs_ackWatches s)
     @ for_each_indexed validateCommand (cs_commands s)
     @ for_each_indexed validateDatapoint (cs_datapoints s)
     @ for_each_indexed validateBridge (cs_bridges s)
     @ for_each_indexed validatePlugin (cs_plugins s)"

subsection \<open>\<open>validateRefs\<close>\<close>

text \<open>
  \<open>std::map::emplace\<close> keeps the first entry of a key, so the lookup tables by id find the first
  section with that id; the sets of ids are their domains.
\<close>

definition transportById :: "ConfigSchema \<Rightarrow> qstring \<Rightarrow> TransportConfig option" where
  "transportById s i = find (\<lambda>t. tp_id t = i) (cs_transports s)"

definition sinkWindowById :: "ConfigSchema \<Rightarrow> qstring \<Rightarrow> SinkWindowConfig option" where
  "sinkWindowById s i = find (\<lambda>w. win_moduleId w = i) (cs_sinkWindows s)"

definition datapointById :: "ConfigSchema \<Rightarrow> qstring \<Rightarrow> DatapointConfig option" where
  "datapointById s i = find (\<lambda>d. dpc_id d = i) (cs_datapoints s)"

definition transportIds :: "ConfigSchema \<Rightarrow> qstring list" where
  "transportIds s = map tp_id (cs_transports s)"

definition checkTransportRef :: "ConfigSchema \<Rightarrow> qstring \<Rightarrow> qstring \<Rightarrow> qstring \<Rightarrow> ValidationError list" where
  "checkTransportRef s tid sec field =
     rejectIf (tid \<noteq> [] \<and> tid \<notin> set (transportIds s)) sec field (qarg (''references unknown transport '%1'' @ apos) tid)"

definition checkPortRef :: "ConfigSchema \<Rightarrow> PortRefConfig \<Rightarrow> qstring \<Rightarrow> ValidationError list" where
  "checkPortRef s p sec =
     rejectIf (pf_port p \<noteq> [] \<and> pf_port p \<notin> set (transportIds s)) sec ''port''
       (qarg (''references unknown transport '%1'' @ apos) (pf_port p))"

definition checkCodecRef :: "ConfigSchema \<Rightarrow> qstring \<Rightarrow> qstring \<Rightarrow> ValidationError list" where
  "checkCodecRef s i sec =
     rejectIf (\<not> (i = [] \<or> i \<in> set (map cdc_id (cs_codecs s)) \<or> isBuiltinCodecId i)) sec ''codec''
       (qarg (''references unknown codec '%1'' @ apos) i)"

text \<open>The protocol limit of a request of \<open>n\<close> registers on the transport \<open>tid\<close>.\<close>

definition overRequestLimit :: "ConfigSchema \<Rightarrow> qstring \<Rightarrow> int \<Rightarrow> int \<Rightarrow> bool" where
  "overRequestLimit s tid n limit =
     (case transportById s tid of None \<Rightarrow> False
      | Some t \<Rightarrow> usesModbusClientRequestLimits (tp_kind t) \<and> limit < n)"

definition limitMessage :: "qstring \<Rightarrow> int \<Rightarrow> int \<Rightarrow> qstring \<Rightarrow> qstring" where
  "limitMessage template n limit table = qarg (qarg (qarg template (show_int n)) (show_int limit)) table"

definition refsPollRange :: "ConfigSchema \<Rightarrow> nat \<Rightarrow> PollRangeConfig \<Rightarrow> ValidationError list" where
  "refsPollRange s i p = (let sec = qsection ''poll_range[%1]'' i in
     checkTransportRef s (prg_transport p) sec ''transport''
     @ rejectIf (overRequestLimit s (prg_transport p) (prg_count p) (maxReadCount (prg_table p))) sec ''range''
         (limitMessage (''count %1 exceeds Modbus read maximum (%2) for table '%3'' @ apos) (prg_count p)
            (maxReadCount (prg_table p)) (prg_table p)))"

definition refsSinkWindow :: "ConfigSchema \<Rightarrow> nat \<Rightarrow> SinkWindowConfig \<Rightarrow> ValidationError list" where
  "refsSinkWindow s i w = (let sec = qsection ''sink_window[%1]'' i in
     checkTransportRef s (win_transport w) sec ''transport''
     @ rejectIf (overRequestLimit s (win_transport w) (win_size w) (maxWriteCount (win_table w))) sec ''range''
         (limitMessage (''size %1 exceeds Modbus write maximum (%2) for table '%3'' @ apos) (win_size w)
            (maxWriteCount (win_table w)) (win_table w)))"

definition refsHeartbeat :: "ConfigSchema \<Rightarrow> nat \<Rightarrow> HeartbeatSection \<Rightarrow> ValidationError list" where
  "refsHeartbeat s i h = (let sec = qsection ''heartbeat[%1]'' i in
     checkTransportRef s (hbs_transport h) sec ''transport''
     @ rejectIf (overRequestLimit s (hbs_transport h) (int (length (hbs_values h))) (maxWriteCount (hbs_table h))) sec ''values''
         (limitMessage (''value count %1 exceeds Modbus write maximum (%2) for table '%3'' @ apos) (int (length (hbs_values h)))
            (maxWriteCount (hbs_table h)) (hbs_table h)))"

definition refsCommand :: "ConfigSchema \<Rightarrow> nat \<Rightarrow> CommandSection \<Rightarrow> ValidationError list" where
  "refsCommand s i c = checkTransportRef s (cms_transport c) (qsection ''command[%1]'' i) ''transport''"

text \<open>Overlaps of the independent writers of one register table.\<close>

definition sameRegisters :: "qstring \<Rightarrow> qstring \<Rightarrow> int \<Rightarrow> int \<Rightarrow> qstring \<Rightarrow> qstring \<Rightarrow> int \<Rightarrow> int \<Rightarrow> bool" where
  "sameRegisters tr table start count tr' table' start' count' =
     (tr = tr' \<and> canonicalTable table = canonicalTable table' \<and> rangesOverlap start count start' count')"

definition overlapMessage :: "qstring \<Rightarrow> nat \<Rightarrow> qstring \<Rightarrow> qstring" where
  "overlapMessage template j tr = qarg (qarg (template @ apos) (show_nat j)) tr"

definition windowOverlaps :: "ConfigSchema \<Rightarrow> nat \<Rightarrow> SinkWindowConfig \<Rightarrow> ValidationError list" where
  "windowOverlaps s i a = concat (map (\<lambda>(j, b).
     rejectIf (sameRegisters (win_transport a) (win_table a) (win_startAddress a) (win_size a)
          (win_transport b) (win_table b) (win_startAddress b) (win_size b))
       (qsection ''sink_window[%1]'' j) ''range''
       (overlapMessage ''overlaps sink_window[%1] on transport '%2'' i (win_transport a)))
     (enumerate (i + 1) (drop (i + 1) (cs_sinkWindows s))))"

definition heartbeatOverlaps :: "ConfigSchema \<Rightarrow> nat \<Rightarrow> HeartbeatSection \<Rightarrow> ValidationError list" where
  "heartbeatOverlaps s i h = (let sec = qsection ''heartbeat[%1]'' i; n = int (length (hbs_values h)) in
     for_each_indexed (\<lambda>j w.
       rejectIf (sameRegisters (hbs_transport h) (hbs_table h) (hbs_address h) n
            (win_transport w) (win_table w) (win_startAddress w) (win_size w)) sec ''address''
         (overlapMessage ''overlaps sink_window[%1] on transport '%2'' j (win_transport w))) (cs_sinkWindows s)
     @ for_each_indexed (\<lambda>j k.
       rejectIf (sameRegisters (hbs_transport h) (hbs_table h) (hbs_address h) n
            (hbs_transport k) (hbs_table k) (hbs_address k) (int (length (hbs_values k)))) sec ''address''
         (overlapMessage ''overlaps heartbeat[%1] on transport '%2'' j (hbs_transport h))) (take i (cs_heartbeats s)))"

definition commandWriteOverlaps :: "ConfigSchema \<Rightarrow> CommandSection \<Rightarrow> qstring \<Rightarrow> CommandWriteEntry \<Rightarrow> ValidationError list" where
  "commandWriteOverlaps s c sec e =
     for_each_indexed (\<lambda>j w.
       rejectIf (sameRegisters (cms_transport c) (cwe_table e) (cwe_address e) 1
            (win_transport w) (win_table w) (win_startAddress w) (win_size w)) sec ''address''
         (overlapMessage ''overlaps sink_window[%1] on transport '%2'' j (win_transport w))) (cs_sinkWindows s)
     @ for_each_indexed (\<lambda>j h.
       rejectIf (sameRegisters (cms_transport c) (cwe_table e) (cwe_address e) 1
            (hbs_transport h) (hbs_table h) (hbs_address h) (int (length (hbs_values h)))) sec ''address''
         (overlapMessage ''overlaps heartbeat[%1] on transport '%2'' j (hbs_transport h))) (cs_heartbeats s)"

definition commandOverlaps :: "ConfigSchema \<Rightarrow> nat \<Rightarrow> CommandSection \<Rightarrow> ValidationError list" where
  "commandOverlaps s i c =
     for_each_indexed (\<lambda>w e. commandWriteOverlaps s c
       (qarg (qarg ''command[%1].writes[%2]'' (show_nat i)) (show_nat w)) e) (cms_writes c)"

text \<open>References of a datapoint.\<close>

definition words :: "ScalarType \<Rightarrow> int" where
  "words type = max 1 (int (registerCountFor type))"

definition sourcePolled :: "ConfigSchema \<Rightarrow> DatapointConfig \<Rightarrow> bool" where
  "sourcePolled s d = list_ex (\<lambda>p. prg_transport p = pf_port (dpc_source d)
     \<and> canonicalTable (prg_table p) = canonicalTable (pf_table (dpc_source d))
     \<and> prg_startAddress p \<le> pf_address (dpc_source d)
     \<and> pf_address (dpc_source d) + words (dpc_type d) \<le> prg_startAddress p + prg_count p) (cs_pollRanges s)"

definition serverRouteDriven :: "ConfigSchema \<Rightarrow> DatapointConfig \<Rightarrow> bool" where
  "serverRouteDriven s d =
     (case transportById s (pf_port (dpc_source d)) of None \<Rightarrow> False
      | Some t \<Rightarrow> tp_kind t = ModbusTcpServer \<and> list_ex (\<lambda>r. rt_from r = dpc_id d) (cs_routes s))"

definition refsSource :: "ConfigSchema \<Rightarrow> DatapointConfig \<Rightarrow> qstring \<Rightarrow> ValidationError list" where
  "refsSource s d sec =
     checkPortRef s (dpc_source d) (sec @ ''.source'')
     @ checkCodecRef s (pf_codec (dpc_source d)) (sec @ ''.source'')
     @ rejectIf (\<not> sourcePolled s d \<and> \<not> serverRouteDriven s d) (sec @ ''.source'') ''range''
         ''is not fully covered by a poll_range and is not a Modbus-server route source''"

definition refsNamedWindow :: "DatapointConfig \<Rightarrow> qstring \<Rightarrow> SinkWindowConfig \<Rightarrow> ValidationError list" where
  "refsNamedWindow d sec w =
     (let lo = win_startAddress w; hi = int_add (win_startAddress w) (win_size w); p = dpc_sink d in
      rejectIf (pf_address p < lo \<or> hi < int_add (pf_address p) (words (dpc_type d))) (sec @ ''.sink'') ''addr''
        (qarg (qarg (qarg (qarg ''range at %1 outside sink_window '%2' [%3,%4)'' (show_int (pf_address p))) (pf_window p))
           (show_int lo)) (show_int hi))
      @ rejectIf (pf_port p \<noteq> [] \<and> pf_port p \<noteq> win_transport w) (sec @ ''.sink'') ''port''
        (qarg (''must match sink_window transport '%1'' @ apos) (win_transport w))
      @ rejectIf (pf_table p \<noteq> [] \<and> canonicalTable (pf_table p) \<noteq> canonicalTable (win_table w)) (sec @ ''.sink'') ''table''
        (qarg (''must match sink_window table '%1'' @ apos) (win_table w)))"

definition windowMatches :: "DatapointConfig \<Rightarrow> SinkWindowConfig \<Rightarrow> bool" where
  "windowMatches d w = (let p = dpc_sink d in
     pf_port p = win_transport w \<and> canonicalTable (pf_table p) = canonicalTable (win_table w)
     \<and> win_startAddress w \<le> pf_address p \<and> pf_address p + words (dpc_type d) \<le> win_startAddress w + win_size w)"

definition refsSink :: "ConfigSchema \<Rightarrow> DatapointConfig \<Rightarrow> qstring \<Rightarrow> ValidationError list" where
  "refsSink s d sec = (let p = dpc_sink d in
     rejectIf (pf_window p \<noteq> [] \<and> sinkWindowById s (pf_window p) = None) (sec @ ''.sink'') ''window''
       (qarg (''references unknown sink_window '%1'' @ apos) (pf_window p))
     @ checkPortRef s p (sec @ ''.sink'')
     @ checkCodecRef s (pf_codec p) (sec @ ''.sink'')
     @ (if pf_window p \<noteq> []
        then (case sinkWindowById s (pf_window p) of None \<Rightarrow> [] | Some w \<Rightarrow> refsNamedWindow d sec w)
        else rejectIf (length (filter (windowMatches d) (cs_sinkWindows s)) = 0) (sec @ ''.sink'') ''window''
          ''must name a sink_window or be fully covered by one on the same transport/table''))"

definition typeLimit :: "ScalarType \<Rightarrow> u64" where
  "typeLimit type = (let width = typeBitWidth type in if 64 \<le> width then - 1 else push_bit width 1 - 1)"

definition checkMask :: "ScalarType \<Rightarrow> PortRefConfig \<Rightarrow> qstring \<Rightarrow> ValidationError list" where
  "checkMask type p portSec =
     (let width = typeBitWidth type; limit = typeLimit type in
      rejectIf (pf_mask p \<noteq> - 1 \<and> pf_mask p AND NOT limit \<noteq> 0) portSec ''mask''
        (qarg (qarg (qarg ''mask 0x%1 exceeds type=%2 bit width (%3)'' (show_hex (unat (pf_mask p)))) (scalarTypeName type)) (show_nat width))
      @ (if type = Bool \<or> type = F32 \<or> type = F64 then []
         else let effectiveMask = (if pf_mask p = - 1 then limit else pf_mask p) in
              rejectIf (pf_shift p < 0 \<or> int width \<le> pf_shift p \<or> drop_bit (nat (pf_shift p)) limit < effectiveMask) portSec ''shift''
                (qarg (qarg (qarg ''mask shifted by %1 exceeds type=%2 bit width (%3)'' (show_int (pf_shift p))) (scalarTypeName type))
                   (show_nat width))))"

definition refsDatapoint :: "ConfigSchema \<Rightarrow> nat \<Rightarrow> DatapointConfig \<Rightarrow> ValidationError list" where
  "refsDatapoint s i d = (let sec = qsection ''datapoint[%1]'' i; src = dpc_hasSource d; snk = dpc_hasSink d in
     (if src then refsSource s d sec else [])
     @ (if snk then refsSink s d sec else [])
     @ rejectIf (isMultiRegister (dpc_type d) \<and> src \<and> pf_wordOrder (dpc_source d) = []) (sec @ ''.source'') ''wordOrder''
         (qarg ''type=%1 requires wordOrder (ABCD/CDAB/BADC/DCBA)'' (scalarTypeName (dpc_type d)))
     @ rejectIf (dpc_type d = Bool \<and> src \<and> pf_bit (dpc_source d) < 0) (sec @ ''.source'') ''bit'' ''type=Bool requires bit (0..15)''
     @ rejectIf (dpc_type d = EnumU16 \<and> src \<and> pf_codec (dpc_source d) = []) (sec @ ''.source'') ''codec''
         ''type=EnumU16 requires an explicit codec''
     @ rejectIf (dpc_kind d = ''Status'' \<and> \<not> src) sec ''kind'' ''kind=Status requires source''
     @ rejectIf (dpc_kind d = ''Command'' \<and> \<not> snk) sec ''kind'' ''kind=Command requires sink''
     @ rejectIf (dpc_kind d = ''Bidirectional'' \<and> (\<not> src \<or> \<not> snk)) sec ''kind'' ''kind=Bidirectional requires both source and sink''
     @ (if src then checkMask (dpc_type d) (dpc_source d) (sec @ ''.source'') else [])
     @ (if snk then checkMask (dpc_type d) (dpc_sink d) (sec @ ''.sink'') else []))"

definition refsAckWatch :: "ConfigSchema \<Rightarrow> nat \<Rightarrow> AckWatchConfig \<Rightarrow> ValidationError list" where
  "refsAckWatch s i a =
     rejectIf (aw_dp a \<noteq> [] \<and> datapointById s (aw_dp a) = None) (qsection ''ack_watch[%1]'' i) ''dp''
       (qarg (''references unknown datapoint '%1'' @ apos) (aw_dp a))"

text \<open>The register range of a datapoint source within a listen range of a server.\<close>

definition listenCovered :: "TransportConfig \<Rightarrow> DatapointConfig \<Rightarrow> bool" where
  "listenCovered t d = list_ex (\<lambda>r. canonicalRegisterType (wt_table r) = canonicalTable (pf_table (dpc_source d))
     \<and> wt_startAddress r \<le> pf_address (dpc_source d)
     \<and> pf_address (dpc_source d) + words (dpc_type d) \<le> wt_startAddress r + wt_size r) (tp_listenRanges t)"

definition refsRouteSource :: "ConfigSchema \<Rightarrow> DatapointConfig \<Rightarrow> qstring \<Rightarrow> ValidationError list" where
  "refsRouteSource s d sec =
     (case transportById s (pf_port (dpc_source d)) of None \<Rightarrow> []
      | Some t \<Rightarrow>
          if tp_kind t \<noteq> ModbusTcpServer
          then rejectIf True sec ''from'' ''source datapoint must use a modbus_tcp_server transport''
          else rejectIf (\<not> listenCovered t d) sec ''from'' ''source datapoint range is outside the server listen ranges'')"

definition refsRoute :: "ConfigSchema \<Rightarrow> nat \<Rightarrow> RouteConfig \<Rightarrow> ValidationError list" where
  "refsRoute s i r = (let sec = qsection ''route[%1]'' i in
     rejectIf (rt_from r \<noteq> [] \<and> datapointById s (rt_from r) = None) sec ''from''
       (qarg (''references unknown datapoint '%1'' @ apos) (rt_from r))
     @ rejectIf (rt_to r \<noteq> [] \<and> datapointById s (rt_to r) = None) sec ''to''
       (qarg (''references unknown datapoint '%1'' @ apos) (rt_to r))
     @ (case datapointById s (rt_from r) of None \<Rightarrow> []
        | Some d \<Rightarrow> rejectIf (\<not> dpc_hasSource d) sec ''from'' (qarg ''source datapoint '%1' has no source port'' (rt_from r)))
     @ (case datapointById s (rt_from r) of None \<Rightarrow> []
        | Some d \<Rightarrow> if dpc_hasSource d then refsRouteSource s d sec else [])
     @ (case datapointById s (rt_to r) of None \<Rightarrow> []
        | Some d \<Rightarrow> rejectIf (\<not> dpc_hasSink d) sec ''to'' (qarg ''target datapoint '%1' has no sink port'' (rt_to r)))
     @ rejectIf (rt_policy r \<noteq> ''ContinuousMirror'') sec ''policy''
       (qarg ''route policy '%1' is not implemented; use ContinuousMirror'' (rt_policy r)))"

text \<open>The windows of a bridge: server addresses are PLC addresses plus the offset.\<close>

definition serverCovers :: "TransportConfig \<Rightarrow> int \<Rightarrow> int \<Rightarrow> bool" where
  "serverCovers t start count =
     (count \<le> 0 \<or> list_ex (\<lambda>r. wt_table r = HoldingRegisters \<and> wt_startAddress r \<le> start
        \<and> start + count \<le> wt_startAddress r + wt_size r) (tp_listenRanges t))"

definition mappedMirrorStart :: "BridgeConfig \<Rightarrow> int" where
  "mappedMirrorStart b = br_mirrorStart b + br_offset b"

definition mappedPlcWriteStart :: "BridgeConfig \<Rightarrow> int" where
  "mappedPlcWriteStart b = br_writeStart b - br_offset b"

definition refsBridgeEnds :: "ConfigSchema \<Rightarrow> BridgeConfig \<Rightarrow> qstring \<Rightarrow> ValidationError list" where
  "refsBridgeEnds s b sec =
     checkTransportRef s (br_server b) sec ''server''
     @ checkTransportRef s (br_plc b) sec ''plc''
     @ (case transportById s (br_server b) of None \<Rightarrow> []
        | Some t \<Rightarrow> rejectIf (tp_kind t \<noteq> ModbusTcpServer) sec ''server'' ''must reference a modbus_tcp_server transport'')
     @ (case transportById s (br_plc b) of None \<Rightarrow> []
        | Some t \<Rightarrow> rejectIf (\<not> usesModbusClientRequestLimits (tp_kind t)) sec ''plc''
            ''must reference a modbus_tcp_client or modbus_rtu transport'')
     @ rejectIf (br_writeCount b < 0 \<or> br_mirrorCount b < 0) sec ''count'' ''write_count / mirror_count must be >= 0''
     @ (case transportById s (br_server b) of None \<Rightarrow> []
        | Some t \<Rightarrow>
            if tp_kind t \<noteq> ModbusTcpServer then []
            else rejectIf (\<not> serverCovers t (br_writeStart b) (br_writeCount b)) sec ''write''
                   ''write range is outside the server HR listen ranges''
                 @ rejectIf (\<not> serverCovers t (int_add (br_mirrorStart b) (br_offset b)) (br_mirrorCount b)) sec ''mirror''
                   ''mapped mirror range is outside the server HR listen ranges'')
     @ rejectIf (rangesOverlap (br_writeStart b) (br_writeCount b) (mappedMirrorStart b) (br_mirrorCount b)) sec ''range''
         ''server write range overlaps the mapped mirror range''"

definition hitsBridgeWrite :: "BridgeConfig \<Rightarrow> qstring \<Rightarrow> qstring \<Rightarrow> int \<Rightarrow> int \<Rightarrow> bool" where
  "hitsBridgeWrite b tr table start count =
     (tr = br_plc b \<and> canonicalTable table = ''HR''
      \<and> rangesOverlap (mappedPlcWriteStart b) (br_writeCount b) start count)"

definition refsBridgeWriters :: "ConfigSchema \<Rightarrow> BridgeConfig \<Rightarrow> qstring \<Rightarrow> ValidationError list" where
  "refsBridgeWriters s b sec =
     for_each_indexed (\<lambda>j w.
       rejectIf (hitsBridgeWrite b (win_transport w) (win_table w) (win_startAddress w) (win_size w)) sec ''write''
         (qsection ''mapped PLC write range overlaps sink_window[%1]'' j)) (cs_sinkWindows s)
     @ for_each_indexed (\<lambda>j h.
       rejectIf (hitsBridgeWrite b (hbs_transport h) (hbs_table h) (hbs_address h) (int (length (hbs_values h)))) sec ''write''
         (qsection ''mapped PLC write range overlaps heartbeat[%1]'' j)) (cs_heartbeats s)
     @ for_each_indexed (\<lambda>j c. for_each_indexed (\<lambda>w e.
       rejectIf (hitsBridgeWrite b (cms_transport c) (cwe_table e) (cwe_address e) 1) sec ''write''
         (qarg (qarg ''mapped PLC write range overlaps command[%1].writes[%2]'' (show_nat j)) (show_nat w))) (cms_writes c)) (cs_commands s)"

definition coveredByOnePoll :: "ConfigSchema \<Rightarrow> BridgeConfig \<Rightarrow> bool" where
  "coveredByOnePoll s b = list_ex (\<lambda>p. prg_transport p = br_plc b \<and> canonicalTable (prg_table p) = ''HR''
     \<and> prg_startAddress p \<le> br_mirrorStart b
     \<and> br_mirrorStart b + br_mirrorCount b \<le> prg_startAddress p + prg_count p) (cs_pollRanges s)"

definition refsBridgeMirror :: "ConfigSchema \<Rightarrow> BridgeConfig \<Rightarrow> qstring \<Rightarrow> ValidationError list" where
  "refsBridgeMirror s b sec =
     rejectIf (0 < br_mirrorCount b \<and> br_plc b \<in> set (transportIds s) \<and> \<not> coveredByOnePoll s b) sec ''mirror''
       (qarg (qarg (qarg (''mirror range [%1,%2) must be fully covered by one HR poll_range on plc '%3'' @ apos)
          (show_int (br_mirrorStart b))) (show_int (int_add (br_mirrorStart b) (br_mirrorCount b)))) (br_plc b))"

definition refsBridge :: "ConfigSchema \<Rightarrow> nat \<Rightarrow> BridgeConfig \<Rightarrow> ValidationError list" where
  "refsBridge s i b = (let sec = qsection ''bridge[%1]'' i in
     refsBridgeEnds s b sec @ refsBridgeWriters s b sec @ refsBridgeMirror s b sec)"

definition serverWindowsOverlap :: "BridgeConfig \<Rightarrow> BridgeConfig \<Rightarrow> bool" where
  "serverWindowsOverlap a b =
     (rangesOverlap (br_writeStart a) (br_writeCount a) (br_writeStart b) (br_writeCount b)
      \<or> rangesOverlap (br_writeStart a) (br_writeCount a) (mappedMirrorStart b) (br_mirrorCount b)
      \<or> rangesOverlap (mappedMirrorStart a) (br_mirrorCount a) (br_writeStart b) (br_writeCount b)
      \<or> rangesOverlap (mappedMirrorStart a) (br_mirrorCount a) (mappedMirrorStart b) (br_mirrorCount b))"

definition bridgeOverlaps :: "ConfigSchema \<Rightarrow> nat \<Rightarrow> BridgeConfig \<Rightarrow> ValidationError list" where
  "bridgeOverlaps s i a = concat (map (\<lambda>(j, b).
     rejectIf (br_server a = br_server b \<and> serverWindowsOverlap a b) (qsection ''bridge[%1]'' j) ''range''
       (qsection ''server address window overlaps bridge[%1]'' i)
     @ rejectIf (br_plc a = br_plc b \<and> rangesOverlap (mappedPlcWriteStart a) (br_writeCount a) (mappedPlcWriteStart b) (br_writeCount b))
       (qsection ''bridge[%1]'' j) ''write'' (qsection ''mapped PLC write range overlaps bridge[%1]'' i))
     (enumerate (i + 1) (drop (i + 1) (cs_bridges s))))"

definition validateRefs :: "ConfigSchema \<Rightarrow> ValidationError list" where
  "validateRefs s =
     for_each_indexed (refsPollRange s) (cs_pollRanges s)
     @ for_each_indexed (refsSinkWindow s) (cs_sinkWindows s)
     @ for_each_indexed (refsHeartbeat s) (cs_heartbeats s)
     @ for_each_indexed (refsCommand s) (cs_commands s)
     @ for_each_indexed (windowOverlaps s) (cs_sinkWindows s)
     @ for_each_indexed (heartbeatOverlaps s) (cs_heartbeats s)
     @ for_each_indexed (commandOverlaps s) (cs_commands s)
     @ for_each_indexed (refsDatapoint s) (cs_datapoints s)
     @ for_each_indexed (refsAckWatch s) (cs_ackWatches s)
     @ for_each_indexed (refsRoute s) (cs_routes s)
     @ for_each_indexed (refsBridge s) (cs_bridges s)
     @ for_each_indexed (bridgeOverlaps s) (cs_bridges s)"

subsection \<open>\<open>ConfigLoader::validate\<close>\<close>

definition forwardId :: "nat \<Rightarrow> BridgeConfig \<Rightarrow> qstring" where
  "forwardId i b = qarg (qarg ''bridge.fwd.%1.%2'' (br_server b)) (show_nat i)"

definition moduleIds :: "ConfigSchema \<Rightarrow> qstring list" where
  "moduleIds s = map prg_moduleId (cs_pollRanges s) @ map win_moduleId (cs_sinkWindows s) @ map hbs_moduleId (cs_heartbeats s)
     @ map aw_moduleId (cs_ackWatches s) @ map cms_moduleId (cs_commands s)
     @ for_each_indexed (\<lambda>i b. if 0 < br_writeCount b then [forwardId i b] else []) (cs_bridges s)"

definition validate :: "LoaderEnv \<Rightarrow> ConfigSchema \<Rightarrow> ValidationError list" where
  "validate env s =
     validateValues env s
     @ checkUnique [] ''transport'' ''id'' (transportIds s)
     @ checkUnique [] ''module'' ''module_id'' (moduleIds s)
     @ checkUnique [] ''datapoint'' ''id'' (map dpc_id (cs_datapoints s))
     @ checkUnique [] ''codec'' ''id'' (map cdc_id (cs_codecs s))
     @ validateRefs s"

lemmas validate_unfolds [validate_defs] =
  isBuiltinCodecId_def isKnownTable_def canonicalTable_def isWritableTable_def maxReadCount_def maxWriteCount_def
  usesModbusClientRequestLimits_def rangesOverlap_def validateRange_def requireId_def requirePositive_def requireNonNegative_def
  validateScheduler_def validateMeta_def validateEnumEntry_def validateCodec_def validatePort_def validateMqttTail_def
  validateSlaveId_def validateTransport_def validatePollRange_def validateSinkWindow_def validateHeartbeat_def validateAckWatch_def
  validateCommandWrite_def validateCommand_def validatePortRef_def validateAck_def validateDatapoint_def validateBridge_def
  validatePlugin_def validateValues_def transportById_def sinkWindowById_def datapointById_def transportIds_def
  checkTransportRef_def checkPortRef_def checkCodecRef_def overRequestLimit_def refsPollRange_def refsSinkWindow_def
  refsHeartbeat_def refsCommand_def sameRegisters_def windowOverlaps_def heartbeatOverlaps_def commandWriteOverlaps_def
  commandOverlaps_def words_def sourcePolled_def serverRouteDriven_def refsSource_def refsNamedWindow_def
  windowMatches_def refsSink_def typeLimit_def checkMask_def refsDatapoint_def refsAckWatch_def
  listenCovered_def refsRouteSource_def refsRoute_def serverCovers_def mappedMirrorStart_def mappedPlcWriteStart_def
  refsBridgeEnds_def hitsBridgeWrite_def refsBridgeWriters_def coveredByOnePoll_def refsBridgeMirror_def refsBridge_def
  serverWindowsOverlap_def bridgeOverlaps_def validateRefs_def moduleIds_def validate_def

end
