(* ===== verification/Config_Properties.thy ===== *)
theory Config_Properties
  imports Config_Validate
begin

text \<open>
  What a configuration that passes \<open>validate\<close> guarantees to the code that builds the runtime from
  it: ids that identify, references that resolve, requests that fit the address space and the
  protocol, and registers with a single independent writer.
\<close>

subsection \<open>Uniqueness\<close>

lemma checkUnique_empty_iff:
  "checkUnique seen sec field xs = [] \<longleftrightarrow> distinct xs \<and> set xs \<inter> set seen = {}"
  by (induction xs arbitrary: seen) auto

lemma validate_parts:
  assumes "validate env s = []"
  shows "validateValues env s = []" "validateRefs s = []" "distinct (transportIds s)" "distinct (moduleIds s)"
    "distinct (map dpc_id (cs_datapoints s))" "distinct (map cdc_id (cs_codecs s))"
  using assms by (simp_all add: validate_def checkUnique_empty_iff)

lemma find_distinct_key:
  assumes "distinct (map f xs)" "x \<in> set xs" shows "find (\<lambda>y. f y = f x) xs = Some x"
  using assms by (induction xs) (auto simp: image_iff)

lemma find_key_None_iff: "find (\<lambda>y. f y = k) xs = None \<longleftrightarrow> k \<notin> f ` set xs"
  by (auto simp: find_None_iff)

lemmas by_id_defs = transportById_def sinkWindowById_def datapointById_def transportIds_def

subsection \<open>Register ownership\<close>

type_synonym Register = "qstring \<times> qstring \<times> int"

definition registers :: "qstring \<Rightarrow> qstring \<Rightarrow> int \<Rightarrow> int \<Rightarrow> Register set" where
  "registers tr table start count = {tr} \<times> {canonicalTable table} \<times> {start..<start + count}"

lemma rangesOverlap_iff: "rangesOverlap a n b m \<longleftrightarrow> {a..<a + n} \<inter> {b..<b + m} \<noteq> {}"
  by (auto simp: rangesOverlap_def)

lemma registers_disjoint_iff:
  "registers tr t a n \<inter> registers tr' t' b m = {}
     \<longleftrightarrow> tr \<noteq> tr' \<or> canonicalTable t \<noteq> canonicalTable t' \<or> \<not> rangesOverlap a n b m"
  unfolding rangesOverlap_iff by (auto simp: registers_def Times_Int_Times)

lemma sameRegisters_iff [simp]:
  "sameRegisters tr t a n tr' t' b m \<longleftrightarrow> registers tr t a n \<inter> registers tr' t' b m \<noteq> {}"
  by (auto simp: sameRegisters_def registers_disjoint_iff)

lemma canonicalTable_HR [simp]: "canonicalTable ''HR'' = ''HR''"
  by (simp add: canonicalTable_def)

lemma hitsBridgeWrite_iff [simp]:
  "hitsBridgeWrite b tr t a n \<longleftrightarrow> registers (br_plc b) ''HR'' (mappedPlcWriteStart b) (br_writeCount b) \<inter> registers tr t a n \<noteq> {}"
  by (auto simp: hitsBridgeWrite_def registers_disjoint_iff)

text \<open>
  The independent writers of PLC registers and the registers each of them writes.  A command is
  triggered explicitly, so two commands may share a register.
\<close>

datatype Writer = WindowWriter nat | HeartbeatWriter nat | CommandWriter nat nat | BridgeWriter nat

fun owns :: "ConfigSchema \<Rightarrow> Writer \<Rightarrow> Register set" where
  "owns s (WindowWriter i) = (let w = cs_sinkWindows s ! i in registers (win_transport w) (win_table w) (win_startAddress w) (win_size w))"
| "owns s (HeartbeatWriter i) = (let h = cs_heartbeats s ! i in registers (hbs_transport h) (hbs_table h) (hbs_address h) (int (length (hbs_values h))))"
| "owns s (CommandWriter i j) = (let c = cs_commands s ! i; e = cms_writes c ! j in registers (cms_transport c) (cwe_table e) (cwe_address e) 1)"
| "owns s (BridgeWriter i) = (let b = cs_bridges s ! i in registers (br_plc b) ''HR'' (mappedPlcWriteStart b) (br_writeCount b))"

fun isWriter :: "ConfigSchema \<Rightarrow> Writer \<Rightarrow> bool" where
  "isWriter s (WindowWriter i) \<longleftrightarrow> i < length (cs_sinkWindows s)"
| "isWriter s (HeartbeatWriter i) \<longleftrightarrow> i < length (cs_heartbeats s)"
| "isWriter s (CommandWriter i j) \<longleftrightarrow> i < length (cs_commands s) \<and> j < length (cms_writes (cs_commands s ! i))"
| "isWriter s (BridgeWriter i) \<longleftrightarrow> i < length (cs_bridges s)"

fun isCommandWriter :: "Writer \<Rightarrow> bool" where
  "isCommandWriter (CommandWriter i j) = True"
| "isCommandWriter _ = False"

lemma for_each_indexed_nthD:
  "for_each_indexed f xs = [] \<Longrightarrow> i < length xs \<Longrightarrow> f i (xs ! i) = []"
  by (simp add: for_each_indexed_empty_iff)

lemma later_pairs_empty:
  assumes "concat (map f (enumerate (i + 1) (drop (i + 1) xs))) = []" "i < j" "j < length xs"
  shows "f (j, xs ! j) = []"
proof -
  have "(j, xs ! j) \<in> set (enumerate (i + 1) (drop (i + 1) xs))"
    using assms(2,3) by (simp add: in_set_enumerate_eq)
  then show ?thesis using assms(1) by simp
qed

lemma validateRefs_parts:
  assumes "validateRefs s = []"
  shows "i < length (cs_pollRanges s) \<Longrightarrow> refsPollRange s i (cs_pollRanges s ! i) = []"
    "i < length (cs_sinkWindows s) \<Longrightarrow> refsSinkWindow s i (cs_sinkWindows s ! i) = []"
    "i < length (cs_heartbeats s) \<Longrightarrow> refsHeartbeat s i (cs_heartbeats s ! i) = []"
    "i < length (cs_commands s) \<Longrightarrow> refsCommand s i (cs_commands s ! i) = []"
    "i < length (cs_sinkWindows s) \<Longrightarrow> windowOverlaps s i (cs_sinkWindows s ! i) = []"
    "i < length (cs_heartbeats s) \<Longrightarrow> heartbeatOverlaps s i (cs_heartbeats s ! i) = []"
    "i < length (cs_commands s) \<Longrightarrow> commandOverlaps s i (cs_commands s ! i) = []"
    "i < length (cs_datapoints s) \<Longrightarrow> refsDatapoint s i (cs_datapoints s ! i) = []"
    "i < length (cs_routes s) \<Longrightarrow> refsRoute s i (cs_routes s ! i) = []"
    "i < length (cs_bridges s) \<Longrightarrow> refsBridge s i (cs_bridges s ! i) = []"
    "i < length (cs_bridges s) \<Longrightarrow> bridgeOverlaps s i (cs_bridges s ! i) = []"
  using assms by (simp_all add: validateRefs_def for_each_indexed_empty_iff)

lemma windows_disjoint:
  assumes "validateRefs s = []" "i < j" "j < length (cs_sinkWindows s)"
  shows "owns s (WindowWriter i) \<inter> owns s (WindowWriter j) = {}"
  using later_pairs_empty [OF validateRefs_parts(5) [OF assms(1), of i, unfolded windowOverlaps_def] assms(2,3)] assms(2,3)
  by (simp add: Let_def)

lemma heartbeat_disjoint:
  assumes "validateRefs s = []" "i < length (cs_heartbeats s)"
  shows "j < length (cs_sinkWindows s) \<Longrightarrow> owns s (HeartbeatWriter i) \<inter> owns s (WindowWriter j) = {}"
    "j < i \<Longrightarrow> owns s (HeartbeatWriter i) \<inter> owns s (HeartbeatWriter j) = {}"
  using validateRefs_parts(6) [OF assms] assms(2)
  by (auto simp: heartbeatOverlaps_def for_each_indexed_empty_iff Let_def)

lemma command_disjoint:
  assumes "validateRefs s = []" "isWriter s (CommandWriter i k)"
  shows "j < length (cs_sinkWindows s) \<Longrightarrow> owns s (CommandWriter i k) \<inter> owns s (WindowWriter j) = {}"
    "j < length (cs_heartbeats s) \<Longrightarrow> owns s (CommandWriter i k) \<inter> owns s (HeartbeatWriter j) = {}"
proof -
  have "i < length (cs_commands s)" using assms(2) by simp
  from validateRefs_parts(7) [OF assms(1) this] assms(2)
  show "j < length (cs_sinkWindows s) \<Longrightarrow> owns s (CommandWriter i k) \<inter> owns s (WindowWriter j) = {}"
    "j < length (cs_heartbeats s) \<Longrightarrow> owns s (CommandWriter i k) \<inter> owns s (HeartbeatWriter j) = {}"
    by (simp_all add: commandOverlaps_def commandWriteOverlaps_def for_each_indexed_empty_iff Let_def)
qed

lemma bridge_disjoint:
  assumes "validateRefs s = []" "i < length (cs_bridges s)"
  shows "j < length (cs_sinkWindows s) \<Longrightarrow> owns s (BridgeWriter i) \<inter> owns s (WindowWriter j) = {}"
    "j < length (cs_heartbeats s) \<Longrightarrow> owns s (BridgeWriter i) \<inter> owns s (HeartbeatWriter j) = {}"
    "isWriter s (CommandWriter j k) \<Longrightarrow> owns s (BridgeWriter i) \<inter> owns s (CommandWriter j k) = {}"
  using validateRefs_parts(10) [OF assms]
  by (simp_all add: refsBridge_def refsBridgeWriters_def for_each_indexed_empty_iff Let_def)

lemma bridges_disjoint:
  assumes "validateRefs s = []" "i < j" "j < length (cs_bridges s)"
  shows "owns s (BridgeWriter i) \<inter> owns s (BridgeWriter j) = {}"
  using later_pairs_empty [OF validateRefs_parts(11) [OF assms(1), of i, unfolded bridgeOverlaps_def] assms(2,3)] assms(2,3)
  by (simp add: registers_disjoint_iff Let_def)

lemmas writer_disjoint = windows_disjoint heartbeat_disjoint command_disjoint bridge_disjoint bridges_disjoint

lemmas writer_disjoint_sym = writer_disjoint [THEN trans [OF Int_commute]]

declare owns.simps [simp del]

lemma writers_disjoint_refs:
  assumes "validateRefs s = []" "isWriter s v" "isWriter s w" "v \<noteq> w" "\<not> (isCommandWriter v \<and> isCommandWriter w)"
  shows "owns s v \<inter> owns s w = {}"
proof (cases v; cases w)
  fix i j assume "v = WindowWriter i" "w = WindowWriter j"
  then show ?thesis using assms windows_disjoint [of s] by (metis Int_commute isWriter.simps(1) linorder_neqE_nat)
next
  fix i j assume "v = HeartbeatWriter i" "w = HeartbeatWriter j"
  then show ?thesis using assms heartbeat_disjoint(2) [of s] by (metis Int_commute isWriter.simps(2) linorder_neqE_nat)
next
  fix i j assume "v = BridgeWriter i" "w = BridgeWriter j"
  then show ?thesis using assms bridges_disjoint [of s] by (metis Int_commute isWriter.simps(4) linorder_neqE_nat)
qed (use assms in \<open>simp_all add: writer_disjoint writer_disjoint_sym\<close>)

subsection \<open>Sections in range\<close>

lemma validateRange_iff:
  "validateRange sec f a n m = [] \<longleftrightarrow> 0 \<le> a \<and> a \<le> 65535 \<and> 0 < n \<and> n \<le> m \<and> a + n \<le> 65536"
  by (auto simp: validateRange_def)

lemmas require_defs = requireId_def requirePositive_def requireNonNegative_def

lemma validateValues_parts:
  assumes "validateValues env s = []"
  shows "i < length (cs_transports s) \<Longrightarrow> validateTransport env i (cs_transports s ! i) = []"
    "i < length (cs_pollRanges s) \<Longrightarrow> validatePollRange i (cs_pollRanges s ! i) = []"
    "i < length (cs_sinkWindows s) \<Longrightarrow> validateSinkWindow i (cs_sinkWindows s ! i) = []"
    "i < length (cs_heartbeats s) \<Longrightarrow> validateHeartbeat i (cs_heartbeats s ! i) = []"
    "i < length (cs_commands s) \<Longrightarrow> validateCommand i (cs_commands s ! i) = []"
    "i < length (cs_datapoints s) \<Longrightarrow> validateDatapoint i (cs_datapoints s ! i) = []"
    "i < length (cs_bridges s) \<Longrightarrow> validateBridge i (cs_bridges s ! i) = []"
  using assms by (simp_all add: validateValues_def for_each_indexed_empty_iff)

text \<open>A request of \<open>n\<close> registers from \<open>a\<close> fits the address space, and the protocol data unit of its transport.\<close>

definition fits :: "ConfigSchema \<Rightarrow> qstring \<Rightarrow> int \<Rightarrow> int \<Rightarrow> int \<Rightarrow> bool" where
  "fits s tr a n limit \<longleftrightarrow> 0 \<le> a \<and> 0 < n \<and> a + n \<le> 65536
     \<and> (\<forall>t. transportById s tr = Some t \<longrightarrow> usesModbusClientRequestLimits (tp_kind t) \<longrightarrow> n \<le> limit)"

lemma poll_fits:
  assumes "validateValues env s = []" "validateRefs s = []" "p \<in> set (cs_pollRanges s)"
  shows "isKnownTable (prg_table p) \<and> fits s (prg_transport p) (prg_startAddress p) (prg_count p) (maxReadCount (prg_table p))"
proof -
  obtain i where i: "i < length (cs_pollRanges s)" "p = cs_pollRanges s ! i" using assms(3) by (metis in_set_conv_nth)
  show ?thesis using validateValues_parts(2) [OF assms(1) i(1)] validateRefs_parts(1) [OF assms(2) i(1)] i(2)
    by (auto simp: validatePollRange_def refsPollRange_def Let_def validateRange_iff fits_def overRequestLimit_def split: if_splits)
qed

lemma window_fits:
  assumes "validateValues env s = []" "validateRefs s = []" "w \<in> set (cs_sinkWindows s)"
  shows "isWritableTable (win_table w) \<and> fits s (win_transport w) (win_startAddress w) (win_size w) (maxWriteCount (win_table w))
    \<and> int (length (win_initial w)) \<le> win_size w"
proof -
  obtain i where i: "i < length (cs_sinkWindows s)" "w = cs_sinkWindows s ! i" using assms(3) by (metis in_set_conv_nth)
  show ?thesis using validateValues_parts(3) [OF assms(1) i(1)] validateRefs_parts(2) [OF assms(2) i(1)] i(2)
    by (auto simp: validateSinkWindow_def refsSinkWindow_def Let_def validateRange_iff fits_def overRequestLimit_def split: if_splits)
qed

lemma heartbeat_fits:
  assumes "validateValues env s = []" "validateRefs s = []" "h \<in> set (cs_heartbeats s)" "hbs_values h \<noteq> []"
  shows "isWritableTable (hbs_table h) \<and> fits s (hbs_transport h) (hbs_address h) (int (length (hbs_values h))) (maxWriteCount (hbs_table h))"
proof -
  obtain i where i: "i < length (cs_heartbeats s)" "h = cs_heartbeats s ! i" using assms(3) by (metis in_set_conv_nth)
  show ?thesis using validateValues_parts(4) [OF assms(1) i(1)] validateRefs_parts(3) [OF assms(2) i(1)] i(2) assms(4)
    by (auto simp: validateHeartbeat_def refsHeartbeat_def Let_def validateRange_iff fits_def overRequestLimit_def split: if_splits)
qed

lemma command_fits:
  assumes "validateValues env s = []" "c \<in> set (cs_commands s)" "e \<in> set (cms_writes c)"
  shows "isWritableTable (cwe_table e) \<and> fits s (cms_transport c) (cwe_address e) 1 (maxWriteCount (cwe_table e))"
proof -
  obtain i where i: "i < length (cs_commands s)" "c = cs_commands s ! i" using assms(2) by (metis in_set_conv_nth)
  obtain j where j: "j < length (cms_writes c)" "e = cms_writes c ! j" using assms(3) by (metis in_set_conv_nth)
  show ?thesis using validateValues_parts(5) [OF assms(1) i(1)] i(2) j
    by (auto simp: validateCommand_def validateCommandWrite_def Let_def validateRange_iff fits_def for_each_indexed_empty_iff maxWriteCount_def)
qed

lemma scheduler_unclamped:
  assumes "validateScheduler c sec = []" shows "clampConfig c = c"
  using assms by (simp add: validateScheduler_def require_defs clampConfig_def Let_def)

subsection \<open>References\<close>

lemma transportById_Some_iff: "i \<in> set (transportIds s) \<longleftrightarrow> (\<exists>t. transportById s i = Some t)"
  unfolding by_id_defs by (metis find_key_None_iff list.set_map not_None_eq)

lemma transportById_id: "transportById s i = Some t \<Longrightarrow> t \<in> set (cs_transports s) \<and> tp_id t = i"
  unfolding by_id_defs by (auto dest: find_SomeD)

definition codecKnown :: "ConfigSchema \<Rightarrow> qstring \<Rightarrow> bool" where
  "codecKnown s i \<longleftrightarrow> i = [] \<or> i \<in> cdc_id ` set (cs_codecs s) \<or> isBuiltinCodecId i"

definition sourceResolved :: "ConfigSchema \<Rightarrow> DatapointConfig \<Rightarrow> bool" where
  "sourceResolved s d \<longleftrightarrow> codecKnown s (pf_codec (dpc_source d))
     \<and> (\<exists>t. transportById s (pf_port (dpc_source d)) = Some t)
     \<and> (sourcePolled s d \<or> serverRouteDriven s d)"

text \<open>The sink window a datapoint writes to: the one it names, or one that covers its registers.\<close>

definition ownsSink :: "DatapointConfig \<Rightarrow> SinkWindowConfig \<Rightarrow> bool" where
  "ownsSink d w \<longleftrightarrow>
     (pf_window (dpc_sink d) \<noteq> [] \<longrightarrow> win_moduleId w = pf_window (dpc_sink d))
     \<and> (pf_window (dpc_sink d) = [] \<or> pf_port (dpc_sink d) \<noteq> [] \<longrightarrow> pf_port (dpc_sink d) = win_transport w)
     \<and> (pf_window (dpc_sink d) = [] \<or> pf_table (dpc_sink d) \<noteq> [] \<longrightarrow> canonicalTable (pf_table (dpc_sink d)) = canonicalTable (win_table w))
     \<and> win_startAddress w \<le> pf_address (dpc_sink d)
     \<and> pf_address (dpc_sink d) + words (dpc_type d) \<le> win_startAddress w + win_size w"

definition sinkResolved :: "ConfigSchema \<Rightarrow> DatapointConfig \<Rightarrow> bool" where
  "sinkResolved s d \<longleftrightarrow> codecKnown s (pf_codec (dpc_sink d)) \<and> (\<exists>w \<in> set (cs_sinkWindows s). ownsSink d w)"

definition routeResolved :: "ConfigSchema \<Rightarrow> RouteConfig \<Rightarrow> bool" where
  "routeResolved s r \<longleftrightarrow>
     (rt_from r \<noteq> [] \<longrightarrow> (\<exists>d t. datapointById s (rt_from r) = Some d \<and> dpc_hasSource d
        \<and> transportById s (pf_port (dpc_source d)) = Some t \<and> tp_kind t = ModbusTcpServer \<and> listenCovered t d))
     \<and> (rt_to r \<noteq> [] \<longrightarrow> (\<exists>d. datapointById s (rt_to r) = Some d \<and> dpc_hasSink d))"

definition bridgeResolved :: "ConfigSchema \<Rightarrow> BridgeConfig \<Rightarrow> bool" where
  "bridgeResolved s b \<longleftrightarrow>
     (br_server b \<noteq> [] \<longrightarrow> (\<exists>t. transportById s (br_server b) = Some t \<and> tp_kind t = ModbusTcpServer
        \<and> serverCovers t (br_writeStart b) (br_writeCount b) \<and> serverCovers t (mappedMirrorStart b) (br_mirrorCount b)))
     \<and> (br_plc b \<noteq> [] \<longrightarrow> (\<exists>t. transportById s (br_plc b) = Some t \<and> usesModbusClientRequestLimits (tp_kind t))
        \<and> (0 < br_mirrorCount b \<longrightarrow> coveredByOnePoll s b))"

lemma words_range: "1 \<le> words t" "words t \<le> 4"
  by (cases t; simp add: words_def)+

lemma blank_Nil [simp]: "blank []"
  by (simp add: blank_def trimmed_def)

lemma source_resolved:
  assumes "validateValues env s = []" "validateRefs s = []" "d \<in> set (cs_datapoints s)" "dpc_hasSource d"
  shows "sourceResolved s d"
proof -
  obtain i where i: "i < length (cs_datapoints s)" "d = cs_datapoints s ! i" using assms(3) by (metis in_set_conv_nth)
  have "validateDatapoint i d = []" "refsDatapoint s i d = []"
    using validateValues_parts(6) [OF assms(1) i(1)] validateRefs_parts(8) [OF assms(2) i(1)] i(2) by simp_all
  then have "refsSource s d (qsection ''datapoint[%1]'' i) = []" and "\<not> blank (pf_port (dpc_source d))"
    using assms(4) by (simp_all add: validateDatapoint_def refsDatapoint_def Let_def validatePortRef_def)
  moreover from this(2) have "pf_port (dpc_source d) \<noteq> []" by auto
  ultimately show ?thesis
    by (auto simp: refsSource_def checkPortRef_def checkCodecRef_def sourceResolved_def codecKnown_def
        transportById_Some_iff image_iff)
qed

lemma sink_window_found:
  assumes "validateValues env s = []" "validateRefs s = []" "d \<in> set (cs_datapoints s)" "dpc_hasSink d"
  shows "pf_window (dpc_sink d) \<noteq> [] \<Longrightarrow> \<exists>w. sinkWindowById s (pf_window (dpc_sink d)) = Some w \<and> ownsSink d w"
    and "pf_window (dpc_sink d) = [] \<Longrightarrow> \<exists>w \<in> set (cs_sinkWindows s). windowMatches d w"
    and "codecKnown s (pf_codec (dpc_sink d))"
proof -
  let ?p = "dpc_sink d"
  obtain i where i: "i < length (cs_datapoints s)" "d = cs_datapoints s ! i" using assms(3) by (metis in_set_conv_nth)
  let ?sec = "qsection ''datapoint[%1]'' i"
  have v: "validateDatapoint i d = []" and "refsDatapoint s i d = []"
    using validateValues_parts(6) [OF assms(1) i(1)] validateRefs_parts(8) [OF assms(2) i(1)] i(2) by simp_all
  then have r: "refsSink s d ?sec = []" using assms(4) by (simp add: refsDatapoint_def Let_def)
  have a: "0 \<le> pf_address ?p" "pf_address ?p \<le> 65535"
    using v assms(4) by (simp_all add: validateDatapoint_def Let_def validatePortRef_def validateRange_iff)
  show "codecKnown s (pf_codec ?p)" using r by (auto simp: refsSink_def checkCodecRef_def codecKnown_def Let_def)
  show "\<exists>w \<in> set (cs_sinkWindows s). windowMatches d w" if "pf_window ?p = []"
    using r that by (auto simp: refsSink_def Let_def filter_empty_conv)
  show "\<exists>w. sinkWindowById s (pf_window ?p) = Some w \<and> ownsSink d w" if n: "pf_window ?p \<noteq> []"
  proof -
    obtain w where w: "sinkWindowById s (pf_window ?p) = Some w" "refsNamedWindow d ?sec w = []"
      using r n by (auto simp: refsSink_def Let_def split: option.splits)
    then have m: "w \<in> set (cs_sinkWindows s)" "win_moduleId w = pf_window ?p"
      by (auto simp: sinkWindowById_def dest: find_SomeD)
    have "fits s (win_transport w) (win_startAddress w) (win_size w) (maxWriteCount (win_table w))"
      using window_fits [OF assms(1,2) m(1)] by simp
    then have "int_add (win_startAddress w) (win_size w) = win_startAddress w + win_size w"
      "int_add (pf_address ?p) (words (dpc_type d)) = pf_address ?p + words (dpc_type d)"
      using a words_range [of "dpc_type d"] by (auto simp: fits_def int_min_def int_max_def intro!: int_add_exact)
    then show ?thesis using w m n by (auto simp: refsNamedWindow_def ownsSink_def Let_def)
  qed
qed

lemma sink_resolved:
  assumes "validateValues env s = []" "validateRefs s = []" "d \<in> set (cs_datapoints s)" "dpc_hasSink d"
  shows "sinkResolved s d"
proof (cases "pf_window (dpc_sink d) = []")
  case True
  then show ?thesis using sink_window_found(2,3) [OF assms]
    by (auto simp: sinkResolved_def ownsSink_def windowMatches_def Let_def)
next
  case False
  then show ?thesis using sink_window_found(1,3) [OF assms]
    by (auto simp: sinkResolved_def sinkWindowById_def dest: find_SomeD)
qed

lemma route_resolved:
  assumes "validateValues env s = []" "validateRefs s = []" "r \<in> set (cs_routes s)"
  shows "routeResolved s r"
proof -
  obtain i where i: "i < length (cs_routes s)" "r = cs_routes s ! i" using assms(3) by (metis in_set_conv_nth)
  have e: "refsRoute s i r = []" using validateRefs_parts(9) [OF assms(2) i(1)] i(2) by simp
  have "\<exists>d t. datapointById s (rt_from r) = Some d \<and> dpc_hasSource d
      \<and> transportById s (pf_port (dpc_source d)) = Some t \<and> tp_kind t = ModbusTcpServer \<and> listenCovered t d" if f: "rt_from r \<noteq> []"
  proof -
    obtain d where d: "datapointById s (rt_from r) = Some d" "dpc_hasSource d" "refsRouteSource s d (qsection ''route[%1]'' i) = []"
      using e f by (auto simp: refsRoute_def Let_def split: option.splits)
    then have "d \<in> set (cs_datapoints s)" by (auto simp: datapointById_def dest: find_SomeD)
    then obtain t where "transportById s (pf_port (dpc_source d)) = Some t"
      using source_resolved [OF assms(1,2) _ d(2)] by (auto simp: sourceResolved_def)
    then show ?thesis using d by (auto simp: refsRouteSource_def split: if_splits)
  qed
  moreover have "\<exists>d. datapointById s (rt_to r) = Some d \<and> dpc_hasSink d" if "rt_to r \<noteq> []"
    using e that by (auto simp: refsRoute_def Let_def split: option.splits)
  ultimately show ?thesis by (simp add: routeResolved_def)
qed

lemma bridge_values:
  assumes "validateValues env s = []" "b \<in> set (cs_bridges s)"
  shows "0 < br_writeCount b \<Longrightarrow> 0 \<le> br_writeStart b \<and> br_writeCount b \<le> 123 \<and> br_writeStart b + br_writeCount b \<le> 65536
      \<and> 0 \<le> mappedPlcWriteStart b \<and> mappedPlcWriteStart b + br_writeCount b \<le> 65536"
    "0 < br_mirrorCount b \<Longrightarrow> 0 \<le> br_mirrorStart b \<and> br_mirrorStart b + br_mirrorCount b \<le> 65536
      \<and> 0 \<le> mappedMirrorStart b \<and> mappedMirrorStart b + br_mirrorCount b \<le> 65536"
proof -
  obtain i where i: "i < length (cs_bridges s)" "b = cs_bridges s ! i" using assms(2) by (metis in_set_conv_nth)
  show "0 < br_writeCount b \<Longrightarrow> 0 \<le> br_writeStart b \<and> br_writeCount b \<le> 123 \<and> br_writeStart b + br_writeCount b \<le> 65536
      \<and> 0 \<le> mappedPlcWriteStart b \<and> mappedPlcWriteStart b + br_writeCount b \<le> 65536"
    "0 < br_mirrorCount b \<Longrightarrow> 0 \<le> br_mirrorStart b \<and> br_mirrorStart b + br_mirrorCount b \<le> 65536
      \<and> 0 \<le> mappedMirrorStart b \<and> mappedMirrorStart b + br_mirrorCount b \<le> 65536"
    using validateValues_parts(7) [OF assms(1) i(1)] i(2)
    by (simp_all add: validateBridge_def Let_def validateRange_iff mappedPlcWriteStart_def mappedMirrorStart_def not_less)
qed

lemma bridge_resolved:
  assumes "validateValues env s = []" "validateRefs s = []" "b \<in> set (cs_bridges s)"
  shows "bridgeResolved s b"
proof -
  obtain i where i: "i < length (cs_bridges s)" "b = cs_bridges s ! i" using assms(3) by (metis in_set_conv_nth)
  let ?sec = "qsection ''bridge[%1]'' i"
  have e: "refsBridgeEnds s b ?sec = []" "refsBridgeMirror s b ?sec = []"
    using validateRefs_parts(10) [OF assms(2) i(1)] i(2) by (simp_all add: refsBridge_def Let_def)
  have m: "serverCovers t (mappedMirrorStart b) (br_mirrorCount b)"
    if "serverCovers t (int_add (br_mirrorStart b) (br_offset b)) (br_mirrorCount b)" for t
  proof (cases "0 < br_mirrorCount b")
    case True
    then have "int_add (br_mirrorStart b) (br_offset b) = mappedMirrorStart b"
      using bridge_values(2) [OF assms(1,3)] unfolding mappedMirrorStart_def
      by (intro int_add_exact) (auto simp: int_min_def int_max_def)
    then show ?thesis using that by simp
  qed (simp add: serverCovers_def)
  have "\<exists>t. transportById s (br_server b) = Some t \<and> tp_kind t = ModbusTcpServer
      \<and> serverCovers t (br_writeStart b) (br_writeCount b) \<and> serverCovers t (mappedMirrorStart b) (br_mirrorCount b)" if "br_server b \<noteq> []"
    using e(1) that m by (auto simp: refsBridgeEnds_def checkTransportRef_def transportById_Some_iff split: if_splits)
  moreover have "\<exists>t. transportById s (br_plc b) = Some t \<and> usesModbusClientRequestLimits (tp_kind t)"
    and "0 < br_mirrorCount b \<Longrightarrow> coveredByOnePoll s b" if "br_plc b \<noteq> []"
    using e that by (auto simp: refsBridgeEnds_def refsBridgeMirror_def checkTransportRef_def transportById_Some_iff)
  ultimately show ?thesis by (simp add: bridgeResolved_def)
qed

subsection \<open>Properties of accepted configurations\<close>

definition demoLoader :: LoaderEnv where
  "demoLoader = \<lparr>le_toUInt = (\<lambda>s. if s = ''1'' then Some 1 else None), le_urlValid = (\<lambda>u. True), le_urlScheme = (\<lambda>u. ''tcp''),
     le_urlHost = (\<lambda>u. u), le_hasOpcUa = True, le_hasMqttQt = True, le_hasMqttPaho = True\<rparr>"

definition demoSchema :: ConfigSchema where
  "demoSchema = emptySchema\<lparr>
     cs_transports := [defaultTransportConfig\<lparr>tp_id := ''plc'', tp_host := ''h''\<rparr>,
       defaultTransportConfig\<lparr>tp_id := ''box'', tp_kind := ModbusTcpServer, tp_listenAddress := ''0'',
         tp_listenRanges := [\<lparr>wt_table = HoldingRegisters, wt_startAddress = 0, wt_size = 400\<rparr>]\<rparr>],
     cs_pollRanges := [\<lparr>prg_moduleId = ''p'', prg_transport = ''plc'', prg_table = ''HR'', prg_startAddress = 0, prg_count = 20,
       prg_periodMs = 100, prg_priority = 1\<rparr>],
     cs_sinkWindows := [\<lparr>win_moduleId = ''w'', win_transport = ''plc'', win_table = ''HoldingRegisters'', win_startAddress = 50,
       win_size = 4, win_priority = 2, win_debounceMs = 20, win_keepaliveMs = 0, win_initial = []\<rparr>],
     cs_heartbeats := [\<lparr>hbs_moduleId = ''b'', hbs_transport = ''plc'', hbs_table = ''HR'', hbs_address = 60, hbs_values = [1],
       hbs_periodMs = 500, hbs_priority = 0, hbs_incrementer = ''none''\<rparr>],
     cs_commands := [\<lparr>cms_moduleId = ''c'', cms_transport = ''plc'', cms_priority = 2, cms_interruptable = False,
       cms_writes = [\<lparr>cwe_table = ''HR'', cwe_address = 70, cwe_value = 1\<rparr>]\<rparr>],
     cs_datapoints := [defaultDatapointConfig\<lparr>dpc_id := ''in'', dpc_kind := ''Status'', dpc_hasSource := True,
         dpc_source := defaultPortRefConfig\<lparr>pf_port := ''box'', pf_table := ''HR'', pf_address := 3\<rparr>\<rparr>,
       defaultDatapointConfig\<lparr>dpc_id := ''out'', dpc_kind := ''Command'', dpc_type := S32, dpc_hasSink := True,
         dpc_sink := defaultPortRefConfig\<lparr>pf_port := ''plc'', pf_table := ''HR'', pf_address := 52\<rparr>\<rparr>],
     cs_routes := [\<lparr>rt_name = [], rt_from = ''in'', rt_to = ''out'', rt_policy = ''ContinuousMirror''\<rparr>],
     cs_bridges := [defaultBridgeConfig\<lparr>br_server := ''box'', br_plc := ''plc'', br_offset := 100, br_writeStart := 300, br_writeCount := 8,
       br_mirrorStart := 0, br_mirrorCount := 10\<rparr>]\<rparr>"

lemma demo_forwardId [simp]: "br_server b = ''box'' \<Longrightarrow> forwardId 0 b = ''bridge.fwd.box.0''"
proof -
  have "qarg (qarg ''bridge.fwd.%1.%2'' ''box'') (show_nat 0) = ''bridge.fwd.box.0''" by code_simp
  then show "br_server b = ''box'' \<Longrightarrow> forwardId 0 b = ''bridge.fwd.box.0''" by (simp add: forwardId_def)
qed

lemmas demo_unfolds = demoSchema_def demoLoader_def emptySchema_def defaultTransportConfig_def defaultPortRefConfig_def
  defaultDatapointConfig_def defaultBridgeConfig_def defaultMetaConfig_def defaultSchedulerConfig_def

lemma demo_valid: "validate demoLoader demoSchema = []"
  by (simp add: demo_unfolds validate_defs for_each_indexed_def blank_def trimmed_def is_space_def isfinite_def fp_eq_def
      magnitude_def double_one_def isMultiRegister_def int_add_def Let_def del: sameRegisters_iff hitsBridgeWrite_iff)

text \<open>C16: the registers of a PLC have one independent writer.  In a configuration that passes
  validation no register is written by two of the sink windows, heartbeats, bridge forwarding windows
  and command writes, except by two commands; the server address windows of the bridges that share a
  server are disjoint, and so are the write and the mirror window of each bridge.\<close>

theorem config_single_writer:
  assumes "validate env s = []"
  shows "(\<forall>v w. isWriter s v \<longrightarrow> isWriter s w \<longrightarrow> v \<noteq> w \<longrightarrow> \<not> (isCommandWriter v \<and> isCommandWriter w) \<longrightarrow> owns s v \<inter> owns s w = {})
    \<and> (\<forall>i j. i < j \<longrightarrow> j < length (cs_bridges s) \<longrightarrow> br_server (cs_bridges s ! i) = br_server (cs_bridges s ! j)
          \<longrightarrow> \<not> serverWindowsOverlap (cs_bridges s ! i) (cs_bridges s ! j))
    \<and> (\<forall>b \<in> set (cs_bridges s). {br_writeStart b..<br_writeStart b + br_writeCount b}
          \<inter> {mappedMirrorStart b..<mappedMirrorStart b + br_mirrorCount b} = {})"
proof (intro conjI allI impI ballI)
  note r = validate_parts(2) [OF assms]
  fix v w assume "isWriter s v" "isWriter s w" "v \<noteq> w" "\<not> (isCommandWriter v \<and> isCommandWriter w)"
  then show "owns s v \<inter> owns s w = {}" by (rule writers_disjoint_refs [OF r])
next
  fix i j assume ij: "i < j" "j < length (cs_bridges s)" "br_server (cs_bridges s ! i) = br_server (cs_bridges s ! j)"
  show "\<not> serverWindowsOverlap (cs_bridges s ! i) (cs_bridges s ! j)"
    using later_pairs_empty [OF validateRefs_parts(11) [OF validate_parts(2) [OF assms], of i, unfolded bridgeOverlaps_def] ij(1,2)] ij
    by simp
next
  fix b assume "b \<in> set (cs_bridges s)"
  then obtain i where i: "i < length (cs_bridges s)" "b = cs_bridges s ! i" by (metis in_set_conv_nth)
  show "{br_writeStart b..<br_writeStart b + br_writeCount b} \<inter> {mappedMirrorStart b..<mappedMirrorStart b + br_mirrorCount b} = {}"
    using validateRefs_parts(10) [OF validate_parts(2) [OF assms] i(1)] i(2)
    by (simp add: refsBridge_def refsBridgeEnds_def Let_def rangesOverlap_iff)
qed

theorem config_single_writer_witness:
  "validate demoLoader demoSchema = [] \<and> owns demoSchema (BridgeWriter 0) \<inter> owns demoSchema (WindowWriter 0) = {}"
proof -
  have "isWriter demoSchema (BridgeWriter 0)" "isWriter demoSchema (WindowWriter 0)" by (simp_all add: demo_unfolds)
  then show ?thesis using config_single_writer [OF demo_valid] demo_valid by simp
qed



text \<open>C18: requests fit.  In a configuration that passes validation every poll, window flush,
  heartbeat and command write addresses registers within 0 to 65535, writes only writable tables, and
  on a Modbus client stays within the protocol's limit for one request; a bridge's forwarding window
  fits both address spaces and one write request; and no scheduler setting is altered by the clamping
  of the scheduler's constructor.\<close>

theorem config_requests_fit:
  assumes "validate env s = []"
  shows "(\<forall>p \<in> set (cs_pollRanges s). isKnownTable (prg_table p)
        \<and> fits s (prg_transport p) (prg_startAddress p) (prg_count p) (maxReadCount (prg_table p)))
    \<and> (\<forall>w \<in> set (cs_sinkWindows s). isWritableTable (win_table w)
        \<and> fits s (win_transport w) (win_startAddress w) (win_size w) (maxWriteCount (win_table w)) \<and> int (length (win_initial w)) \<le> win_size w)
    \<and> (\<forall>h \<in> set (cs_heartbeats s). hbs_values h \<noteq> [] \<longrightarrow> isWritableTable (hbs_table h)
        \<and> fits s (hbs_transport h) (hbs_address h) (int (length (hbs_values h))) (maxWriteCount (hbs_table h)))
    \<and> (\<forall>c \<in> set (cs_commands s). \<forall>e \<in> set (cms_writes c). isWritableTable (cwe_table e)
        \<and> fits s (cms_transport c) (cwe_address e) 1 (maxWriteCount (cwe_table e)))
    \<and> (\<forall>b \<in> set (cs_bridges s). 0 < br_writeCount b \<longrightarrow> 0 \<le> br_writeStart b \<and> br_writeCount b \<le> 123
        \<and> br_writeStart b + br_writeCount b \<le> 65536 \<and> 0 \<le> mappedPlcWriteStart b \<and> mappedPlcWriteStart b + br_writeCount b \<le> 65536)
    \<and> (\<forall>t \<in> set (cs_transports s). clampConfig (tp_scheduler t) = tp_scheduler t)"
proof -
  note v = validate_parts(1) [OF assms] and r = validate_parts(2) [OF assms]
  have "clampConfig (tp_scheduler t) = tp_scheduler t" if t: "t \<in> set (cs_transports s)" for t
  proof -
    obtain i where i: "i < length (cs_transports s)" "t = cs_transports s ! i" using t by (metis in_set_conv_nth)
    then have "validateScheduler (tp_scheduler t) (qsection ''transport[%1]'' i @ ''.scheduler'') = []"
      using validateValues_parts(1) [OF v i(1)] by (simp add: validateTransport_def Let_def)
    then show ?thesis by (rule scheduler_unclamped)
  qed
  then show ?thesis using poll_fits [OF v r] window_fits [OF v r] heartbeat_fits [OF v r] command_fits [OF v] bridge_values(1) [OF v] by blast
qed

theorem config_requests_fit_witness:
  "validate demoLoader demoSchema = [] \<and> fits demoSchema ''plc'' 50 4 123"
proof -
  let ?w = "hd (cs_sinkWindows demoSchema)"
  have w: "?w \<in> set (cs_sinkWindows demoSchema)" "win_transport ?w = ''plc''" "win_startAddress ?w = 50" "win_size ?w = 4"
    "maxWriteCount (win_table ?w) = 123" by (simp_all add: demo_unfolds maxWriteCount_def)
  have "\<forall>w \<in> set (cs_sinkWindows demoSchema). fits demoSchema (win_transport w) (win_startAddress w) (win_size w) (maxWriteCount (win_table w))"
    using config_requests_fit [OF demo_valid] by blast
  from bspec [OF this w(1)] show ?thesis using demo_valid w by simp
qed

definition orphanSchema :: ConfigSchema where
  "orphanSchema = emptySchema\<lparr>cs_sinkWindows := [\<lparr>win_moduleId = ''w'', win_transport = [], win_table = ''HR'', win_startAddress = 50,
     win_size = 4, win_priority = 2, win_debounceMs = 20, win_keepaliveMs = 0, win_initial = []\<rparr>]\<rparr>"

text \<open>A sink window whose transport reference is the empty string passes validation although no
  transport has that id.\<close>

theorem empty_transport_reference_accepted:
  "validate demoLoader orphanSchema = [] \<and> transportById orphanSchema (win_transport (hd (cs_sinkWindows orphanSchema))) = None"
  by (simp add: orphanSchema_def demo_unfolds validate_defs for_each_indexed_def blank_def trimmed_def is_space_def Let_def del: sameRegisters_iff)

end
