(* ===== verification/Config_Parse.thy ===== *)
theory Config_Parse
  imports Config_Properties "HOL-Library.Char_ord" "HOL-Library.List_Lexorder"
begin

text \<open>
  From a TOML document to the schema (\<open>src/ConfigLoader.cpp\<close>).  A node carries the line it
  starts on; a table lists its entries in key order, as toml++ iterates them.  The typed
  conversions \<open>node.value<T>()\<close> of toml++ are the fields of \<open>TomlConv\<close>; \<open>conv_exact\<close> states
  that a node that holds a value of the requested type gives that value.  A section parser gives
  the configuration and the errors it pushed, in order.
\<close>

datatype Toml =
    TTable (toml_line: int) "(qstring \<times> Toml) list"
  | TArray (toml_line: int) "Toml list"
  | TString (toml_line: int) qstring
  | TInteger (toml_line: int) int
  | TFloat (toml_line: int) double
  | TBoolean (toml_line: int) bool
  | TDateTime (toml_line: int)

record TomlConv =
  tv_str :: "Toml \<Rightarrow> qstring option"
  tv_int :: "Toml \<Rightarrow> int option"
  tv_float :: "Toml \<Rightarrow> double option"
  tv_bool :: "Toml \<Rightarrow> bool option"

definition conv_exact :: "TomlConv \<Rightarrow> bool" where
  "conv_exact cv \<longleftrightarrow> (\<forall>l s. tv_str cv (TString l s) = Some s) \<and> (\<forall>l i. tv_int cv (TInteger l i) = Some i)
     \<and> (\<forall>l d. tv_float cv (TFloat l d) = Some d) \<and> (\<forall>l b. tv_bool cv (TBoolean l b) = Some b)"

text \<open>A table is its line and its entries.\<close>

type_synonym TomlTable = "int \<times> (qstring \<times> Toml) list"

fun as_table :: "Toml \<Rightarrow> TomlTable option" where
  "as_table (TTable l es) = Some (l, es)"
| "as_table _ = None"

fun as_array :: "Toml \<Rightarrow> Toml list option" where
  "as_array (TArray l xs) = Some xs"
| "as_array _ = None"

abbreviation line :: "TomlTable \<Rightarrow> int" where "line \<equiv> fst"

definition at :: "TomlTable \<Rightarrow> qstring \<Rightarrow> Toml option" where
  "at t key = map_of (snd t) key"

definition has :: "TomlTable \<Rightarrow> qstring \<Rightarrow> bool" where
  "has t key = (at t key \<noteq> None)"

definition rejectAt :: "bool \<Rightarrow> qstring \<Rightarrow> qstring \<Rightarrow> qstring \<Rightarrow> int \<Rightarrow> ValidationError list" where
  "rejectAt bad sec field msg l =
     (if bad then [\<lparr>ve_section = sec, ve_field = field, ve_message = msg, ve_lineNumber = l\<rparr>] else [])"

lemma rejectAt_empty_iff [simp]: "rejectAt bad sec field msg l = [] \<longleftrightarrow> \<not> bad"
  by (simp add: rejectAt_def)

subsection \<open>Typed access\<close>

definition getStr :: "TomlConv \<Rightarrow> TomlTable \<Rightarrow> qstring \<Rightarrow> qstring option" where
  "getStr cv t key = Option.bind (at t key) (tv_str cv)"

definition getStrOr :: "TomlConv \<Rightarrow> TomlTable \<Rightarrow> qstring \<Rightarrow> qstring \<Rightarrow> qstring" where
  "getStrOr cv t key dflt = (case getStr cv t key of Some v \<Rightarrow> v | None \<Rightarrow> dflt)"

definition narrowInt :: "int \<Rightarrow> int" where
  "narrowInt v = (if int_max < v then int_max else if v < int_min then int_min else v)"

definition getInt :: "TomlConv \<Rightarrow> TomlTable \<Rightarrow> qstring \<Rightarrow> int option" where
  "getInt cv t key = map_option narrowInt (Option.bind (at t key) (tv_int cv))"

definition getIntOr :: "TomlConv \<Rightarrow> TomlTable \<Rightarrow> qstring \<Rightarrow> int \<Rightarrow> int" where
  "getIntOr cv t key dflt = (case getInt cv t key of Some v \<Rightarrow> v | None \<Rightarrow> dflt)"

definition getDouble :: "Fpu \<Rightarrow> TomlConv \<Rightarrow> TomlTable \<Rightarrow> qstring \<Rightarrow> double option" where
  "getDouble fpu cv t key =
     (case Option.bind (at t key) (tv_float cv) of Some d \<Rightarrow> Some d
      | None \<Rightarrow> map_option (fp_of_int fpu) (Option.bind (at t key) (tv_int cv)))"

definition getDoubleOr :: "Fpu \<Rightarrow> TomlConv \<Rightarrow> TomlTable \<Rightarrow> qstring \<Rightarrow> double \<Rightarrow> double" where
  "getDoubleOr fpu cv t key dflt = (case getDouble fpu cv t key of Some v \<Rightarrow> v | None \<Rightarrow> dflt)"

definition getBool :: "TomlConv \<Rightarrow> TomlTable \<Rightarrow> qstring \<Rightarrow> bool option" where
  "getBool cv t key = Option.bind (at t key) (tv_bool cv)"

definition getBoolOr :: "TomlConv \<Rightarrow> TomlTable \<Rightarrow> qstring \<Rightarrow> bool \<Rightarrow> bool" where
  "getBoolOr cv t key dflt = (case getBool cv t key of Some v \<Rightarrow> v | None \<Rightarrow> dflt)"

text \<open>\<open>requireStr\<close> stores a present string and reports an absent one; the target is empty before.\<close>

definition requireStr :: "TomlConv \<Rightarrow> TomlTable \<Rightarrow> qstring \<Rightarrow> qstring \<Rightarrow> ValidationError list" where
  "requireStr cv t key sec = rejectAt (getStr cv t key = None) sec key ''missing required string field'' (line t)"

definition parseScalarType :: "qstring \<Rightarrow> ScalarType option" where
  "parseScalarType s = map_of [(''Bool'', Bool), (''U16'', U16), (''S16'', S16), (''U32'', U32), (''S32'', S32), (''F32'', F32),
     (''U64'', U64), (''S64'', S64), (''F64'', F64), (''EnumU16'', EnumU16), (''String'', String)] s"

definition parsePriority :: "qstring \<Rightarrow> Priority option" where
  "parsePriority s =
     (if s = ''Low'' then Some Priority_Low else if s = ''Normal'' then Some Priority_Normal
      else if s = ''High'' then Some Priority_High else if s = ''Critical'' then Some Priority_Critical else None)"

definition parseSchedulerKind :: "qstring \<Rightarrow> SchedulerKind option" where
  "parseSchedulerKind s =
     (if s = ''serial'' then Some Serial else if s = ''credit'' then Some Credit
      else if s = ''priority'' then Some PriorityKind else None)"

definition parseTransportKind :: "qstring \<Rightarrow> TransportKind option" where
  "parseTransportKind s = map_of [(''modbus_tcp_client'', ModbusTcpClient), (''modbus_tcp_server'', ModbusTcpServer),
     (''modbus_rtu'', ModbusRtu), (''opc_ua_client'', OpcUaClient), (''mqtt_client'', MqttClient), (''mqtt_qt_client'', MqttClient),
     (''mqtt_paho_client'', MqttPahoClient), (''s7_client'', S7Client)] s"

definition rejectUnknownKeys :: "TomlTable \<Rightarrow> qstring \<Rightarrow> qstring list \<Rightarrow> ValidationError list" where
  "rejectUnknownKeys t sec allowed =
     concat (map (\<lambda>(key, node). rejectAt (key \<notin> set allowed) sec key ''unknown field'' (toml_line node)) (snd t))"

datatype TomlFieldType = FString | FInteger | FNumber | FBoolean | FArray | FTable

fun hasType :: "TomlFieldType \<Rightarrow> Toml \<Rightarrow> bool" where
  "hasType FString n = (case n of TString _ _ \<Rightarrow> True | _ \<Rightarrow> False)"
| "hasType FInteger n = (case n of TInteger _ _ \<Rightarrow> True | _ \<Rightarrow> False)"
| "hasType FNumber n = (case n of TInteger _ _ \<Rightarrow> True | TFloat _ _ \<Rightarrow> True | _ \<Rightarrow> False)"
| "hasType FBoolean n = (case n of TBoolean _ _ \<Rightarrow> True | _ \<Rightarrow> False)"
| "hasType FArray n = (case n of TArray _ _ \<Rightarrow> True | _ \<Rightarrow> False)"
| "hasType FTable n = (case n of TTable _ _ \<Rightarrow> True | _ \<Rightarrow> False)"

fun typeText :: "TomlFieldType \<Rightarrow> qstring" where
  "typeText FString = ''string''"
| "typeText FInteger = ''integer''"
| "typeText FNumber = ''number''"
| "typeText FBoolean = ''boolean''"
| "typeText FArray = ''array''"
| "typeText FTable = ''table''"

definition rejectWrongTypes :: "TomlTable \<Rightarrow> qstring \<Rightarrow> (qstring \<times> TomlFieldType) list \<Rightarrow> ValidationError list" where
  "rejectWrongTypes t sec specs =
     concat (map (\<lambda>(key, type). case at t key of None \<Rightarrow> []
       | Some n \<Rightarrow> rejectAt (\<not> hasType type n) sec key (qarg ''expected %1'' (typeText type)) (toml_line n)) specs)"

subsection \<open>Section parsers\<close>

definition parseMeta :: "TomlConv \<Rightarrow> TomlTable \<Rightarrow> MetaConfig \<times> ValidationError list" where
  "parseMeta cv root =
     (case at root ''meta'' of
        None \<Rightarrow> (defaultMetaConfig, [])
      | Some n \<Rightarrow>
          (case as_table n of
             Some t \<Rightarrow>
               (\<lparr>meta_project = getStrOr cv t ''project'' [], meta_version = getStrOr cv t ''version'' [],
                 meta_generated = getStrOr cv t ''generated'' [], meta_logLevel = getStrOr cv t ''log_level'' []\<rparr>,
                rejectUnknownKeys t ''meta'' [''project'', ''version'', ''generated'', ''log_level'']
                @ rejectWrongTypes t ''meta'' [(''project'', FString), (''version'', FString), (''generated'', FString), (''log_level'', FString)])
           | None \<Rightarrow> (defaultMetaConfig, rejectAt True ''meta'' ''meta'' ''expected table'' (line root))))"

text \<open>A two element integer array \<open>[start, count]\<close>; \<open>missing\<close> is the message for any other shape.\<close>

definition rangeValues :: "TomlConv \<Rightarrow> TomlTable \<Rightarrow> (int \<times> int) option" where
  "rangeValues cv t =
     (case Option.bind (at t ''range'') as_array of
        Some [a, b] \<Rightarrow> (case (tv_int cv a, tv_int cv b) of (Some x, Some y) \<Rightarrow> Some (narrowInt x, narrowInt y) | _ \<Rightarrow> None)
      | _ \<Rightarrow> None)"

definition rangeErrors :: "TomlConv \<Rightarrow> TomlTable \<Rightarrow> qstring \<Rightarrow> bool \<Rightarrow> qstring \<Rightarrow> ValidationError list" where
  "rangeErrors cv t sec required missing =
     (case at t ''range'' of
        None \<Rightarrow> rejectAt required sec ''range'' missing (line t)
      | Some n \<Rightarrow>
          (case as_array n of
             Some [a, b] \<Rightarrow> rejectAt (tv_int cv a = None \<or> tv_int cv b = None) sec ''range'' ''elements must be integers'' (toml_line n)
           | _ \<Rightarrow> rejectAt True sec ''range'' missing (line t)))"

definition parsePriorityField :: "TomlConv \<Rightarrow> TomlTable \<Rightarrow> qstring \<Rightarrow> qstring \<Rightarrow> Priority \<Rightarrow> Priority \<times> ValidationError list" where
  "parsePriorityField cv t sec dflt initial =
     (let s = getStrOr cv t ''priority'' dflt in
      case parsePriority s of Some p \<Rightarrow> (p, [])
      | None \<Rightarrow> (initial, rejectAt True sec ''priority'' (qarg (''unknown priority '%1'' @ apos) s) (line t)))"

definition parsePollRange :: "TomlConv \<Rightarrow> TomlTable \<Rightarrow> nat \<Rightarrow> PollRangeConfig \<times> ValidationError list" where
  "parsePollRange cv t index =
     (let sec = qsection ''poll_range[%1]'' index;
          (start, count) = (case rangeValues cv t of Some r \<Rightarrow> r | None \<Rightarrow> (0, 0));
          period = getIntOr cv t ''period_ms'' 0;
          (priority, priorityErrs) = parsePriorityField cv t sec ''Normal'' Priority_Normal
      in (\<lparr>prg_moduleId = getStrOr cv t ''module_id'' [], prg_transport = getStrOr cv t ''transport'' [], prg_table = getStrOr cv t ''table'' [],
           prg_startAddress = start, prg_count = count, prg_periodMs = period, prg_priority = priority\<rparr>,
          rejectUnknownKeys t sec [''module_id'', ''transport'', ''table'', ''range'', ''period_ms'', ''priority'']
          @ rejectWrongTypes t sec [(''module_id'', FString), (''transport'', FString), (''table'', FString), (''range'', FArray),
              (''period_ms'', FInteger), (''priority'', FString)]
          @ requireStr cv t ''module_id'' sec @ requireStr cv t ''transport'' sec @ requireStr cv t ''table'' sec
          @ rangeErrors cv t sec True ''expected [start, count] array''
          @ rejectAt (period \<le> 0) sec ''period_ms'' ''period_ms must be > 0'' (line t)
          @ priorityErrs))"

definition u16Element :: "TomlConv \<Rightarrow> Toml \<Rightarrow> u16 option" where
  "u16Element cv n = (case tv_int cv n of Some i \<Rightarrow> if 0 \<le> i \<and> i \<le> 65535 then Some (of_int i) else None | None \<Rightarrow> None)"

definition parseU16Array :: "TomlConv \<Rightarrow> Toml list \<Rightarrow> qstring \<Rightarrow> qstring \<Rightarrow> u16 list \<times> ValidationError list" where
  "parseU16Array cv arr sec field =
     (List.map_filter (u16Element cv) arr,
      for_each_indexed (\<lambda>index n. rejectAt (u16Element cv n = None) sec field
        (qsection ''element %1 must be an integer in [0, 65535]'' index) (toml_line n)) arr)"

definition flushTable :: "TomlTable \<Rightarrow> TomlTable option" where
  "flushTable t = Option.bind (at t ''flush'') as_table"

definition flushErrors :: "TomlTable \<Rightarrow> qstring \<Rightarrow> ValidationError list" where
  "flushErrors t sec =
     (case flushTable t of None \<Rightarrow> []
      | Some f \<Rightarrow>
          rejectUnknownKeys f (sec @ ''.flush'') [''debounce_ms'', ''keepalive_ms'', ''coalesce'', ''max_retries'']
          @ rejectWrongTypes f (sec @ ''.flush'') [(''debounce_ms'', FInteger), (''keepalive_ms'', FInteger), (''coalesce'', FBoolean), (''max_retries'', FInteger)]
          @ rejectAt (has f ''coalesce'') (sec @ ''.flush'') ''coalesce''
              ''unsupported: SinkWindow already merges staged values into one snapshot and allows only one async flush in flight'' (line f)
          @ rejectAt (has f ''max_retries'') (sec @ ''.flush'') ''max_retries''
              ''unsupported: SinkWindow retries failed flushes until success'' (line f))"

definition parseSinkWindow :: "TomlConv \<Rightarrow> TomlTable \<Rightarrow> nat \<Rightarrow> SinkWindowConfig \<times> ValidationError list" where
  "parseSinkWindow cv t index =
     (let sec = qsection ''sink_window[%1]'' index;
          (start, size) = (case rangeValues cv t of Some r \<Rightarrow> r | None \<Rightarrow> (0, 0));
          (priority, priorityErrs) = parsePriorityField cv t sec ''High'' Priority_High;
          (initial, initialErrs) = (case Option.bind (at t ''initial'') as_array of None \<Rightarrow> ([], []) | Some arr \<Rightarrow> parseU16Array cv arr sec ''initial'')
      in (\<lparr>win_moduleId = getStrOr cv t ''module_id'' [], win_transport = getStrOr cv t ''transport'' [], win_table = getStrOr cv t ''table'' [],
           win_startAddress = start, win_size = size, win_priority = priority,
           win_debounceMs = (case flushTable t of None \<Rightarrow> 20 | Some f \<Rightarrow> getIntOr cv f ''debounce_ms'' 20),
           win_keepaliveMs = (case flushTable t of None \<Rightarrow> 0 | Some f \<Rightarrow> getIntOr cv f ''keepalive_ms'' 0), win_initial = initial\<rparr>,
          rejectUnknownKeys t sec [''module_id'', ''transport'', ''table'', ''range'', ''priority'', ''flush'', ''initial'']
          @ rejectWrongTypes t sec [(''module_id'', FString), (''transport'', FString), (''table'', FString), (''range'', FArray),
              (''priority'', FString), (''flush'', FTable), (''initial'', FArray)]
          @ requireStr cv t ''module_id'' sec @ requireStr cv t ''transport'' sec @ requireStr cv t ''table'' sec
          @ rangeErrors cv t sec True ''expected [start, size] array''
          @ rejectAt (size \<le> 0) sec ''range'' ''size must be > 0'' (line t)
          @ priorityErrs @ flushErrors t sec @ initialErrs))"

definition heartbeatValues :: "TomlConv \<Rightarrow> TomlTable \<Rightarrow> qstring \<Rightarrow> u16 list \<times> ValidationError list" where
  "heartbeatValues cv t sec =
     (case Option.bind (at t ''values'') as_array of
        Some arr \<Rightarrow> parseU16Array cv arr sec ''values''
      | None \<Rightarrow>
          (case getInt cv t ''value'' of None \<Rightarrow> ([], [])
           | Some v \<Rightarrow> if 0 \<le> v \<and> v \<le> 65535 then ([of_int v], [])
               else ([], rejectAt True sec ''value'' ''must be in [0, 65535]'' (line t))))"

definition parseHeartbeat :: "TomlConv \<Rightarrow> TomlTable \<Rightarrow> nat \<Rightarrow> HeartbeatSection \<times> ValidationError list" where
  "parseHeartbeat cv t index =
     (let sec = qsection ''heartbeat[%1]'' index;
          (payload, payloadErrs) = heartbeatValues cv t sec;
          period = getIntOr cv t ''period_ms'' 0;
          (priority, priorityErrs) = parsePriorityField cv t sec ''Low'' Priority_Low
      in (\<lparr>hbs_moduleId = getStrOr cv t ''module_id'' [], hbs_transport = getStrOr cv t ''transport'' [], hbs_table = getStrOr cv t ''table'' ''HR'',
           hbs_address = getIntOr cv t ''address'' 0, hbs_values = payload, hbs_periodMs = period, hbs_priority = priority,
           hbs_incrementer = getStrOr cv t ''incrementer'' ''none''\<rparr>,
          rejectUnknownKeys t sec [''module_id'', ''transport'', ''table'', ''address'', ''values'', ''value'', ''period_ms'', ''priority'', ''incrementer'']
          @ rejectWrongTypes t sec [(''module_id'', FString), (''transport'', FString), (''table'', FString), (''address'', FInteger),
              (''values'', FArray), (''value'', FInteger), (''period_ms'', FInteger), (''priority'', FString), (''incrementer'', FString)]
          @ requireStr cv t ''module_id'' sec @ requireStr cv t ''transport'' sec
          @ payloadErrs
          @ rejectAt (payload = []) sec ''values'' ''heartbeat requires non-empty values'' (line t)
          @ rejectAt (period \<le> 0) sec ''period_ms'' ''period_ms must be > 0'' (line t)
          @ priorityErrs))"

text \<open>The expected value of an acknowledgement: the first conversion that succeeds.\<close>

definition expectedValue :: "TomlConv \<Rightarrow> TomlTable \<Rightarrow> QVariant" where
  "expectedValue cv t =
     (case at t ''expected'' of None \<Rightarrow> QInvalid
      | Some v \<Rightarrow>
          (case tv_int cv v of Some i \<Rightarrow> QS64 (of_int i)
           | None \<Rightarrow> (case tv_bool cv v of Some b \<Rightarrow> QBool b
              | None \<Rightarrow> (case tv_str cv v of Some s \<Rightarrow> QText s
                 | None \<Rightarrow> (case tv_float cv v of Some d \<Rightarrow> QDouble d | None \<Rightarrow> QInvalid)))))"

definition parseAckWatch :: "TomlConv \<Rightarrow> TomlTable \<Rightarrow> nat \<Rightarrow> AckWatchConfig \<times> ValidationError list" where
  "parseAckWatch cv t index =
     (let sec = qsection ''ack_watch[%1]'' index in
      (\<lparr>aw_moduleId = getStrOr cv t ''module_id'' [], aw_dp = getStrOr cv t ''dp'' [], aw_expected = expectedValue cv t,
        aw_timeoutMs = getIntOr cv t ''timeout_ms'' 3000\<rparr>,
       rejectUnknownKeys t sec [''module_id'', ''dp'', ''timeout_ms'', ''expected'']
       @ rejectWrongTypes t sec [(''module_id'', FString), (''dp'', FString), (''timeout_ms'', FInteger)]
       @ requireStr cv t ''module_id'' sec @ requireStr cv t ''dp'' sec))"

definition parseCommandWrite :: "TomlConv \<Rightarrow> qstring \<Rightarrow> nat \<Rightarrow> TomlTable \<Rightarrow> CommandWriteEntry \<times> ValidationError list" where
  "parseCommandWrite cv sec wi wt =
     (let writeSec = sec @ qsection ''.writes[%1]'' wi;
          value = getIntOr cv wt ''value'' 0
      in (\<lparr>cwe_table = getStrOr cv wt ''table'' ''HR'', cwe_address = getIntOr cv wt ''address'' 0,
           cwe_value = (if value < 0 \<or> 65535 < value then 0 else of_int value)\<rparr>,
          rejectUnknownKeys wt writeSec [''table'', ''address'', ''value'']
          @ rejectWrongTypes wt writeSec [(''table'', FString), (''address'', FInteger), (''value'', FInteger)]
          @ rejectAt (value < 0 \<or> 65535 < value) writeSec ''value'' ''must be in [0, 65535]'' (line wt)))"

text \<open>
  The items of an array of tables: those that are tables are parsed, the others reported;
  \<open>itemSec i\<close> is the section an item error names.
\<close>

definition parseItems :: "(nat \<Rightarrow> qstring) \<Rightarrow> (TomlTable \<Rightarrow> nat \<Rightarrow> 'a \<times> ValidationError list) \<Rightarrow> Toml list \<Rightarrow> 'a list \<times> ValidationError list" where
  "parseItems itemSec parseOne nodes =
     (concat (map (\<lambda>(i, n). case as_table n of Some t \<Rightarrow> [fst (parseOne t i)] | None \<Rightarrow> []) (enumerate 0 nodes)),
      for_each_indexed (\<lambda>i n. case as_table n of Some t \<Rightarrow> snd (parseOne t i)
        | None \<Rightarrow> rejectAt True (itemSec i) ''item'' ''expected table'' (toml_line n)) nodes)"

definition parseCommand :: "TomlConv \<Rightarrow> TomlTable \<Rightarrow> nat \<Rightarrow> CommandSection \<times> ValidationError list" where
  "parseCommand cv t index =
     (let sec = qsection ''command[%1]'' index;
          (priority, priorityErrs) = parsePriorityField cv t sec ''High'' Priority_High;
          (writes, writeErrs) =
            (case Option.bind (at t ''writes'') as_array of None \<Rightarrow> ([], [])
             | Some arr \<Rightarrow> parseItems (\<lambda>wi. sec @ qsection ''.writes[%1]'' wi) (\<lambda>wt wi. parseCommandWrite cv sec wi wt) arr)
      in (\<lparr>cms_moduleId = getStrOr cv t ''module_id'' [], cms_transport = getStrOr cv t ''transport'' [], cms_priority = priority,
           cms_interruptable = getBoolOr cv t ''interruptable'' False, cms_writes = writes\<rparr>,
          rejectUnknownKeys t sec [''module_id'', ''transport'', ''priority'', ''interruptable'', ''trigger'', ''writes'']
          @ rejectWrongTypes t sec [(''module_id'', FString), (''transport'', FString), (''priority'', FString), (''interruptable'', FBoolean),
              (''writes'', FArray)]
          @ requireStr cv t ''module_id'' sec @ requireStr cv t ''transport'' sec
          @ priorityErrs
          @ rejectAt (has t ''trigger'') sec ''trigger''
              ''automatic command triggers are not implemented; invoke the Command module explicitly'' (line t)
          @ writeErrs
          @ rejectAt (writes = []) sec ''writes'' ''command requires non-empty writes'' (line t)))"

definition parseRoute :: "TomlConv \<Rightarrow> TomlTable \<Rightarrow> nat \<Rightarrow> RouteConfig \<times> ValidationError list" where
  "parseRoute cv t index =
     (let sec = qsection ''route[%1]'' index in
      (\<lparr>rt_name = getStrOr cv t ''name'' [], rt_from = getStrOr cv t ''from'' [], rt_to = getStrOr cv t ''to'' [],
        rt_policy = getStrOr cv t ''policy'' ''ContinuousMirror''\<rparr>,
       rejectUnknownKeys t sec [''name'', ''from'', ''to'', ''policy'']
       @ rejectWrongTypes t sec [(''name'', FString), (''from'', FString), (''to'', FString), (''policy'', FString)]
       @ requireStr cv t ''from'' sec @ requireStr cv t ''to'' sec))"

definition parseBridge :: "TomlConv \<Rightarrow> TomlTable \<Rightarrow> nat \<Rightarrow> BridgeConfig \<times> ValidationError list" where
  "parseBridge cv t index =
     (let sec = qsection ''bridge[%1]'' index;
          mirrorCount = getIntOr cv t ''mirror_count'' 0;
          policy = getStrOr cv t ''mirror_policy'' []
      in (\<lparr>br_server = getStrOr cv t ''server'' [], br_plc = getStrOr cv t ''plc'' [], br_offset = getIntOr cv t ''offset'' 0,
           br_writeStart = getIntOr cv t ''write_start'' 0, br_writeCount = getIntOr cv t ''write_count'' 0,
           br_mirrorStart = getIntOr cv t ''mirror_start'' 0, br_mirrorCount = mirrorCount,
           br_mirrorPolicy = (if policy = ''Periodic'' then Periodic else AfterPoll),
           br_mirrorPeriodMs = getIntOr cv t ''mirror_period_ms'' 0\<rparr>,
          rejectUnknownKeys t sec [''server'', ''plc'', ''offset'', ''write_start'', ''write_count'', ''mirror_start'', ''mirror_count'',
            ''mirror_policy'', ''mirror_period_ms'']
          @ rejectWrongTypes t sec [(''server'', FString), (''plc'', FString), (''offset'', FInteger), (''write_start'', FInteger),
              (''write_count'', FInteger), (''mirror_start'', FInteger), (''mirror_count'', FInteger), (''mirror_policy'', FString),
              (''mirror_period_ms'', FInteger)]
          @ requireStr cv t ''server'' sec @ requireStr cv t ''plc'' sec
          @ (if 0 < mirrorCount \<and> policy = []
             then rejectAt True sec ''mirror_policy'' ''is required when mirror_count is positive'' (- 1)
             else rejectAt (policy \<notin> set [''AfterPoll'', ''Periodic'', []]) sec ''mirror_policy''
               (''must be exactly 'AfterPoll' or 'Periodic'' @ apos) (- 1))))"

definition parsePlugin :: "TomlConv \<Rightarrow> TomlTable \<Rightarrow> nat \<Rightarrow> PluginConfig \<times> ValidationError list" where
  "parsePlugin cv t index =
     (let sec = qsection ''plugin[%1]'' index in
      (\<lparr>plg_name = getStrOr cv t ''name'' [], plg_dllPath = getStrOr cv t ''dll'' []\<rparr>,
       rejectUnknownKeys t sec [''dll'', ''name'', ''config'']
       @ rejectWrongTypes t sec [(''dll'', FString), (''name'', FString)]
       @ requireStr cv t ''dll'' sec
       @ rejectAt (has t ''config'') sec ''config'' ''plugin config payloads are not implemented by the Plugin interface'' (line t)))"

definition parsePortRef :: "Fpu \<Rightarrow> TomlConv \<Rightarrow> TomlTable \<Rightarrow> qstring \<Rightarrow> PortRefConfig \<times> ValidationError list" where
  "parsePortRef fpu cv t sec =
     (let maskValue = Option.bind (at t ''mask'') (tv_int cv)
      in (\<lparr>pf_port = getStrOr cv t ''port'' [], pf_table = getStrOr cv t ''table'' [], pf_address = getIntOr cv t ''addr'' 0,
           pf_bit = getIntOr cv t ''bit'' (- 1), pf_wordOrder = getStrOr cv t ''wordOrder'' [], pf_shift = getIntOr cv t ''shift'' 0,
           pf_mask = (case maskValue of Some m \<Rightarrow> if m < 0 then - 1 else of_int m | None \<Rightarrow> - 1),
           pf_scale = getDoubleOr fpu cv t ''scale'' double_one, pf_offset = getDoubleOr fpu cv t ''offset'' 0,
           pf_codec = getStrOr cv t ''codec'' [], pf_window = getStrOr cv t ''window'' []\<rparr>,
          rejectUnknownKeys t sec [''port'', ''table'', ''addr'', ''bit'', ''wordOrder'', ''shift'', ''mask'', ''scale'', ''offset'', ''codec'',
            ''dedupe'', ''window'']
          @ rejectWrongTypes t sec [(''port'', FString), (''table'', FString), (''addr'', FInteger), (''bit'', FInteger), (''wordOrder'', FString),
              (''shift'', FInteger), (''mask'', FInteger), (''scale'', FNumber), (''offset'', FNumber), (''codec'', FString),
              (''dedupe'', FBoolean), (''window'', FString)]
          @ rejectAt (case maskValue of Some m \<Rightarrow> m < 0 | None \<Rightarrow> False) sec ''mask'' ''mask must be >= 0'' (line t)
          @ rejectAt (has t ''dedupe'') sec ''dedupe'' ''port-level dedupe is not implemented'' (line t)))"

definition parsePortField :: "Fpu \<Rightarrow> TomlConv \<Rightarrow> TomlTable \<Rightarrow> qstring \<Rightarrow> qstring \<Rightarrow> (PortRefConfig \<times> ValidationError list) option" where
  "parsePortField fpu cv t sec key = map_option (\<lambda>p. parsePortRef fpu cv p (sec @ ''.'' @ key)) (Option.bind (at t key) as_table)"

definition parseAck :: "TomlConv \<Rightarrow> TomlTable \<Rightarrow> qstring \<Rightarrow> DatapointAckRef \<times> ValidationError list" where
  "parseAck cv a sec =
     (\<lparr>ackr_dp = getStrOr cv a ''dp'' [], ackr_expected = expectedValue cv a, ackr_timeoutMs = getIntOr cv a ''timeout_ms'' 3000\<rparr>,
      rejectUnknownKeys a (sec @ ''.ack'') [''dp'', ''timeout_ms'', ''expected'']
      @ rejectWrongTypes a (sec @ ''.ack'') [(''dp'', FString), (''timeout_ms'', FInteger)])"

definition parseDatapoint :: "Fpu \<Rightarrow> TomlConv \<Rightarrow> TomlTable \<Rightarrow> nat \<Rightarrow> DatapointConfig \<times> ValidationError list" where
  "parseDatapoint fpu cv t index =
     (let sec = qsection ''datapoint[%1]'' index;
          typeStr = getStrOr cv t ''type'' ''U16'';
          source = parsePortField fpu cv t sec ''source'';
          sink = parsePortField fpu cv t sec ''sink'';
          ack = map_option (\<lambda>a. parseAck cv a sec) (Option.bind (at t ''ack'') as_table)
      in (\<lparr>dpc_id = getStrOr cv t ''id'' [], dpc_kind = getStrOr cv t ''kind'' ''Status'',
           dpc_type = (case parseScalarType typeStr of Some ty \<Rightarrow> ty | None \<Rightarrow> U16),
           dpc_source = (case source of Some (p, _) \<Rightarrow> p | None \<Rightarrow> defaultPortRefConfig),
           dpc_sink = (case sink of Some (p, _) \<Rightarrow> p | None \<Rightarrow> defaultPortRefConfig),
           dpc_hasSource = (source \<noteq> None), dpc_hasSink = (sink \<noteq> None), dpc_policy = getStrOr cv t ''policy'' [],
           dpc_ack = (case ack of Some (a, _) \<Rightarrow> a | None \<Rightarrow> defaultAckRef), dpc_hasAck = (ack \<noteq> None),
           dpc_ui = getStrOr cv t ''ui'' [], dpc_persist = getStrOr cv t ''persist'' []\<rparr>,
          rejectUnknownKeys t sec [''id'', ''kind'', ''type'', ''source'', ''sink'', ''policy'', ''ui'', ''persist'', ''ack'']
          @ rejectWrongTypes t sec [(''id'', FString), (''kind'', FString), (''type'', FString), (''source'', FTable), (''sink'', FTable),
              (''policy'', FString), (''ui'', FString), (''persist'', FString), (''ack'', FTable)]
          @ requireStr cv t ''id'' sec
          @ rejectAt (parseScalarType typeStr = None) sec ''type'' (qarg (''unknown ScalarType '%1'' @ apos) typeStr) (line t)
          @ (case source of Some (_, es) \<Rightarrow> es | None \<Rightarrow> [])
          @ (case sink of Some (_, es) \<Rightarrow> es | None \<Rightarrow> [])
          @ (case ack of Some (_, es) \<Rightarrow> es | None \<Rightarrow> [])))"

text \<open>\<open>QMap::insert\<close> on a map ordered by key.\<close>

fun qmapInsert :: "qstring \<Rightarrow> 'a \<Rightarrow> (qstring \<times> 'a) list \<Rightarrow> (qstring \<times> 'a) list" where
  "qmapInsert k v [] = [(k, v)]"
| "qmapInsert k v ((k', v') # m) =
     (if k = k' then (k, v) # m else if k < k' then (k, v) # (k', v') # m else (k', v') # qmapInsert k v m)"

definition mapValue :: "TomlConv \<Rightarrow> Toml \<Rightarrow> QVariant" where
  "mapValue cv v =
     (case tv_str cv v of Some s \<Rightarrow> QText s
      | None \<Rightarrow> (case tv_int cv v of Some i \<Rightarrow> QS64 (of_int i)
         | None \<Rightarrow> (case tv_bool cv v of Some b \<Rightarrow> QBool b | None \<Rightarrow> QInvalid)))"

definition parseCodec :: "TomlConv \<Rightarrow> TomlTable \<Rightarrow> nat \<Rightarrow> CodecConfig \<times> ValidationError list" where
  "parseCodec cv t index =
     (let sec = qsection ''codec[%1]'' index in
      (\<lparr>cdc_id = getStrOr cv t ''id'' [], cdc_kind = getStrOr cv t ''kind'' [],
        cdc_map = (case Option.bind (at t ''map'') as_table of None \<Rightarrow> []
          | Some m \<Rightarrow> fold (\<lambda>(k, v) acc. qmapInsert k (mapValue cv v) acc) (snd m) []),
        cdc_script = getStrOr cv t ''script'' [], cdc_arg = getStrOr cv t ''arg'' []\<rparr>,
       rejectUnknownKeys t sec [''id'', ''kind'', ''script'', ''arg'', ''map'']
       @ rejectWrongTypes t sec [(''id'', FString), (''kind'', FString), (''script'', FString), (''arg'', FString), (''map'', FTable)]
       @ requireStr cv t ''id'' sec @ requireStr cv t ''kind'' sec))"

definition transportKeys :: "qstring list" where
  "transportKeys = [''id'', ''kind'', ''host'', ''port'', ''slave_id'', ''listen_address'', ''listen_port'', ''max_clients'', ''port_name'',
     ''baud_rate'', ''data_bits'', ''stop_bits'', ''parity'', ''endpoint_url'', ''security_policy'', ''username'', ''password'', ''backend'',
     ''node_id_template'', ''client_id'', ''broker_uri'', ''topic_prefix'', ''topic_template'', ''qos'', ''clean_session'', ''rack'', ''slot'',
     ''reconnect_interval_ms'', ''connect_timeout_ms'', ''request_timeout_ms'', ''scheduler'', ''listen_ranges'']"

definition transportTypes :: "(qstring \<times> TomlFieldType) list" where
  "transportTypes = [(''id'', FString), (''kind'', FString), (''host'', FString), (''port'', FInteger), (''slave_id'', FInteger),
     (''listen_address'', FString), (''listen_port'', FInteger), (''max_clients'', FInteger), (''port_name'', FString), (''baud_rate'', FInteger),
     (''data_bits'', FInteger), (''stop_bits'', FInteger), (''parity'', FString), (''endpoint_url'', FString), (''security_policy'', FString),
     (''username'', FString), (''password'', FString), (''backend'', FString), (''node_id_template'', FString), (''client_id'', FString),
     (''broker_uri'', FString), (''topic_prefix'', FString), (''topic_template'', FString), (''qos'', FInteger), (''clean_session'', FBoolean),
     (''rack'', FInteger), (''slot'', FInteger), (''reconnect_interval_ms'', FInteger), (''connect_timeout_ms'', FInteger),
     (''request_timeout_ms'', FInteger), (''scheduler'', FTable), (''listen_ranges'', FArray)]"

text \<open>The fields that apply to some transport kinds only, in the order they are checked.\<close>

definition kindFields :: "TransportKind \<Rightarrow> (qstring \<times> bool) list" where
  "kindFields k =
     (let tcpClient = (k = ModbusTcpClient); tcpServer = (k = ModbusTcpServer); rtu = (k = ModbusRtu); opc = (k = OpcUaClient);
          mqtt = (k = MqttClient \<or> k = MqttPahoClient); s7 = (k = S7Client)
      in [(''host'', tcpClient \<or> s7), (''port'', tcpClient \<or> s7), (''slave_id'', tcpClient \<or> tcpServer \<or> rtu),
          (''listen_address'', tcpServer), (''listen_port'', tcpServer), (''listen_ranges'', tcpServer), (''port_name'', rtu), (''baud_rate'', rtu),
          (''data_bits'', rtu), (''stop_bits'', rtu), (''parity'', rtu), (''endpoint_url'', opc), (''security_policy'', opc), (''backend'', opc),
          (''node_id_template'', opc), (''username'', opc \<or> mqtt), (''password'', opc \<or> mqtt), (''client_id'', mqtt), (''broker_uri'', mqtt),
          (''topic_prefix'', mqtt), (''topic_template'', mqtt), (''qos'', mqtt), (''clean_session'', mqtt), (''rack'', s7), (''slot'', s7)])"

definition rejectUnless :: "TomlTable \<Rightarrow> qstring \<Rightarrow> qstring \<Rightarrow> TransportKind \<Rightarrow> ValidationError list" where
  "rejectUnless t sec kindStr k =
     concat (map (\<lambda>(field, applies). rejectAt (has t field \<and> \<not> applies) sec field
       (qarg (''field is not applicable to transport kind '%1'' @ apos) kindStr) (line t)) (kindFields k))"

definition parseScheduler :: "TomlConv \<Rightarrow> TomlTable \<Rightarrow> qstring \<Rightarrow> SchedulerConfig \<times> ValidationError list" where
  "parseScheduler cv s sec =
     (let kindStr = getStrOr cv s ''kind'' ''serial'' in
      (\<lparr>cfg_kind = (case parseSchedulerKind kindStr of Some k \<Rightarrow> k | None \<Rightarrow> Serial),
        cfg_interRequestGapMs = getIntOr cv s ''inter_request_gap_ms'' 0, cfg_maxQueueDepth = getIntOr cv s ''max_queue_depth'' 256,
        cfg_maxInflight = getIntOr cv s ''max_inflight'' 1, cfg_starvationGuardMs = getIntOr cv s ''starvation_guard_ms'' 5000,
        cfg_fifoWithinLane = getBoolOr cv s ''fifo_within_lane'' True,
        cfg_circuitBreakerThreshold = getIntOr cv s ''circuit_breaker_threshold'' 10,
        cfg_circuitBreakerOpenMs = getIntOr cv s ''circuit_breaker_open_ms'' 5000\<rparr>,
       rejectUnknownKeys s (sec @ ''.scheduler'') [''kind'', ''default_timeout_ms'', ''inter_request_gap_ms'', ''max_queue_depth'', ''max_inflight'',
         ''starvation_guard_ms'', ''fifo_within_lane'', ''circuit_breaker_threshold'', ''circuit_breaker_open_ms'']
       @ rejectWrongTypes s (sec @ ''.scheduler'') [(''kind'', FString), (''default_timeout_ms'', FInteger), (''inter_request_gap_ms'', FInteger),
           (''max_queue_depth'', FInteger), (''max_inflight'', FInteger), (''starvation_guard_ms'', FInteger), (''fifo_within_lane'', FBoolean),
           (''circuit_breaker_threshold'', FInteger), (''circuit_breaker_open_ms'', FInteger)]
       @ rejectAt (parseSchedulerKind kindStr = None) (sec @ ''.scheduler'') ''kind'' (qarg (''unknown scheduler kind '%1'' @ apos) kindStr) (line s)
       @ rejectAt (has s ''default_timeout_ms'') (sec @ ''.scheduler'') ''default_timeout_ms''
           ''unsupported: use transport.request_timeout_ms'' (line s)))"

definition parseTable :: "qstring \<Rightarrow> RegisterType option" where
  "parseTable tbl =
     (if tbl = ''HR'' \<or> tbl = ''HoldingRegisters'' then Some HoldingRegisters
      else if tbl = ''IR'' \<or> tbl = ''InputRegisters'' then Some InputRegisters
      else if tbl = ''Coil'' \<or> tbl = ''Coils'' then Some Coils
      else if tbl = ''DI'' \<or> tbl = ''DiscreteInputs'' then Some DiscreteInputs else None)"

definition parseWatchRange :: "TomlConv \<Rightarrow> qstring \<Rightarrow> TomlTable \<Rightarrow> WatchRange \<times> ValidationError list" where
  "parseWatchRange cv sec wt =
     (let tbl = getStrOr cv wt ''table'' ''HR'';
          (start, size) = (case rangeValues cv wt of Some r \<Rightarrow> r | None \<Rightarrow> (0, 0))
      in (\<lparr>wt_table = (case parseTable tbl of Some ty \<Rightarrow> ty | None \<Rightarrow> HoldingRegisters), wt_startAddress = start, wt_size = size\<rparr>,
          rejectUnknownKeys wt sec [''table'', ''range'']
          @ rejectWrongTypes wt sec [(''table'', FString), (''range'', FArray)]
          @ rejectAt (parseTable tbl = None) sec ''table'' (qarg (''unknown register table '%1'' @ apos) tbl) (line wt)
          @ rangeErrors cv wt sec False ''expected [start, size] array''))"

definition transportFields :: "TomlConv \<Rightarrow> TomlTable \<Rightarrow> TransportKind \<Rightarrow> SchedulerConfig \<Rightarrow> WatchRange list \<Rightarrow> TransportConfig" where
  "transportFields cv t k scheduler ranges =
     \<lparr>tp_id = getStrOr cv t ''id'' [], tp_kind = k, tp_host = getStrOr cv t ''host'' [],
      tp_port = getIntOr cv t ''port'' (if k = S7Client then 102 else 502), tp_slaveId = getIntOr cv t ''slave_id'' 1,
      tp_listenAddress = getStrOr cv t ''listen_address'' ''0.0.0.0'', tp_listenPort = getIntOr cv t ''listen_port'' 502,
      tp_listenRanges = ranges, tp_portName = getStrOr cv t ''port_name'' [], tp_baudRate = getIntOr cv t ''baud_rate'' 9600,
      tp_dataBits = getIntOr cv t ''data_bits'' 8, tp_stopBits = getIntOr cv t ''stop_bits'' 1, tp_parity = getStrOr cv t ''parity'' ''none'',
      tp_endpointUrl = getStrOr cv t ''endpoint_url'' [], tp_securityPolicy = getStrOr cv t ''security_policy'' ''None'',
      tp_username = getStrOr cv t ''username'' [], tp_password = getStrOr cv t ''password'' [],
      tp_opcuaBackend = getStrOr cv t ''backend'' ''open62541'', tp_nodeIdTemplate = getStrOr cv t ''node_id_template'' ''ns=2;s=Var_%1'',
      tp_clientId = getStrOr cv t ''client_id'' [], tp_brokerUri = getStrOr cv t ''broker_uri'' [],
      tp_topicPrefix = getStrOr cv t ''topic_prefix'' [], tp_topicTemplate = getStrOr cv t ''topic_template'' ''reg/%1'',
      tp_qos = getIntOr cv t ''qos'' 1, tp_cleanSession = getBoolOr cv t ''clean_session'' True,
      tp_rack = getIntOr cv t ''rack'' 0, tp_slot = getIntOr cv t ''slot'' 1,
      tp_reconnectIntervalMs = getIntOr cv t ''reconnect_interval_ms'' 15000, tp_connectTimeoutMs = getIntOr cv t ''connect_timeout_ms'' 3000,
      tp_requestTimeoutMs = getIntOr cv t ''request_timeout_ms'' 1000, tp_scheduler = scheduler\<rparr>"

definition parseTransport :: "TomlConv \<Rightarrow> TomlTable \<Rightarrow> nat \<Rightarrow> TransportConfig \<times> ValidationError list" where
  "parseTransport cv t index =
     (let sec = qsection ''transport[%1]'' index;
          kindStr = getStrOr cv t ''kind'' [];
          k = (case parseTransportKind kindStr of Some k \<Rightarrow> k | None \<Rightarrow> ModbusTcpClient);
          (scheduler, schedulerErrs) = (case Option.bind (at t ''scheduler'') as_table of None \<Rightarrow> (defaultSchedulerConfig, [])
            | Some s \<Rightarrow> parseScheduler cv s sec);
          (ranges, rangeErrs) = (case Option.bind (at t ''listen_ranges'') as_array of None \<Rightarrow> ([], [])
            | Some lr \<Rightarrow> parseItems (\<lambda>i. sec @ ''.listen_ranges'') (\<lambda>wt i. parseWatchRange cv (sec @ ''.listen_ranges'') wt) lr)
      in (transportFields cv t k scheduler ranges,
          rejectUnknownKeys t sec transportKeys
          @ rejectWrongTypes t sec transportTypes
          @ requireStr cv t ''id'' sec @ requireStr cv t ''kind'' sec
          @ rejectAt (parseTransportKind kindStr = None \<and> kindStr \<noteq> []) sec ''kind'' (qarg (''unknown transport kind '%1'' @ apos) kindStr) (line t)
          @ rejectUnless t sec kindStr k
          @ rejectAt (has t ''max_clients'') sec ''max_clients''
              ''unsupported: Qt Modbus TCP server does not expose a client limit'' (line t)
          @ rejectAt (has t ''request_timeout_ms'' \<and> k = ModbusTcpServer) sec ''request_timeout_ms'' ''not applicable to a Modbus TCP server'' (line t)
          @ rejectAt (has t ''request_timeout_ms'' \<and> k = MqttClient) sec ''request_timeout_ms''
              ''Qt MQTT publish is asynchronous and has no request timeout'' (line t)
          @ schedulerErrs @ rangeErrs))"

definition parseArray :: "TomlTable \<Rightarrow> qstring \<Rightarrow> (TomlTable \<Rightarrow> nat \<Rightarrow> 'a \<times> ValidationError list) \<Rightarrow> 'a list \<times> ValidationError list" where
  "parseArray root key parseOne =
     (case at root key of None \<Rightarrow> ([], [])
      | Some n \<Rightarrow>
          (case as_array n of
             Some arr \<Rightarrow> parseItems (\<lambda>i. key @ qsection ''[%1]'' i) parseOne arr
           | None \<Rightarrow> ([], rejectAt True key key ''expected array'' (line root))))"

definition rootKeys :: "qstring list" where
  "rootKeys = [''meta'', ''transport'', ''codec'', ''poll_range'', ''sink_window'', ''heartbeat'', ''ack_watch'', ''command'', ''datapoint'',
     ''route'', ''bridge'', ''plugin'']"

definition parseSchema :: "Fpu \<Rightarrow> TomlConv \<Rightarrow> TomlTable \<Rightarrow> ConfigSchema \<times> ValidationError list" where
  "parseSchema fpu cv root =
     (let (meta, e0) = parseMeta cv root;
          (transports, e1) = parseArray root ''transport'' (parseTransport cv);
          (codecs, e2) = parseArray root ''codec'' (parseCodec cv);
          (polls, e3) = parseArray root ''poll_range'' (parsePollRange cv);
          (windows, e4) = parseArray root ''sink_window'' (parseSinkWindow cv);
          (beats, e5) = parseArray root ''heartbeat'' (parseHeartbeat cv);
          (acks, e6) = parseArray root ''ack_watch'' (parseAckWatch cv);
          (commands, e7) = parseArray root ''command'' (parseCommand cv);
          (dps, e8) = parseArray root ''datapoint'' (parseDatapoint fpu cv);
          (routes, e9) = parseArray root ''route'' (parseRoute cv);
          (bridges, e10) = parseArray root ''bridge'' (parseBridge cv);
          (plugins, e11) = parseArray root ''plugin'' (parsePlugin cv)
      in (\<lparr>cs_meta = meta, cs_transports = transports, cs_codecs = codecs, cs_pollRanges = polls, cs_sinkWindows = windows,
           cs_heartbeats = beats, cs_ackWatches = acks, cs_commands = commands, cs_datapoints = dps, cs_routes = routes,
           cs_bridges = bridges, cs_plugins = plugins\<rparr>,
          rejectUnknownKeys root ''root'' rootKeys @ e0 @ e1 @ e2 @ e3 @ e4 @ e5 @ e6 @ e7 @ e8 @ e9 @ e10 @ e11))"

text \<open>What reading and parsing the file gives: it cannot be opened, toml++ throws, or a document.\<close>

datatype TomlFile = Unreadable | Malformed qstring int | Document TomlTable

definition loadFromToml :: "LoaderEnv \<Rightarrow> Fpu \<Rightarrow> TomlConv \<Rightarrow> qstring \<Rightarrow> TomlFile \<Rightarrow> ValidationError list + ConfigSchema" where
  "loadFromToml env fpu cv path file =
     (case file of
        Unreadable \<Rightarrow> Inl (rejectAt True ''meta'' ''path'' (qarg (''cannot open '%1'' @ apos) path) (- 1))
      | Malformed description l \<Rightarrow> Inl (rejectAt True ''meta'' ''toml'' description l)
      | Document root \<Rightarrow>
          (let (schema, parseErrs) = parseSchema fpu cv root; errs = parseErrs @ validate env schema
           in if errs \<noteq> [] then Inl errs else Inr schema))"

subsection \<open>What an accepted document is\<close>

lemma rejectUnknownKeys_iff: "rejectUnknownKeys t sec allowed = [] \<longleftrightarrow> fst ` set (snd t) \<subseteq> set allowed"
  by (auto simp: rejectUnknownKeys_def)

lemma rejectWrongTypes_iff:
  "rejectWrongTypes t sec specs = [] \<longleftrightarrow> (\<forall>(key, type) \<in> set specs. \<forall>n. at t key = Some n \<longrightarrow> hasType type n)"
  by (auto simp: rejectWrongTypes_def split: option.splits)

lemma hasType_value:
  assumes "conv_exact cv"
  shows "hasType FString n \<Longrightarrow> \<exists>v. tv_str cv n = Some v" "hasType FInteger n \<Longrightarrow> \<exists>v. tv_int cv n = Some v"
    "hasType FBoolean n \<Longrightarrow> \<exists>v. tv_bool cv n = Some v"
  using assms by (auto simp: conv_exact_def split: Toml.splits)

lemma parseItems_tables:
  "fst (parseItems itemSec parseOne (map (\<lambda>t. TTable (fst t) (snd t)) ts)) = map (\<lambda>(i, t). fst (parseOne t i)) (enumerate 0 ts)"
proof -
  have "concat (map (\<lambda>(i, n). case as_table n of Some t \<Rightarrow> [fst (parseOne t i)] | None \<Rightarrow> [])
      (enumerate k (map (\<lambda>t. TTable (fst t) (snd t)) ts))) = map (\<lambda>(i, t). fst (parseOne t i)) (enumerate k ts)" for k
    by (induction ts arbitrary: k) auto
  then show ?thesis by (simp add: parseItems_def)
qed

lemma parseItems_ok:
  assumes "snd (parseItems itemSec parseOne nodes) = []"
  shows "\<exists>ts. nodes = map (\<lambda>t. TTable (fst t) (snd t)) ts \<and> (\<forall>i < length ts. snd (parseOne (ts ! i) i) = [])"
proof -
  have item: "\<exists>t. nodes ! i = TTable (fst t) (snd t) \<and> snd (parseOne t i) = []" if "i < length nodes" for i
    using assms that by (cases "nodes ! i") (fastforce simp: parseItems_def for_each_indexed_empty_iff)+
  then have "nodes = map (\<lambda>t. TTable (fst t) (snd t)) (map (the \<circ> as_table) nodes)"
    by (intro nth_equalityI) fastforce+
  moreover have "snd (parseOne (map (the \<circ> as_table) nodes ! i) i) = []" if "i < length nodes" for i
    using item [of i] that by fastforce
  ultimately show ?thesis by (metis length_map)
qed

text \<open>The keys each section accepts.\<close>

definition sectionKeys :: "qstring \<Rightarrow> qstring set" where
  "sectionKeys section = set (the (map_of
     [(''transport'', transportKeys),
      (''codec'', [''id'', ''kind'', ''script'', ''arg'', ''map'']),
      (''poll_range'', [''module_id'', ''transport'', ''table'', ''range'', ''period_ms'', ''priority'']),
      (''sink_window'', [''module_id'', ''transport'', ''table'', ''range'', ''priority'', ''flush'', ''initial'']),
      (''heartbeat'', [''module_id'', ''transport'', ''table'', ''address'', ''values'', ''value'', ''period_ms'', ''priority'', ''incrementer'']),
      (''ack_watch'', [''module_id'', ''dp'', ''timeout_ms'', ''expected'']),
      (''command'', [''module_id'', ''transport'', ''priority'', ''interruptable'', ''writes'']),
      (''datapoint'', [''id'', ''kind'', ''type'', ''source'', ''sink'', ''policy'', ''ui'', ''persist'', ''ack'']),
      (''route'', [''name'', ''from'', ''to'', ''policy'']),
      (''bridge'', [''server'', ''plc'', ''offset'', ''write_start'', ''write_count'', ''mirror_start'', ''mirror_count'', ''mirror_policy'', ''mirror_period_ms'']),
      (''plugin'', [''dll'', ''name''])] section))"

text \<open>
  A section of the document and the list it became: absent and empty, or an array of tables with
  accepted keys only, each parsed without an error at its own position.
\<close>

definition sectionFaithful :: "TomlTable \<Rightarrow> qstring \<Rightarrow> (TomlTable \<Rightarrow> nat \<Rightarrow> 'a \<times> ValidationError list) \<Rightarrow> 'a list \<Rightarrow> bool" where
  "sectionFaithful root key parseOne out \<longleftrightarrow>
     (at root key = None \<and> out = [])
     \<or> (\<exists>l ts. at root key = Some (TArray l (map (\<lambda>t. TTable (fst t) (snd t)) ts)) \<and> length out = length ts
          \<and> (\<forall>i < length ts. parseOne (ts ! i) i = (out ! i, []) \<and> fst ` set (snd (ts ! i)) \<subseteq> sectionKeys key))"

lemma parseArray_faithful:
  assumes "parseArray root key parseOne = (out, [])" "\<And>t i. snd (parseOne t i) = [] \<Longrightarrow> fst ` set (snd t) \<subseteq> sectionKeys key"
  shows "sectionFaithful root key parseOne out"
proof (cases "at root key")
  case None
  then show ?thesis using assms(1) by (simp add: parseArray_def sectionFaithful_def)
next
  case (Some n)
  then obtain l arr where n: "n = TArray l arr" and p: "parseItems (\<lambda>i. key @ qsection ''[%1]'' i) parseOne arr = (out, [])"
    using assms(1) by (cases n) (auto simp: parseArray_def)
  then obtain ts where ts: "arr = map (\<lambda>t. TTable (fst t) (snd t)) ts" "\<forall>i < length ts. snd (parseOne (ts ! i) i) = []"
    using parseItems_ok [of "\<lambda>i. key @ qsection ''[%1]'' i" parseOne arr] by auto
  have o: "out = map (\<lambda>(i, t). fst (parseOne t i)) (enumerate 0 ts)"
    using p parseItems_tables [of "\<lambda>i. key @ qsection ''[%1]'' i" parseOne ts] unfolding ts(1) by simp
  have "parseOne (ts ! i) i = (out ! i, []) \<and> fst ` set (snd (ts ! i)) \<subseteq> sectionKeys key" if "i < length ts" for i
    using that ts(2) assms(2) [of "ts ! i" i] o by (simp add: nth_enumerate_eq prod_eq_iff)
  moreover have "length out = length ts" using o by simp
  ultimately show ?thesis using Some n ts(1) unfolding sectionFaithful_def by blast
qed

lemmas parse_defs = parseTransport_def parseCodec_def parsePollRange_def parseSinkWindow_def parseHeartbeat_def parseAckWatch_def
  parseCommand_def parseDatapoint_def parseRoute_def parseBridge_def parsePlugin_def

lemma has_iff: "has t key \<longleftrightarrow> key \<in> fst ` set (snd t)"
  unfolding has_def at_def by (simp add: map_of_eq_None_iff)

lemma section_keys:
  "snd (parseTransport cv t i) = [] \<Longrightarrow> fst ` set (snd t) \<subseteq> sectionKeys ''transport''"
  "snd (parseCodec cv t i) = [] \<Longrightarrow> fst ` set (snd t) \<subseteq> sectionKeys ''codec''"
  "snd (parsePollRange cv t i) = [] \<Longrightarrow> fst ` set (snd t) \<subseteq> sectionKeys ''poll_range''"
  "snd (parseSinkWindow cv t i) = [] \<Longrightarrow> fst ` set (snd t) \<subseteq> sectionKeys ''sink_window''"
  "snd (parseHeartbeat cv t i) = [] \<Longrightarrow> fst ` set (snd t) \<subseteq> sectionKeys ''heartbeat''"
  "snd (parseAckWatch cv t i) = [] \<Longrightarrow> fst ` set (snd t) \<subseteq> sectionKeys ''ack_watch''"
  "snd (parseDatapoint fpu cv t i) = [] \<Longrightarrow> fst ` set (snd t) \<subseteq> sectionKeys ''datapoint''"
  "snd (parseRoute cv t i) = [] \<Longrightarrow> fst ` set (snd t) \<subseteq> sectionKeys ''route''"
  "snd (parseBridge cv t i) = [] \<Longrightarrow> fst ` set (snd t) \<subseteq> sectionKeys ''bridge''"
  by (simp_all add: parse_defs Let_def split_beta rejectUnknownKeys_iff sectionKeys_def)

lemma section_keys_reserved:
  "snd (parseCommand cv t i) = [] \<Longrightarrow> fst ` set (snd t) \<subseteq> sectionKeys ''command''"
  "snd (parsePlugin cv t i) = [] \<Longrightarrow> fst ` set (snd t) \<subseteq> sectionKeys ''plugin''"
proof -
  assume "snd (parseCommand cv t i) = []"
  then have "fst ` set (snd t) \<subseteq> set [''module_id'', ''transport'', ''priority'', ''interruptable'', ''trigger'', ''writes'']"
    "''trigger'' \<notin> fst ` set (snd t)"
    by (simp_all add: parseCommand_def Let_def split_beta rejectUnknownKeys_iff has_iff)
  then have "fst ` set (snd t) \<subseteq> set [''module_id'', ''transport'', ''priority'', ''interruptable'', ''trigger'', ''writes''] - {''trigger''}"
    by blast
  then show "fst ` set (snd t) \<subseteq> sectionKeys ''command''" by (simp add: sectionKeys_def insert_Diff_if)
next
  assume "snd (parsePlugin cv t i) = []"
  then have "fst ` set (snd t) \<subseteq> set [''dll'', ''name'', ''config'']" "''config'' \<notin> fst ` set (snd t)"
    by (simp_all add: parsePlugin_def Let_def rejectUnknownKeys_iff has_iff)
  then have "fst ` set (snd t) \<subseteq> set [''dll'', ''name'', ''config''] - {''config''}" by blast
  then show "fst ` set (snd t) \<subseteq> sectionKeys ''plugin''" by (simp add: sectionKeys_def insert_Diff_if)
qed

text \<open>A document for the examples, and conversions that only read values of the exact type.\<close>

definition strictConv :: TomlConv where
  "strictConv = \<lparr>tv_str = (\<lambda>n. case n of TString _ s \<Rightarrow> Some s | _ \<Rightarrow> None), tv_int = (\<lambda>n. case n of TInteger _ i \<Rightarrow> Some i | _ \<Rightarrow> None),
     tv_float = (\<lambda>n. case n of TFloat _ d \<Rightarrow> Some d | _ \<Rightarrow> None), tv_bool = (\<lambda>n. case n of TBoolean _ b \<Rightarrow> Some b | _ \<Rightarrow> None)\<rparr>"

lemma strictConv_exact: "conv_exact strictConv"
  by (simp add: conv_exact_def strictConv_def)

definition demoRoot :: TomlTable where
  "demoRoot = (1, [(''transport'', TArray 2 [TTable 2 [(''host'', TString 4 ''h''), (''id'', TString 2 ''plc''), (''kind'', TString 3 ''modbus_tcp_client'')]]),
     (''poll_range'', TArray 6 [TTable 6 [(''module_id'', TString 7 ''p''), (''period_ms'', TInteger 11 100), (''range'', TArray 10 [TInteger 10 5, TInteger 10 2]),
        (''table'', TString 9 ''HR''), (''transport'', TString 8 ''plc'')]])])"

definition demoParsed :: ConfigSchema where
  "demoParsed = emptySchema\<lparr>cs_transports := [defaultTransportConfig\<lparr>tp_id := ''plc'', tp_host := ''h'', tp_listenAddress := ''0.0.0.0''\<rparr>],
     cs_pollRanges := [\<lparr>prg_moduleId = ''p'', prg_transport = ''plc'', prg_table = ''HR'', prg_startAddress = 5, prg_count = 2,
       prg_periodMs = 100, prg_priority = 1\<rparr>]\<rparr>"

lemmas access_defs = at_def has_def getStr_def getStrOr_def getInt_def getIntOr_def getBool_def getBoolOr_def requireStr_def
  rejectUnknownKeys_def rejectWrongTypes_def rejectAt_def parsePriorityField_def parsePriority_def rangeValues_def rangeErrors_def
  narrowInt_def int_max_def int_min_def

lemma demo_load: "loadFromToml demoLoader demoFpu strictConv [] (Document demoRoot) = Inr demoParsed"
proof -
  have "parseSchema demoFpu strictConv demoRoot = (demoParsed, [])"
    by (simp add: parseSchema_def demoRoot_def demoParsed_def demo_unfolds strictConv_def access_defs parseMeta_def parseArray_def parseItems_def
        for_each_indexed_def rootKeys_def parseTransport_def parsePollRange_def transportKeys_def transportTypes_def transportFields_def
        parseTransportKind_def rejectUnless_def kindFields_def Let_def)
  moreover have "validate demoLoader demoParsed = []"
    by (simp add: demoParsed_def demo_unfolds validate_defs for_each_indexed_def blank_def trimmed_def is_space_def Let_def
        del: sameRegisters_iff hitsBridgeWrite_iff)
  ultimately show ?thesis by (simp add: loadFromToml_def)
qed



end
