(* ===== verification/Config_Roundtrip.thy ===== *)
theory Config_Roundtrip
  imports Config_Parse
begin

text \<open>
  A writer for the sections of the configuration, as a specification of the parsers: what the
  writer produces for a well-formed section is read back as that section, without an error.  The
  fields land under the keys the documentation gives them, so a parser that reads a field from
  another key, or drops one, does not satisfy it.
\<close>

definition renderPriority :: "Priority \<Rightarrow> qstring" where
  "renderPriority p = (if p = 0 then ''Low'' else if p = 1 then ''Normal'' else if p = 2 then ''High'' else ''Critical'')"

definition int32 :: "int \<Rightarrow> bool" where
  "int32 i \<longleftrightarrow> int_min \<le> i \<and> i \<le> int_max"

lemma parse_renderPriority: "0 \<le> p \<Longrightarrow> p \<le> 3 \<Longrightarrow> parsePriority (renderPriority p) = Some p"
  by (auto simp: parsePriority_def renderPriority_def)

lemma narrowInt_int32 [simp]: "int32 i \<Longrightarrow> narrowInt i = i"
  by (auto simp: narrowInt_def int32_def)

abbreviation str :: "qstring \<Rightarrow> qstring \<Rightarrow> qstring \<times> Toml" where "str k s \<equiv> (k, TString 0 s)"
abbreviation num :: "qstring \<Rightarrow> int \<Rightarrow> qstring \<times> Toml" where "num k i \<equiv> (k, TInteger 0 i)"
abbreviation range :: "int \<Rightarrow> int \<Rightarrow> qstring \<times> Toml" where "range a n \<equiv> (''range'', TArray 0 [TInteger 0 a, TInteger 0 n])"

definition u16Nodes :: "u16 list \<Rightarrow> Toml list" where
  "u16Nodes = map (\<lambda>w. TInteger 0 (uint w))"

lemma u16Element_node:
  assumes "conv_exact cv" shows "u16Element cv (TInteger 0 (uint (w :: u16))) = Some w"
proof -
  have "uint w < 2 ^ 16" using uint_lt2p [of w] by simp
  then show ?thesis using assms by (simp add: u16Element_def conv_exact_def)
qed

lemma parseU16Array_nodes: "conv_exact cv \<Longrightarrow> parseU16Array cv (u16Nodes ws) sec field = (ws, [])"
proof -
  assume cv: "conv_exact cv"
  have "List.map_filter (u16Element cv) (u16Nodes ws) = ws"
    by (induction ws) (simp_all add: u16Nodes_def map_filter_simps u16Element_node [OF cv])
  then show ?thesis
    by (simp add: parseU16Array_def for_each_indexed_empty_iff u16Nodes_def u16Element_node [OF cv])
qed

subsection \<open>Writers\<close>

definition renderPollRange :: "PollRangeConfig \<Rightarrow> TomlTable" where
  "renderPollRange c = (0, [str ''module_id'' (prg_moduleId c), num ''period_ms'' (prg_periodMs c), str ''priority'' (renderPriority (prg_priority c)),
     range (prg_startAddress c) (prg_count c), str ''table'' (prg_table c), str ''transport'' (prg_transport c)])"

definition renderSinkWindow :: "SinkWindowConfig \<Rightarrow> TomlTable" where
  "renderSinkWindow c = (0, [(''flush'', TTable 0 [num ''debounce_ms'' (win_debounceMs c), num ''keepalive_ms'' (win_keepaliveMs c)]),
     (''initial'', TArray 0 (u16Nodes (win_initial c))), str ''module_id'' (win_moduleId c), str ''priority'' (renderPriority (win_priority c)),
     range (win_startAddress c) (win_size c), str ''table'' (win_table c), str ''transport'' (win_transport c)])"

definition renderHeartbeat :: "HeartbeatSection \<Rightarrow> TomlTable" where
  "renderHeartbeat c = (0, [num ''address'' (hbs_address c), str ''incrementer'' (hbs_incrementer c), str ''module_id'' (hbs_moduleId c),
     num ''period_ms'' (hbs_periodMs c), str ''priority'' (renderPriority (hbs_priority c)), str ''table'' (hbs_table c),
     str ''transport'' (hbs_transport c), (''values'', TArray 0 (u16Nodes (hbs_values c)))])"

definition renderCommandWrite :: "CommandWriteEntry \<Rightarrow> TomlTable" where
  "renderCommandWrite e = (0, [num ''address'' (cwe_address e), str ''table'' (cwe_table e), num ''value'' (uint (cwe_value e))])"

definition renderCommand :: "CommandSection \<Rightarrow> TomlTable" where
  "renderCommand c = (0, [(''interruptable'', TBoolean 0 (cms_interruptable c)), str ''module_id'' (cms_moduleId c),
     str ''priority'' (renderPriority (cms_priority c)), str ''transport'' (cms_transport c),
     (''writes'', TArray 0 (map (\<lambda>e. TTable (fst (renderCommandWrite e)) (snd (renderCommandWrite e))) (cms_writes c)))])"

definition renderRoute :: "RouteConfig \<Rightarrow> TomlTable" where
  "renderRoute c = (0, [str ''from'' (rt_from c), str ''name'' (rt_name c), str ''policy'' (rt_policy c), str ''to'' (rt_to c)])"

definition renderBridge :: "BridgeConfig \<Rightarrow> TomlTable" where
  "renderBridge c = (0, [num ''mirror_count'' (br_mirrorCount c), num ''mirror_period_ms'' (br_mirrorPeriodMs c),
     str ''mirror_policy'' (case br_mirrorPolicy c of AfterPoll \<Rightarrow> ''AfterPoll'' | Periodic \<Rightarrow> ''Periodic''),
     num ''mirror_start'' (br_mirrorStart c), num ''offset'' (br_offset c), str ''plc'' (br_plc c), str ''server'' (br_server c),
     num ''write_count'' (br_writeCount c), num ''write_start'' (br_writeStart c)])"

subsection \<open>Round trips\<close>

lemma renderPriority_parses:
  assumes "conv_exact cv" "0 \<le> p" "p \<le> 3" "at t ''priority'' = Some (TString 0 (renderPriority p))"
  shows "parsePriorityField cv t sec dflt q = (p, [])"
  using assms by (simp add: parsePriorityField_def getStrOr_def getStr_def conv_exact_def parse_renderPriority)

definition pollRangeOk :: "PollRangeConfig \<Rightarrow> bool" where
  "pollRangeOk c \<longleftrightarrow> int32 (prg_startAddress c) \<and> int32 (prg_count c) \<and> int32 (prg_periodMs c) \<and> 0 < prg_periodMs c
     \<and> 0 \<le> prg_priority c \<and> prg_priority c \<le> 3"

lemmas raw_access = at_def has_def getStr_def getStrOr_def getInt_def getIntOr_def getBool_def getBoolOr_def requireStr_def
  rejectUnknownKeys_def rejectWrongTypes_def rejectAt_def rangeValues_def rangeErrors_def

lemma pollRange_roundtrip:
  assumes "conv_exact cv" "pollRangeOk c" shows "parsePollRange cv (renderPollRange c) i = (c, [])"
proof -
  have "parsePriorityField cv (renderPollRange c) sec d q = (prg_priority c, [])" for sec d q
    using assms by (intro renderPriority_parses) (simp_all add: renderPollRange_def at_def pollRangeOk_def)
  then show ?thesis using assms by (simp add: parsePollRange_def renderPollRange_def raw_access conv_exact_def pollRangeOk_def Let_def)
qed

definition sinkWindowOk :: "SinkWindowConfig \<Rightarrow> bool" where
  "sinkWindowOk c \<longleftrightarrow> int32 (win_startAddress c) \<and> int32 (win_size c) \<and> 0 < win_size c \<and> int32 (win_debounceMs c) \<and> int32 (win_keepaliveMs c)
     \<and> 0 \<le> win_priority c \<and> win_priority c \<le> 3"

lemma sinkWindow_roundtrip:
  assumes "conv_exact cv" "sinkWindowOk c" shows "parseSinkWindow cv (renderSinkWindow c) i = (c, [])"
proof -
  have "parsePriorityField cv (renderSinkWindow c) sec d q = (win_priority c, [])" for sec d q
    using assms by (intro renderPriority_parses) (simp_all add: renderSinkWindow_def at_def sinkWindowOk_def)
  then show ?thesis using assms
    by (simp add: parseSinkWindow_def renderSinkWindow_def raw_access flushTable_def flushErrors_def conv_exact_def sinkWindowOk_def Let_def
        parseU16Array_nodes)
qed

definition heartbeatOk :: "HeartbeatSection \<Rightarrow> bool" where
  "heartbeatOk c \<longleftrightarrow> int32 (hbs_address c) \<and> hbs_values c \<noteq> [] \<and> int32 (hbs_periodMs c) \<and> 0 < hbs_periodMs c
     \<and> 0 \<le> hbs_priority c \<and> hbs_priority c \<le> 3"

lemma heartbeat_roundtrip:
  assumes "conv_exact cv" "heartbeatOk c" shows "parseHeartbeat cv (renderHeartbeat c) i = (c, [])"
proof -
  have "parsePriorityField cv (renderHeartbeat c) sec d q = (hbs_priority c, [])" for sec d q
    using assms by (intro renderPriority_parses) (simp_all add: renderHeartbeat_def at_def heartbeatOk_def)
  then show ?thesis using assms
    by (simp add: parseHeartbeat_def renderHeartbeat_def raw_access heartbeatValues_def conv_exact_def heartbeatOk_def Let_def parseU16Array_nodes)
qed

definition commandOk :: "CommandSection \<Rightarrow> bool" where
  "commandOk c \<longleftrightarrow> cms_writes c \<noteq> [] \<and> (\<forall>e \<in> set (cms_writes c). int32 (cwe_address e)) \<and> 0 \<le> cms_priority c \<and> cms_priority c \<le> 3"

lemma commandWrite_roundtrip:
  assumes "conv_exact cv" "int32 (cwe_address e)" shows "parseCommandWrite cv sec j (renderCommandWrite e) = (e, [])"
proof -
  have v: "uint (cwe_value e) < 2 ^ 16" using uint_lt2p [of "cwe_value e"] by simp
  moreover have "- 2147483648 \<le> uint (cwe_value e)" by (rule order_trans [OF _ uint_ge_0]) simp
  ultimately have "int32 (uint (cwe_value e))" by (simp add: int32_def int_min_def int_max_def)
  then show ?thesis using assms v by (simp add: parseCommandWrite_def renderCommandWrite_def raw_access conv_exact_def Let_def)
qed

lemma parseItems_roundtrip:
  assumes "\<And>x i. x \<in> set xs \<Longrightarrow> parseOne (render x) i = (x, [])"
  shows "parseItems itemSec parseOne (map (\<lambda>x. TTable (fst (render x)) (snd (render x))) xs) = (xs, [])"
proof -
  have "fst (parseItems itemSec parseOne (map (\<lambda>t. TTable (fst t) (snd t)) (map render xs))) = xs"
    unfolding parseItems_tables using assms by (intro nth_equalityI) (auto simp: nth_enumerate_eq)
  moreover have "snd (parseItems itemSec parseOne (map (\<lambda>t. TTable (fst t) (snd t)) (map render xs))) = []"
    using assms by (simp add: parseItems_def for_each_indexed_empty_iff)
  ultimately show ?thesis by (simp add: prod_eq_iff comp_def)
qed

lemma command_roundtrip:
  assumes "conv_exact cv" "commandOk c" shows "parseCommand cv (renderCommand c) i = (c, [])"
proof -
  have "parsePriorityField cv (renderCommand c) sec d q = (cms_priority c, [])" for sec d q
    using assms by (intro renderPriority_parses) (simp_all add: renderCommand_def at_def commandOk_def)
  moreover have "parseItems itemSec (\<lambda>wt wi. parseCommandWrite cv sec wi wt)
      (map (\<lambda>e. TTable (fst (renderCommandWrite e)) (snd (renderCommandWrite e))) (cms_writes c)) = (cms_writes c, [])" for itemSec sec
    using assms by (intro parseItems_roundtrip commandWrite_roundtrip) (simp_all add: commandOk_def)
  ultimately show ?thesis using assms
    by (simp add: parseCommand_def renderCommand_def raw_access conv_exact_def commandOk_def Let_def)
qed

lemma route_roundtrip:
  assumes "conv_exact cv" shows "parseRoute cv (renderRoute c) i = (c, [])"
  using assms by (simp add: parseRoute_def renderRoute_def raw_access conv_exact_def Let_def)

definition bridgeOk :: "BridgeConfig \<Rightarrow> bool" where
  "bridgeOk c \<longleftrightarrow> int32 (br_offset c) \<and> int32 (br_writeStart c) \<and> int32 (br_writeCount c) \<and> int32 (br_mirrorStart c)
     \<and> int32 (br_mirrorCount c) \<and> int32 (br_mirrorPeriodMs c)"

lemma bridge_roundtrip:
  assumes "conv_exact cv" "bridgeOk c" shows "parseBridge cv (renderBridge c) i = (c, [])"
  using assms
  by (cases "br_mirrorPolicy c") (simp_all add: parseBridge_def renderBridge_def raw_access conv_exact_def bridgeOk_def Let_def)

lemma parseArray_roundtrip:
  assumes "\<And>x i. x \<in> set xs \<Longrightarrow> parseOne (render x) i = (x, [])"
    and "at root key = Some (TArray l (map (\<lambda>x. TTable (fst (render x)) (snd (render x))) xs))"
  shows "parseArray root key parseOne = (xs, [])"
  using assms(2) by (simp add: parseArray_def parseItems_roundtrip [OF assms(1)])

lemma parseArray_absent: "at root key = None \<Longrightarrow> parseArray root key parseOne = ([], [])"
  by (simp add: parseArray_def)

abbreviation tables :: "qstring \<Rightarrow> ('a \<Rightarrow> TomlTable) \<Rightarrow> 'a list \<Rightarrow> qstring \<times> Toml" where
  "tables key render xs \<equiv> (key, TArray 0 (map (\<lambda>x. TTable (fst (render x)) (snd (render x))) xs))"

text \<open>The module sections of a schema as a document.\<close>

definition renderModules :: "ConfigSchema \<Rightarrow> TomlTable" where
  "renderModules s = (0, [tables ''bridge'' renderBridge (cs_bridges s), tables ''command'' renderCommand (cs_commands s),
     tables ''heartbeat'' renderHeartbeat (cs_heartbeats s), tables ''poll_range'' renderPollRange (cs_pollRanges s),
     tables ''route'' renderRoute (cs_routes s), tables ''sink_window'' renderSinkWindow (cs_sinkWindows s)])"

definition modulesOk :: "ConfigSchema \<Rightarrow> bool" where
  "modulesOk s \<longleftrightarrow> list_all pollRangeOk (cs_pollRanges s) \<and> list_all sinkWindowOk (cs_sinkWindows s) \<and> list_all heartbeatOk (cs_heartbeats s)
     \<and> list_all commandOk (cs_commands s) \<and> list_all bridgeOk (cs_bridges s)"

text \<open>The module sections survive a round trip: a schema whose poll ranges, sink windows,
  heartbeats, commands, routes and bridges hold values of the C++ types and satisfy the parser's own
  checks is what the parser reads, without an error, from the document that writes each field under
  its key.\<close>

theorem modules_roundtrip:
  assumes "conv_exact cv" "modulesOk s"
  shows "parseSchema fpu cv (renderModules s) = (emptySchema\<lparr>cs_pollRanges := cs_pollRanges s, cs_sinkWindows := cs_sinkWindows s,
    cs_heartbeats := cs_heartbeats s, cs_commands := cs_commands s, cs_routes := cs_routes s, cs_bridges := cs_bridges s\<rparr>, [])"
proof -
  let ?r = "renderModules s"
  have "parseArray ?r ''poll_range'' (parsePollRange cv) = (cs_pollRanges s, [])"
    "parseArray ?r ''sink_window'' (parseSinkWindow cv) = (cs_sinkWindows s, [])"
    "parseArray ?r ''heartbeat'' (parseHeartbeat cv) = (cs_heartbeats s, [])"
    "parseArray ?r ''command'' (parseCommand cv) = (cs_commands s, [])"
    "parseArray ?r ''route'' (parseRoute cv) = (cs_routes s, [])"
    "parseArray ?r ''bridge'' (parseBridge cv) = (cs_bridges s, [])"
    using assms by (auto simp: renderModules_def at_def modulesOk_def list_all_iff
        intro!: parseArray_roundtrip pollRange_roundtrip sinkWindow_roundtrip heartbeat_roundtrip command_roundtrip route_roundtrip bridge_roundtrip)
  moreover have "rejectUnknownKeys ?r ''root'' rootKeys = []"
    by (auto simp: rejectUnknownKeys_iff renderModules_def rootKeys_def)
  moreover have "at ?r k = None"
    if "k \<in> {''meta'', ''transport'', ''codec'', ''ack_watch'', ''datapoint'', ''plugin''}" for k
    using that by (auto simp: renderModules_def at_def)
  ultimately show ?thesis by (simp add: parseSchema_def parseMeta_def parseArray_absent emptySchema_def Let_def)
qed

theorem modules_roundtrip_witness:
  "modulesOk demoSchema \<and> cs_bridges (fst (parseSchema demoFpu strictConv (renderModules demoSchema))) = cs_bridges demoSchema"
proof -
  have "modulesOk demoSchema"
    by (simp add: modulesOk_def demo_unfolds pollRangeOk_def sinkWindowOk_def heartbeatOk_def commandOk_def bridgeOk_def int32_def int_min_def int_max_def)
  then show ?thesis using modules_roundtrip [OF strictConv_exact, of demoSchema demoFpu] by simp
qed

end
