(* ===== verification/Transport_Config.thy ===== *)
theory Transport_Config
  imports Config_Schema "HOL-Library.Char_ord" "HOL-Library.List_Lexorder"
begin

text \<open>
  The configurations \<open>buildTransports\<close> of \<open>src/Core.cpp\<close> hands to the transport classes, one record
  per class, and the transport map itself.  A transport object is known here by its configuration.
\<close>

datatype Parity = ParityNone | ParityEven | ParityOdd

record ModbusTcpClientConfig =
  mtc_id :: qstring
  mtc_host :: qstring
  mtc_port :: u16
  mtc_slaveId :: int
  mtc_connectTimeoutMs :: int
  mtc_requestTimeoutMs :: int
  mtc_reconnectIntervalMs :: int
  mtc_scheduler :: SchedulerConfig

record ModbusTcpServerConfig =
  mts_id :: qstring
  mts_listenAddress :: qstring
  mts_listenPort :: u16
  mts_slaveId :: int
  mts_connectTimeoutMs :: int
  mts_reconnectIntervalMs :: int
  mts_listenRanges :: "WatchRange list"
  mts_scheduler :: SchedulerConfig

record ModbusRtuConfig =
  rtu_id :: qstring
  rtu_portName :: qstring
  rtu_baudRate :: int
  rtu_dataBits :: int
  rtu_stopBits :: int
  rtu_parity :: Parity
  rtu_slaveId :: int
  rtu_connectTimeoutMs :: int
  rtu_requestTimeoutMs :: int
  rtu_reconnectIntervalMs :: int
  rtu_scheduler :: SchedulerConfig

record OpcUaClientConfig =
  opc_id :: qstring
  opc_endpointUrl :: qstring
  opc_securityPolicy :: qstring
  opc_username :: qstring
  opc_password :: qstring
  opc_backend :: qstring
  opc_nodeIdTemplate :: qstring
  opc_connectTimeoutMs :: int
  opc_requestTimeoutMs :: int
  opc_reconnectIntervalMs :: int
  opc_scheduler :: SchedulerConfig

record MqttClientConfig =
  mqc_id :: qstring
  mqc_brokerUri :: qstring
  mqc_clientId :: qstring
  mqc_username :: qstring
  mqc_password :: qstring
  mqc_topicPrefix :: qstring
  mqc_topicTemplate :: qstring
  mqc_qos :: int
  mqc_cleanSession :: bool
  mqc_connectTimeoutMs :: int
  mqc_reconnectIntervalMs :: int
  mqc_scheduler :: SchedulerConfig

record MqttPahoConfig =
  mqp_id :: qstring
  mqp_brokerUri :: qstring
  mqp_clientId :: qstring
  mqp_username :: qstring
  mqp_password :: qstring
  mqp_topicPrefix :: qstring
  mqp_topicTemplate :: qstring
  mqp_qos :: int
  mqp_cleanSession :: bool
  mqp_connectTimeoutMs :: int
  mqp_requestTimeoutMs :: int
  mqp_reconnectIntervalMs :: int
  mqp_scheduler :: SchedulerConfig

record S7ClientConfig =
  s7c_id :: qstring
  s7c_host :: qstring
  s7c_port :: int
  s7c_rack :: int
  s7c_slot :: int
  s7c_connectTimeoutMs :: int
  s7c_requestTimeoutMs :: int
  s7c_reconnectIntervalMs :: int
  s7c_scheduler :: SchedulerConfig

datatype Transport = ModbusTcpClientTransport ModbusTcpClientConfig
  | ModbusTcpServerTransport ModbusTcpServerConfig
  | ModbusRtuTransport ModbusRtuConfig
  | OpcUaClientTransport OpcUaClientConfig
  | MqttClientTransport MqttClientConfig
  | MqttPahoClientTransport MqttPahoConfig
  | S7ClientTransport S7ClientConfig

definition modbusTcpClientConfigOf :: "TransportConfig \<Rightarrow> ModbusTcpClientConfig" where
  "modbusTcpClientConfigOf tc = \<lparr>mtc_id = tp_id tc, mtc_host = tp_host tc, mtc_port = word_of_int (tp_port tc), mtc_slaveId = tp_slaveId tc,
     mtc_connectTimeoutMs = tp_connectTimeoutMs tc, mtc_requestTimeoutMs = tp_requestTimeoutMs tc,
     mtc_reconnectIntervalMs = tp_reconnectIntervalMs tc, mtc_scheduler = tp_scheduler tc\<rparr>"

definition modbusTcpServerConfigOf :: "TransportConfig \<Rightarrow> ModbusTcpServerConfig" where
  "modbusTcpServerConfigOf tc = \<lparr>mts_id = tp_id tc, mts_listenAddress = tp_listenAddress tc, mts_listenPort = word_of_int (tp_listenPort tc),
     mts_slaveId = tp_slaveId tc, mts_connectTimeoutMs = tp_connectTimeoutMs tc, mts_reconnectIntervalMs = tp_reconnectIntervalMs tc,
     mts_listenRanges = tp_listenRanges tc, mts_scheduler = tp_scheduler tc\<rparr>"

definition modbusRtuConfigOf :: "TransportConfig \<Rightarrow> ModbusRtuConfig" where
  "modbusRtuConfigOf tc = \<lparr>rtu_id = tp_id tc, rtu_portName = tp_portName tc, rtu_baudRate = tp_baudRate tc, rtu_dataBits = tp_dataBits tc,
     rtu_stopBits = tp_stopBits tc,
     rtu_parity = (if tp_parity tc = ''even'' then ParityEven else if tp_parity tc = ''odd'' then ParityOdd else ParityNone),
     rtu_slaveId = tp_slaveId tc, rtu_connectTimeoutMs = tp_connectTimeoutMs tc, rtu_requestTimeoutMs = tp_requestTimeoutMs tc,
     rtu_reconnectIntervalMs = tp_reconnectIntervalMs tc, rtu_scheduler = tp_scheduler tc\<rparr>"

definition opcUaClientConfigOf :: "TransportConfig \<Rightarrow> OpcUaClientConfig" where
  "opcUaClientConfigOf tc = \<lparr>opc_id = tp_id tc, opc_endpointUrl = tp_endpointUrl tc, opc_securityPolicy = tp_securityPolicy tc, opc_username = tp_username tc,
     opc_password = tp_password tc, opc_backend = tp_opcuaBackend tc, opc_nodeIdTemplate = tp_nodeIdTemplate tc,
     opc_connectTimeoutMs = tp_connectTimeoutMs tc, opc_requestTimeoutMs = tp_requestTimeoutMs tc,
     opc_reconnectIntervalMs = tp_reconnectIntervalMs tc, opc_scheduler = tp_scheduler tc\<rparr>"

definition mqttClientConfigOf :: "TransportConfig \<Rightarrow> MqttClientConfig" where
  "mqttClientConfigOf tc = \<lparr>mqc_id = tp_id tc, mqc_brokerUri = tp_brokerUri tc, mqc_clientId = tp_clientId tc, mqc_username = tp_username tc,
     mqc_password = tp_password tc, mqc_topicPrefix = tp_topicPrefix tc, mqc_topicTemplate = tp_topicTemplate tc, mqc_qos = tp_qos tc,
     mqc_cleanSession = tp_cleanSession tc, mqc_connectTimeoutMs = tp_connectTimeoutMs tc,
     mqc_reconnectIntervalMs = tp_reconnectIntervalMs tc, mqc_scheduler = tp_scheduler tc\<rparr>"

definition mqttPahoConfigOf :: "TransportConfig \<Rightarrow> MqttPahoConfig" where
  "mqttPahoConfigOf tc = \<lparr>mqp_id = tp_id tc, mqp_brokerUri = tp_brokerUri tc, mqp_clientId = tp_clientId tc, mqp_username = tp_username tc,
     mqp_password = tp_password tc, mqp_topicPrefix = tp_topicPrefix tc, mqp_topicTemplate = tp_topicTemplate tc, mqp_qos = tp_qos tc,
     mqp_cleanSession = tp_cleanSession tc, mqp_connectTimeoutMs = tp_connectTimeoutMs tc,
     mqp_requestTimeoutMs = tp_requestTimeoutMs tc, mqp_reconnectIntervalMs = tp_reconnectIntervalMs tc,
     mqp_scheduler = tp_scheduler tc\<rparr>"

definition s7ClientConfigOf :: "TransportConfig \<Rightarrow> S7ClientConfig" where
  "s7ClientConfigOf tc = \<lparr>s7c_id = tp_id tc, s7c_host = tp_host tc, s7c_port = tp_port tc, s7c_rack = tp_rack tc, s7c_slot = tp_slot tc,
     s7c_connectTimeoutMs = tp_connectTimeoutMs tc, s7c_requestTimeoutMs = tp_requestTimeoutMs tc,
     s7c_reconnectIntervalMs = tp_reconnectIntervalMs tc, s7c_scheduler = tp_scheduler tc\<rparr>"

definition makeTransport :: "TransportConfig \<Rightarrow> Transport" where
  "makeTransport tc = (case tp_kind tc of ModbusTcpClient \<Rightarrow> ModbusTcpClientTransport (modbusTcpClientConfigOf tc)
     | ModbusTcpServer \<Rightarrow> ModbusTcpServerTransport (modbusTcpServerConfigOf tc)
     | ModbusRtu \<Rightarrow> ModbusRtuTransport (modbusRtuConfigOf tc)
     | OpcUaClient \<Rightarrow> OpcUaClientTransport (opcUaClientConfigOf tc)
     | MqttClient \<Rightarrow> MqttClientTransport (mqttClientConfigOf tc)
     | MqttPahoClient \<Rightarrow> MqttPahoClientTransport (mqttPahoConfigOf tc)
     | S7Client \<Rightarrow> S7ClientTransport (s7ClientConfigOf tc))"

text \<open>\<open>std::map::emplace\<close> in a list sorted by id: a taken id keeps its first transport.\<close>

definition buildTransports :: "TransportConfig list \<Rightarrow> (qstring \<times> Transport) list \<Rightarrow> (qstring \<times> Transport) list" where
  "buildTransports tcs m = fold (\<lambda>tc m. if map_of m (tp_id tc) \<noteq> None then m else insort_key fst (tp_id tc, makeTransport tc) m) tcs m"

end
