(* ===== verification/Plugin_System.thy ===== *)
theory Plugin_System
  imports Datapoints
begin

text \<open>
  The plugin system (\<open>src/PluginSystem.cpp\<close>): the registry of loaded libraries and the registry of
  ports.  What a shared library does is an argument of the model: \<open>LibOutcome\<close> is the answer of
  \<open>QLibrary\<close> and of the exported \<open>corePluginCreate\<close>, and \<open>Plugin\<close> holds the answers of the three
  virtual functions a plugin implements.  A port callback is a handle; calls are returned as lists.
\<close>

datatype Exception = StdException qstring | UnknownException

text \<open>
  \<open>plug_registerPorts\<close>: the \<open>bindIn\<close> calls in order and the exception that ended the function, if
  any.  \<open>plug_onInitialized\<close>: the values sent through out ports and the exception.
\<close>

record Plugin =
  plug_name :: "Exception + qstring"
  plug_registerPorts :: "(qstring \<times> nat) list \<times> Exception option"
  plug_onInitialized :: "(qstring \<times> QVariant) list \<times> Exception option"

datatype LibOutcome = LoadFails qstring | MissingExport qstring | CreateThrows Exception | CreateNull | Created Plugin

subsection \<open>\<open>PluginRegistry\<close>\<close>

record PluginRegistry =
  plr_loaded :: "(qstring \<times> Plugin) list"
  plr_lastError :: qstring

definition pluginRegistry :: PluginRegistry where
  "pluginRegistry = \<lparr>plr_loaded = [], plr_lastError = []\<rparr>"

definition loadError :: "LibOutcome \<Rightarrow> qstring" where
  "loadError out =
     (case out of LoadFails e \<Rightarrow> e
      | MissingExport e \<Rightarrow> qarg ''missing corePluginCreate export: %1'' e
      | CreateThrows (StdException e) \<Rightarrow> qarg ''corePluginCreate threw: %1'' e
      | CreateThrows UnknownException \<Rightarrow> ''corePluginCreate threw an unknown exception''
      | CreateNull \<Rightarrow> ''corePluginCreate returned null''
      | Created p \<Rightarrow> [])"

definition loadPlugin :: "(qstring \<Rightarrow> LibOutcome) \<Rightarrow> qstring \<Rightarrow> PluginRegistry \<Rightarrow> bool \<times> PluginRegistry" where
  "loadPlugin lib dllPath reg =
     (let reg = reg\<lparr>plr_lastError := loadError (lib dllPath)\<rparr>
      in case lib dllPath of
           Created p \<Rightarrow> (True, reg\<lparr>plr_loaded := plr_loaded reg @ [(dllPath, p)]\<rparr>)
         | _ \<Rightarrow> (False, reg))"

text \<open>\<open>unloadAll\<close> returns the libraries in the order their plugins are destroyed.\<close>

definition unloadAll :: "PluginRegistry \<Rightarrow> qstring list \<times> PluginRegistry" where
  "unloadAll reg = (map fst (rev (plr_loaded reg)), reg\<lparr>plr_loaded := []\<rparr>)"

definition allPlugins :: "PluginRegistry \<Rightarrow> Plugin list" where
  "allPlugins reg = map snd (plr_loaded reg)"

subsection \<open>\<open>PortRegistry\<close>\<close>

text \<open>\<open>std::multimap\<close> keeps the values of one key in the order of their insertion.\<close>

record PortRegistry =
  prt_handlers :: "(qstring \<times> nat) list"

definition portRegistry :: PortRegistry where
  "portRegistry = \<lparr>prt_handlers = []\<rparr>"

definition bindInErased :: "qstring \<Rightarrow> nat \<Rightarrow> PortRegistry \<Rightarrow> PortRegistry" where
  "bindInErased dpId deliver reg = reg\<lparr>prt_handlers := prt_handlers reg @ [(dpId, deliver)]\<rparr>"

definition handlersFor :: "PortRegistry \<Rightarrow> qstring \<Rightarrow> nat list" where
  "handlersFor reg i = map snd (filter (\<lambda>(k, h). k = i) (prt_handlers reg))"

fun runCallbacks :: "(nat \<Rightarrow> QVariant \<Rightarrow> Exception option) \<Rightarrow> QVariant \<Rightarrow> nat list \<Rightarrow> Exception option
    \<Rightarrow> (nat \<times> QVariant) list \<times> Exception option" where
  "runCallbacks call v [] firstFailure = ([], firstFailure)"
| "runCallbacks call v (h # hs) firstFailure =
     (let (calls, out) = runCallbacks call v hs (if firstFailure = None then call h v else firstFailure)
      in ((h, v) # calls, out))"

text \<open>The subscriber of \<open>DpChanged\<close>: the calls it makes and the exception it rethrows.\<close>

definition deliverChange :: "(nat \<Rightarrow> QVariant \<Rightarrow> Exception option) \<Rightarrow> qstring \<Rightarrow> QVariant \<Rightarrow> PortRegistry
    \<Rightarrow> (nat \<times> QVariant) list \<times> Exception option" where
  "deliverChange call i v reg = runCallbacks call v (handlersFor reg i) None"

definition writeErased :: "DpStore \<Rightarrow> DatapointRegistry \<Rightarrow> qstring \<Rightarrow> QVariant \<Rightarrow> (nat \<times> QVariant) option" where
  "writeErased store dps dpId v = (case findDp dps dpId of None \<Rightarrow> None | Some h \<Rightarrow> writeDatapoint v (store h))"

text \<open>\<open>registerAllPorts\<close>: an exception of one plugin leaves the later ones unregistered.\<close>

fun registerAllPorts :: "Plugin list \<Rightarrow> PortRegistry \<Rightarrow> Exception option \<times> PortRegistry" where
  "registerAllPorts [] reg = (None, reg)"
| "registerAllPorts (p # ps) reg =
     (let (binds, exn) = plug_registerPorts p; reg = fold (\<lambda>(i, h). bindInErased i h) binds reg
      in if exn = None then registerAllPorts ps reg else (exn, reg))"

subsection \<open>Isolation of port callbacks\<close>

lemma runCallbacks_calls [simp]: "fst (runCallbacks call v hs e) = map (\<lambda>h. (h, v)) hs"
  by (induction hs arbitrary: e) (simp_all add: case_prod_beta)

lemma runCallbacks_failure:
  "snd (runCallbacks call v hs e) =
     (if e \<noteq> None then e else case find (\<lambda>h. call h v \<noteq> None) hs of None \<Rightarrow> None | Some h \<Rightarrow> call h v)"
  by (induction hs arbitrary: e) (auto simp: case_prod_beta)

lemma fold_bind_handlers: "prt_handlers (fold (\<lambda>(i, h). bindInErased i h) bs reg) = prt_handlers reg @ bs"
  by (induction bs arbitrary: reg) (auto simp: bindInErased_def)

lemma registerAllPorts_handlers:
  "fst (registerAllPorts ps reg) = None
     \<Longrightarrow> prt_handlers (snd (registerAllPorts ps reg)) = prt_handlers reg @ concat (map (fst \<circ> plug_registerPorts) ps)"
  by (induction ps arbitrary: reg) (auto simp: case_prod_beta fold_bind_handlers Let_def split: if_splits)

text \<open>A failing plugin does not silence the others.  Once every plugin has registered its ports
  without an exception, a change of a datapoint calls every in port bound to it by any plugin,
  exactly once each and in the order of loading and binding, whichever of the callbacks throw; the
  subscriber rethrows the exception of the first one that failed, and returns normally exactly when
  none failed.\<close>

theorem plugin_delivery_isolated:
  assumes "fst (registerAllPorts ps portRegistry) = None"
  shows "fst (deliverChange call i v (snd (registerAllPorts ps portRegistry)))
           = [(h, v). p \<leftarrow> ps, (k, h) \<leftarrow> fst (plug_registerPorts p), k = i]
     \<and> (case snd (deliverChange call i v (snd (registerAllPorts ps portRegistry))) of
          None \<Rightarrow> (\<forall>p \<in> set ps. \<forall>h. (i, h) \<in> set (fst (plug_registerPorts p)) \<longrightarrow> call h v = None)
        | Some e \<Rightarrow> (\<exists>p \<in> set ps. \<exists>h. (i, h) \<in> set (fst (plug_registerPorts p)) \<and> call h v = Some e))"
proof -
  define bs where "bs = concat (map (fst \<circ> plug_registerPorts) ps)"
  have hs: "handlersFor (snd (registerAllPorts ps portRegistry)) i = map snd (filter (\<lambda>(k, h). k = i) bs)"
    using registerAllPorts_handlers[OF assms] by (simp add: handlersFor_def portRegistry_def bs_def)
  have calls: "map ((\<lambda>h. (h, v)) \<circ> snd) (filter (\<lambda>(k, h). k = i) bs)
      = [(h, v). p \<leftarrow> ps, (k, h) \<leftarrow> fst (plug_registerPorts p), k = i]"
  proof -
    have one: "map (\<lambda>a. (snd a, v)) (filter (\<lambda>(k, h). k = i) xs) = [(h, v). (k, h) \<leftarrow> xs, k = i]" for xs
      by (induction xs) auto
    show ?thesis unfolding bs_def by (induction ps) (simp_all add: one comp_def)
  qed
  have members: "(i, h) \<in> set bs \<longleftrightarrow> (\<exists>p \<in> set ps. (i, h) \<in> set (fst (plug_registerPorts p)))" for h
    by (auto simp: bs_def)
  have found: "h \<in> set (map snd (filter (\<lambda>(k, h). k = i) bs)) \<longleftrightarrow> (i, h) \<in> set bs" for h
    by force
  show ?thesis
  proof (intro conjI, goal_cases)
    case 1 show ?case using calls by (simp add: deliverChange_def hs)
  next
    case 2 show ?case
    proof (cases "find (\<lambda>h. call h v \<noteq> None) (map snd (filter (\<lambda>(k, h). k = i) bs))")
      case None
      then have "\<forall>h. (i, h) \<in> set bs \<longrightarrow> call h v = None" unfolding find_None_iff using found by blast
      then show ?thesis using None members by (auto simp: deliverChange_def hs runCallbacks_failure)
    next
      case (Some h)
      then have h: "call h v \<noteq> None" "h \<in> set (map snd (filter (\<lambda>(k, h). k = i) bs))"
        by (auto simp: find_Some_iff in_set_conv_nth simp del: set_map set_filter)
      then obtain e where e: "call h v = Some e" by auto
      have out: "snd (deliverChange call i v (snd (registerAllPorts ps portRegistry))) = Some e"
        using Some e by (simp add: deliverChange_def hs runCallbacks_failure)
      show ?thesis using h(2) e members found by (auto simp only: out option.case)
    qed
  qed
qed

definition demoPlugins :: "Plugin list" where
  "demoPlugins = [\<lparr>plug_name = Inr ''a'', plug_registerPorts = ([(''dp'', 1), (''other'', 2)], None), plug_onInitialized = ([], None)\<rparr>,
     \<lparr>plug_name = Inr ''b'', plug_registerPorts = ([(''dp'', 3)], None), plug_onInitialized = ([], None)\<rparr>]"

theorem plugin_delivery_isolated_witness:
  "fst (deliverChange (\<lambda>h v. if h = 1 then Some UnknownException else None) ''dp'' (QU16 7)
     (snd (registerAllPorts demoPlugins portRegistry))) = [(1, QU16 7), (3, QU16 7)]"
proof -
  have "fst (registerAllPorts demoPlugins portRegistry) = None" by code_simp
  from plugin_delivery_isolated[OF this, of "\<lambda>h v. if h = 1 then Some UnknownException else None" "''dp''" "QU16 7"]
  show ?thesis by (simp add: demoPlugins_def)
qed

end
