(* ===== verification/Core_Build.thy ===== *)
theory Core_Build
  imports Config_Validate Transport_Config Plugin_System Sink_Window Poll_Range Heartbeat_Command Module_Registry
begin

text \<open>
  Building the runtime graph from a schema (\<open>wireFromSchema\<close> and the \<open>build\<close> functions of
  \<open>src/Core.cpp\<close>).  \<open>Runtime\<close> holds what the C++ class \<open>CoreImpl\<close> owns: transports by id, the
  codec, module and plugin registries, the sink windows and poll ranges in the order of their raw
  pointer vectors, the datapoint objects with their registry and writers, server routes and
  bridges.  An exception is \<open>Inl\<close>.  Signals of datapoints are appended to a list.

  The environment \<open>CoreEnv\<close> holds what is outside: floating point, Qt's variants, scripted codecs
  (loading one gives an error text or \<open>None\<close>), file paths, shared libraries, and the two clocks,
  which stand still during one operation.
\<close>

record CoreEnv =
  env_fpu :: Fpu
  env_qt :: QtVariant
  env_toUInt :: "qstring \<Rightarrow> u32 option"
  env_decodeScript :: "qstring \<Rightarrow> u16 list \<Rightarrow> PortRef \<Rightarrow> QVariant option"
  env_encodeScript :: "qstring \<Rightarrow> QVariant \<Rightarrow> PortRef \<Rightarrow> u16 list option"
  env_luaLoad :: "qstring \<Rightarrow> qstring \<Rightarrow> qstring \<Rightarrow> qstring option"
  env_isRelative :: "qstring \<Rightarrow> bool"
  env_filePath :: "qstring \<Rightarrow> qstring \<Rightarrow> qstring"
  env_lib :: "qstring \<Rightarrow> LibOutcome"
  env_steadyNow :: time_ns
  env_dateTime :: int

subsection \<open>Conversions\<close>

definition tableFromString :: "qstring \<Rightarrow> RegisterType" where
  "tableFromString s = (case map_of [(''HR'', HoldingRegisters), (''HoldingRegisters'', HoldingRegisters), (''IR'', InputRegisters),
     (''InputRegisters'', InputRegisters), (''Coil'', Coils), (''Coils'', Coils), (''DI'', DiscreteInputs), (''DiscreteInputs'', DiscreteInputs)] s
     of Some t \<Rightarrow> t | None \<Rightarrow> HoldingRegisters)"

definition wordOrderFromString :: "qstring \<Rightarrow> WordOrder" where
  "wordOrderFromString s = (if s = ''CDAB'' then CDAB else if s = ''BADC'' then BADC else if s = ''DCBA'' then DCBA else ABCD)"

definition kindFromString :: "qstring \<Rightarrow> Kind" where
  "kindFromString s = (if s = ''Command'' then Command else if s = ''Bidirectional'' then Bidirectional else Status)"

definition stageMaskFor :: "PortRef \<Rightarrow> nat \<Rightarrow> nat \<Rightarrow> u16" where
  "stageMaskFor ref word wordCount =
     (if wordCount \<noteq> 1 \<or> word \<noteq> 0 then 0xFFFF
      else case ref_bit ref of Some b \<Rightarrow> ucast (push_bit (nat b) (1 :: u32))
           | None \<Rightarrow> ucast (push_bit (nat (ref_shift ref)) (ref_mask ref) AND 0xFFFF))"

definition makePortRef :: "PortRefConfig \<Rightarrow> Codec option \<Rightarrow> PortRef" where
  "makePortRef pc codec = \<lparr>ref_transport = pf_port pc, ref_table = tableFromString (pf_table pc), ref_address = pf_address pc,
     ref_bit = (if 0 \<le> pf_bit pc then Some (pf_bit pc) else None), ref_wordOrder = wordOrderFromString (pf_wordOrder pc),
     ref_shift = pf_shift pc, ref_mask = pf_mask pc, ref_scale = pf_scale pc, ref_offset = pf_offset pc,
     ref_codec = map_option codecId codec, ref_window = pf_window pc\<rparr>"

text \<open>Virtual dispatch of \<open>encode\<close>; \<open>None\<close> is an exception of a scripted codec.\<close>

definition codecEncode :: "CoreEnv \<Rightarrow> Codec \<Rightarrow> QVariant \<Rightarrow> PortRef \<Rightarrow> u16 list option" where
  "codecEncode env c v ref =
     (case c of ScalarCodec t \<Rightarrow> Some (scalarEncode (env_fpu env) (env_qt env) t v ref)
      | EnumerationCodec e \<Rightarrow> Some (enumEncode (env_qt env) e v ref)
      | ExternalCodec i \<Rightarrow> env_encodeScript env i v ref)"

definition coreDecode :: "CoreEnv \<Rightarrow> Codec \<Rightarrow> u16 list \<Rightarrow> PortRef \<Rightarrow> QVariant option" where
  "coreDecode env = codecDecode (env_fpu env) (env_decodeScript env)"

subsection \<open>The runtime graph\<close>

record ServerRouteBinding =
  rb_source :: PortRef
  rb_sourceCodec :: Codec
  rb_count :: nat
  rb_sourceDp :: nat
  rb_targetDp :: nat
  rb_target :: nat
  rb_sink :: PortRef
  rb_sinkCodec :: Codec

record BridgeMirrorState =
  bm_values :: "u16 list"
  bm_version :: u64
  bm_inFlight :: bool
  bm_lastSubmittedAt :: time_ns

record Runtime =
  run_transports :: "(qstring \<times> Transport) list"
  run_codecs :: CodecRegistry
  run_modules :: ModuleRegistry
  run_plugins :: PluginRegistry
  run_ports :: "PortRegistry option"
  run_sinks :: "(qstring \<times> SinkWindow) list"
  run_polls :: "PollRange list"
  run_heartbeats :: "(qstring \<times> Heartbeat) list"
  run_commands :: "(qstring \<times> CommandConfig) list"
  run_store :: DpStore
  run_dpCount :: nat
  run_dps :: DatapointRegistry
  run_writers :: "(nat \<times> qstring) list"
  run_signals :: "(nat \<times> DpSignal) list"
  run_routes :: "qstring \<Rightarrow> ServerRouteBinding list"
  run_bridges :: "BridgeConfig list"
  run_mirrors :: "BridgeMirrorState list"
  run_fwdSinks :: "nat option list"
  run_forward :: "qstring \<rightharpoonup> bool"

text \<open>\<open>initializeRuntimeGraph\<close>, with the fields \<open>destroyRuntimeGraph\<close> cleared.\<close>

definition initialRuntime :: Runtime where
  "initialRuntime = \<lparr>run_transports = [], run_codecs = loadBuiltins Map.empty, run_modules = moduleRegistry, run_plugins = pluginRegistry,
     run_ports = None, run_sinks = [], run_polls = [], run_heartbeats = [], run_commands = [], run_store = (\<lambda>_. newDatapoint defaultSpec),
     run_dpCount = 0, run_dps = [], run_writers = [], run_signals = [], run_routes = (\<lambda>_. []), run_bridges = [], run_mirrors = [],
     run_fwdSinks = [], run_forward = Map.empty\<rparr>"

fun foldE :: "('a \<Rightarrow> 's \<Rightarrow> 'e + 's) \<Rightarrow> 'a list \<Rightarrow> 's \<Rightarrow> 'e + 's" where
  "foldE f [] s = Inr s"
| "foldE f (x # xs) s = (case f x s of Inl e \<Rightarrow> Inl e | Inr s' \<Rightarrow> foldE f xs s')"

definition hasTransport :: "Runtime \<Rightarrow> qstring \<Rightarrow> bool" where
  "hasTransport r i = (map_of (run_transports r) i \<noteq> None)"

definition registerOrThrow :: "FunctionalModule \<Rightarrow> Runtime \<Rightarrow> Exception + Runtime" where
  "registerOrThrow m r =
     (let (ok, ms) = registerModule (Some m) (run_modules r) in
      if ok then Inr (r\<lparr>run_modules := ms\<rparr>)
      else Inl (StdException (qarg (''failed to register duplicate/invalid module '%1'' @ apos) (fm_id m))))"

definition moduleView :: "qstring \<Rightarrow> qstring \<Rightarrow> int \<Rightarrow> FunctionalModule" where
  "moduleView i tr period = \<lparr>fm_id = i, fm_transportId = tr, fm_tickPeriodMs = period, fm_calls = []\<rparr>"

subsection \<open>Codecs\<close>

text \<open>\<open>unordered_map::emplace\<close> keeps the first name of a raw value.\<close>

definition enumForward :: "CoreEnv \<Rightarrow> CodecConfig \<Rightarrow> (u16 \<times> qstring) list" where
  "enumForward env cc = fold (\<lambda>(key, v) m. case env_toUInt env key of None \<Rightarrow> m
     | Some raw \<Rightarrow> if 65535 < raw \<or> map_of m (ucast raw) \<noteq> None then m else m @ [(ucast raw, qt_toString (env_qt env) v)]) (cdc_map cc) []"

definition underDir :: "CoreEnv \<Rightarrow> qstring \<Rightarrow> qstring \<Rightarrow> qstring" where
  "underDir env dir path = (if env_isRelative env path \<and> dir \<noteq> [] then env_filePath env dir path else path)"

definition registerCustomCodec :: "CoreEnv \<Rightarrow> qstring \<Rightarrow> nat \<times> CodecConfig \<Rightarrow> CodecRegistry \<times> ValidationError list \<Rightarrow> CodecRegistry \<times> ValidationError list" where
  "registerCustomCodec env dir ic st =
     (let (i, cc) = ic; (reg, errs) = st in
      if cdc_kind cc = ''enum_u16'' then (registerCodec (Some (EnumerationCodec (enumU16Codec (cdc_id cc) (enumForward env cc)))) reg, errs)
      else if cdc_kind cc = ''lua''
      then (case env_luaLoad env (cdc_id cc) (underDir env dir (cdc_script cc)) (cdc_arg cc) of
              None \<Rightarrow> (registerCodec (Some (ExternalCodec (cdc_id cc))) reg, errs)
            | Some err \<Rightarrow> (reg, errs @ rejectIf True (qsection ''codec[%1]'' i) ''script'' (if err = [] then ''lua codec load failed'' else err)))
      else (reg, errs))"

definition registerCustomCodecs :: "CoreEnv \<Rightarrow> qstring \<Rightarrow> ConfigSchema \<Rightarrow> CodecRegistry \<Rightarrow> CodecRegistry \<times> ValidationError list" where
  "registerCustomCodecs env dir s reg = fold (registerCustomCodec env dir) (enumerate 0 (cs_codecs s)) (reg, [])"

subsection \<open>Modules\<close>

definition pushSink :: "qstring \<Rightarrow> SinkConfig \<Rightarrow> Runtime \<Rightarrow> Exception + Runtime" where
  "pushSink tr conf r =
     (let w = sinkWindow conf in
      case registerOrThrow (moduleView (swc_moduleId conf) tr (sinkTickPeriodMs w)) r of
        Inl e \<Rightarrow> Inl e | Inr r \<Rightarrow> Inr (r\<lparr>run_sinks := run_sinks r @ [(tr, w)]\<rparr>))"

definition sinkConfigOf :: "SinkWindowConfig \<Rightarrow> SinkConfig" where
  "sinkConfigOf sc = \<lparr>swc_moduleId = win_moduleId sc, swc_table = tableFromString (win_table sc), swc_startAddress = win_startAddress sc,
     swc_size = win_size sc, swc_priority = win_priority sc, swc_debounceMs = win_debounceMs sc, swc_keepAlivePeriodMs = win_keepaliveMs sc,
     swc_initial = win_initial sc\<rparr>"

definition buildSinkWindow :: "SinkWindowConfig \<Rightarrow> Runtime \<Rightarrow> Exception + Runtime" where
  "buildSinkWindow sc r = (if \<not> hasTransport r (win_transport sc) then Inr r else pushSink (win_transport sc) (sinkConfigOf sc) r)"

definition buildHeartbeat :: "HeartbeatSection \<Rightarrow> Runtime \<Rightarrow> Exception + Runtime" where
  "buildHeartbeat hc r =
     (if \<not> hasTransport r (hbs_transport hc) then Inr r
      else let h = heartbeat \<lparr>hbc_moduleId = hbs_moduleId hc, hbc_table = tableFromString (hbs_table hc), hbc_address = hbs_address hc,
                 hbc_values = hbs_values hc, hbc_periodMs = hbs_periodMs hc, hbc_priority = hbs_priority hc\<rparr>
           in case registerOrThrow (moduleView (hbs_moduleId hc) (hbs_transport hc) (hbs_periodMs hc)) r of
                Inl e \<Rightarrow> Inl e | Inr r \<Rightarrow> Inr (r\<lparr>run_heartbeats := run_heartbeats r @ [(hbs_transport hc, h)]\<rparr>))"

definition buildAckWatch :: "AckWatchConfig \<Rightarrow> Runtime \<Rightarrow> Exception + Runtime" where
  "buildAckWatch ac r = registerOrThrow (moduleView (aw_moduleId ac) [] 0) r"

definition buildCommand :: "CommandSection \<Rightarrow> Runtime \<Rightarrow> Exception + Runtime" where
  "buildCommand cc r =
     (if \<not> hasTransport r (cms_transport cc) then Inr r
      else let c = \<lparr>cmd_moduleId = cms_moduleId cc, cmd_priority = cms_priority cc, cmd_interruptable = cms_interruptable cc,
                 cmd_writes = map (\<lambda>w. \<lparr>ce_table = tableFromString (cwe_table w), ce_address = cwe_address w, ce_value = cwe_value w\<rparr>) (cms_writes cc)\<rparr>
           in case registerOrThrow (moduleView (cms_moduleId cc) (cms_transport cc) 0) r of
                Inl e \<Rightarrow> Inl e | Inr r \<Rightarrow> Inr (r\<lparr>run_commands := run_commands r @ [(cms_transport cc, c)]\<rparr>))"

subsection \<open>Datapoints\<close>

definition portCodec :: "CodecRegistry \<Rightarrow> ScalarType \<Rightarrow> PortRefConfig \<Rightarrow> Codec option" where
  "portCodec reg type p = findCodec reg (if pf_codec p = [] then idFor type else pf_codec p)"

definition sinkOwner :: "ConfigSchema \<Rightarrow> DatapointConfig \<Rightarrow> SinkWindowConfig option" where
  "sinkOwner s dc = (let p = dpc_sink dc in
     if pf_window p \<noteq> [] then find (\<lambda>w. win_moduleId w = pf_window p) (cs_sinkWindows s)
     else find (\<lambda>w. win_transport w = pf_port p \<and> tableFromString (win_table w) = tableFromString (pf_table p)
        \<and> win_startAddress w \<le> pf_address p \<and> pf_address p + words (dpc_type dc) \<le> win_startAddress w + win_size w) (cs_sinkWindows s))"

definition sinkRefOf :: "CodecRegistry \<Rightarrow> ConfigSchema \<Rightarrow> DatapointConfig \<Rightarrow> PortRef" where
  "sinkRefOf reg s dc =
     (let ref = makePortRef (dpc_sink dc) (portCodec reg (dpc_type dc) (dpc_sink dc)) in
      case sinkOwner s dc of None \<Rightarrow> ref
      | Some w \<Rightarrow> ref\<lparr>ref_window := win_moduleId w, ref_transport := win_transport w, ref_table := tableFromString (win_table w)\<rparr>)"

definition datapointSpec :: "CodecRegistry \<Rightarrow> ConfigSchema \<Rightarrow> DatapointConfig \<Rightarrow> DatapointSpec" where
  "datapointSpec reg s dc = \<lparr>spec_id = dpc_id dc, spec_kind = kindFromString (dpc_kind dc), spec_type = dpc_type dc,
     spec_source = (if dpc_hasSource dc then Some (makePortRef (dpc_source dc) (portCodec reg (dpc_type dc) (dpc_source dc))) else None),
     spec_sink = (if dpc_hasSink dc then Some (sinkRefOf reg s dc) else None), spec_uiBinding = dpc_ui dc, spec_persistTag = dpc_persist dc\<rparr>"

definition wantsWriter :: "DatapointSpec \<Rightarrow> bool" where
  "wantsWriter sp = ((spec_kind sp = Command \<or> spec_kind sp = Bidirectional)
     \<and> (case spec_sink sp of None \<Rightarrow> False | Some ref \<Rightarrow> ref_window ref \<noteq> []))"

definition buildDatapoint :: "ConfigSchema \<Rightarrow> DatapointConfig \<Rightarrow> Runtime \<Rightarrow> Exception + Runtime" where
  "buildDatapoint s dc r =
     (let h = run_dpCount r; d = newDatapoint (datapointSpec (run_codecs r) s dc);
          (ok, reg) = registerDp ((run_store r)(h := d)) (Some h) (run_dps r)
      in if \<not> ok then Inl (StdException (qarg (''failed to register duplicate/invalid datapoint '%1'' @ apos) (dpc_id dc)))
         else let r = r\<lparr>run_store := (run_store r)(h := d), run_dpCount := Suc h, run_dps := reg\<rparr>
              in Inr (case spec_sink (dp_spec d) of
                        Some ref \<Rightarrow> if wantsWriter (dp_spec d)
                          then r\<lparr>run_store := (run_store r)(h := setWriter (Some (length (run_writers r))) d),
                                 run_writers := run_writers r @ [(h, ref_window ref)]\<rparr>
                          else r
                      | None \<Rightarrow> r))"

subsection \<open>Poll ranges\<close>

definition bindsTo :: "qstring \<Rightarrow> ReadRequest \<Rightarrow> DatapointConfig \<Rightarrow> bool" where
  "bindsTo tr req dc = (let offset = pf_address (dpc_source dc) - rd_startAddress req in
     dpc_hasSource dc \<and> pf_port (dpc_source dc) = tr \<and> tableFromString (pf_table (dpc_source dc)) = rd_table req
     \<and> 0 \<le> offset \<and> offset + int (registerCountFor (dpc_type dc)) \<le> rd_count req)"

definition wireBindings :: "ConfigSchema \<Rightarrow> Runtime \<Rightarrow> qstring \<Rightarrow> PollRange \<Rightarrow> PollRange" where
  "wireBindings s r tr pl = fold (\<lambda>dc p. if \<not> bindsTo tr (pr_req p) dc then p
     else bindDatapoint (run_store r) (findDp (run_dps r) (dpc_id dc)) (portCodec (run_codecs r) (dpc_type dc) (dpc_source dc))
       (pf_address (dpc_source dc) - rd_startAddress (pr_req p)) p) (cs_datapoints s) pl"

definition buildPollRange :: "ConfigSchema \<Rightarrow> PollRangeConfig \<Rightarrow> Runtime \<Rightarrow> Exception + Runtime" where
  "buildPollRange s pc r =
     (if \<not> hasTransport r (prg_transport pc) then Inr r
      else let req = \<lparr>rd_table = tableFromString (prg_table pc), rd_startAddress = prg_startAddress pc, rd_count = prg_count pc\<rparr>;
               pl = wireBindings s r (prg_transport pc) (pollRange (prg_moduleId pc) (prg_transport pc) req (prg_periodMs pc) (prg_priority pc) True)
           in case registerOrThrow (moduleView (prg_moduleId pc) (prg_transport pc) (prg_periodMs pc)) r of
                Inl e \<Rightarrow> Inl e | Inr r \<Rightarrow> Inr (r\<lparr>run_polls := run_polls r @ [pl]\<rparr>))"

subsection \<open>Server routes and bridges\<close>

definition refCodec :: "Runtime \<Rightarrow> PortRef \<Rightarrow> Codec option" where
  "refCodec r ref = Option.bind (ref_codec ref) (findCodec (run_codecs r))"

text \<open>The index of the sink window a route writes: by the window id, else the first one of the transport that holds the address.\<close>

definition routeTarget :: "Runtime \<Rightarrow> PortRef \<Rightarrow> nat option" where
  "routeTarget r sink =
     (let named = find (\<lambda>i. ref_window sink \<noteq> [] \<and> swc_moduleId (sw_cfg (snd (run_sinks r ! i))) = ref_window sink) [0..<length (run_sinks r)] in
      if named \<noteq> None then named
      else if ref_transport sink = [] then None
      else find (\<lambda>i. fst (run_sinks r ! i) = ref_transport sink
             \<and> swc_startAddress (sw_cfg (snd (run_sinks r ! i))) \<le> ref_address sink
             \<and> ref_address sink < swc_startAddress (sw_cfg (snd (run_sinks r ! i))) + swc_size (sw_cfg (snd (run_sinks r ! i))))
             [0..<length (run_sinks r)])"

definition buildServerRoute :: "RouteConfig \<Rightarrow> Runtime \<Rightarrow> Runtime" where
  "buildServerRoute route r =
     (case (findDp (run_dps r) (rt_from route), findDp (run_dps r) (rt_to route)) of
        (Some f, Some t) \<Rightarrow>
          (case (spec_source (dp_spec (run_store r f)), spec_sink (dp_spec (run_store r t))) of
             (Some source, Some sink) \<Rightarrow>
               (case (refCodec r source, refCodec r sink, routeTarget r sink) of
                  (Some sc, Some kc, Some target) \<Rightarrow>
                    r\<lparr>run_routes := (run_routes r)(ref_transport source := run_routes r (ref_transport source)
                        @ [\<lparr>rb_source = source, rb_sourceCodec = sc, rb_count = registerCountFor (spec_type (dp_spec (run_store r f))),
                            rb_sourceDp = f, rb_targetDp = t, rb_target = target, rb_sink = sink, rb_sinkCodec = kc\<rparr>])\<rparr>
                | _ \<Rightarrow> r)
           | _ \<Rightarrow> r)
      | _ \<Rightarrow> r)"

definition buildServerRoutes :: "ConfigSchema \<Rightarrow> Runtime \<Rightarrow> Runtime" where
  "buildServerRoutes s r = fold buildServerRoute (cs_routes s) (r\<lparr>run_routes := (\<lambda>_. [])\<rparr>)"

definition newMirrorState :: BridgeMirrorState where
  "newMirrorState = \<lparr>bm_values = [], bm_version = 0, bm_inFlight = False, bm_lastSubmittedAt = 0\<rparr>"

definition forwardConfig :: "nat \<Rightarrow> BridgeConfig \<Rightarrow> SinkConfig" where
  "forwardConfig i b = \<lparr>swc_moduleId = forwardId i b, swc_table = HoldingRegisters, swc_startAddress = br_writeStart b - br_offset b,
     swc_size = br_writeCount b, swc_priority = Priority_High, swc_debounceMs = 0, swc_keepAlivePeriodMs = 0, swc_initial = []\<rparr>"

definition buildBridge :: "nat \<times> BridgeConfig \<Rightarrow> Runtime \<Rightarrow> Exception + Runtime" where
  "buildBridge ib r = (let (i, b) = ib in
     if 0 < br_writeCount b \<and> hasTransport r (br_plc b)
     then (case pushSink (br_plc b) (forwardConfig i b) r of
             Inl e \<Rightarrow> Inl e | Inr r' \<Rightarrow> Inr (r'\<lparr>run_fwdSinks := (run_fwdSinks r')[i := Some (length (run_sinks r))]\<rparr>))
     else Inr r)"

definition buildBridges :: "ConfigSchema \<Rightarrow> Runtime \<Rightarrow> Exception + Runtime" where
  "buildBridges s r =
     foldE buildBridge (enumerate 0 (cs_bridges s))
       (r\<lparr>run_bridges := cs_bridges s, run_mirrors := replicate (length (cs_bridges s)) newMirrorState,
          run_fwdSinks := replicate (length (cs_bridges s)) None\<rparr>)"

subsection \<open>Writing a datapoint\<close>

definition setStateAt :: "nat \<Rightarrow> DpState \<Rightarrow> Runtime \<Rightarrow> Runtime" where
  "setStateAt h st r = (let (sig, d) = setState st (run_store r h) in
     r\<lparr>run_store := (run_store r)(h := d), run_signals := run_signals r @ map (Pair h) sig\<rparr>)"

definition setValueAt :: "CoreEnv \<Rightarrow> nat \<Rightarrow> QVariant \<Rightarrow> Runtime \<Rightarrow> Runtime" where
  "setValueAt env h v r = (let (sig, d) = setValue (env_qt env) v (env_dateTime env) (run_store r h) in
     r\<lparr>run_store := (run_store r)(h := d), run_signals := run_signals r @ map (Pair h) sig\<rparr>)"

definition stageAt :: "CoreEnv \<Rightarrow> nat \<Rightarrow> int \<Rightarrow> u16 \<Rightarrow> u16 \<Rightarrow> Runtime \<Rightarrow> Runtime" where
  "stageAt env i a v m r = r\<lparr>run_sinks := (run_sinks r)[i := apsnd (\<lambda>w. snd (stageRegister (env_steadyNow env) a v m w)) (run_sinks r ! i)]\<rparr>"

definition stageWords :: "CoreEnv \<Rightarrow> nat \<Rightarrow> PortRef \<Rightarrow> u16 list \<Rightarrow> Runtime \<Rightarrow> Runtime" where
  "stageWords env i ref ws r =
     fold (\<lambda>(k, x). stageAt env i (ref_address ref + int k) x (stageMaskFor ref k (length ws))) (enumerate 0 ws) r"

definition sinkNamed :: "Runtime \<Rightarrow> qstring \<Rightarrow> nat option" where
  "sinkNamed r windowId = find (\<lambda>i. swc_moduleId (sw_cfg (snd (run_sinks r ! i))) = windowId) [0..<length (run_sinks r)]"

text \<open>The writer closure: \<open>h\<close> is its datapoint, \<open>windowId\<close> the captured window.\<close>

definition runWriter :: "CoreEnv \<Rightarrow> nat \<times> qstring \<Rightarrow> QVariant \<Rightarrow> Runtime \<Rightarrow> Runtime" where
  "runWriter env hw v r =
     (let (h, windowId) = hw; failed = setStateAt h DpError r in
      case spec_sink (dp_spec (run_store r h)) of None \<Rightarrow> failed
      | Some sink \<Rightarrow>
        (case refCodec r sink of None \<Rightarrow> failed
         | Some c \<Rightarrow>
           (case codecEncode env c v sink of None \<Rightarrow> failed
            | Some ws \<Rightarrow>
              (if ws = [] then failed
               else case sinkNamed r windowId of None \<Rightarrow> failed | Some i \<Rightarrow> stageWords env i sink ws r))))"

definition writeDp :: "CoreEnv \<Rightarrow> nat \<Rightarrow> QVariant \<Rightarrow> Runtime \<Rightarrow> Runtime" where
  "writeDp env h v r = (case writeDatapoint v (run_store r h) of None \<Rightarrow> r | Some (k, v) \<Rightarrow> runWriter env (run_writers r ! k) v r)"

subsection \<open>Plugins\<close>

definition nameError :: "nat \<Rightarrow> PluginConfig \<Rightarrow> Plugin \<Rightarrow> ValidationError list" where
  "nameError i pc p =
     (let actual = (case plug_name p of Inr n \<Rightarrow> n
          | Inl (StdException e) \<Rightarrow> qarg ''<name() threw: %1>'' e | Inl UnknownException \<Rightarrow> ''<name() threw>'')
      in rejectIf (plg_name pc \<noteq> [] \<and> plug_name p \<noteq> Inr (plg_name pc)) (qsection ''plugin[%1]'' i) ''name''
           (''declared plugin name '' @ apos @ plg_name pc @ apos @ '' does not match loaded plugin '' @ apos @ actual @ apos))"

definition loadPluginLibrary :: "CoreEnv \<Rightarrow> qstring \<Rightarrow> nat \<times> PluginConfig \<Rightarrow> PluginRegistry \<times> ValidationError list
    \<Rightarrow> PluginRegistry \<times> ValidationError list" where
  "loadPluginLibrary env dir ip st =
     (let (i, pc) = ip; (reg, errs) = st; dll = underDir env dir (plg_dllPath pc); (ok, reg) = loadPlugin (env_lib env) dll reg
      in if \<not> ok then (reg, errs @ rejectIf True (qsection ''plugin[%1]'' i) ''dll''
                        (''failed to load '' @ apos @ dll @ apos @ '': '' @ plr_lastError reg))
         else (reg, errs @ nameError i pc (last (allPlugins reg))))"

definition loadPluginLibraries :: "CoreEnv \<Rightarrow> qstring \<Rightarrow> ConfigSchema \<Rightarrow> PluginRegistry \<Rightarrow> PluginRegistry \<times> ValidationError list" where
  "loadPluginLibraries env dir s reg = fold (loadPluginLibrary env dir) (enumerate 0 (cs_plugins s)) (reg, [])"

definition portWrite :: "CoreEnv \<Rightarrow> qstring \<times> QVariant \<Rightarrow> Runtime \<Rightarrow> Runtime" where
  "portWrite env iv r = (case writeErased (run_store r) (run_dps r) (fst iv) (snd iv) of
     None \<Rightarrow> r | Some (k, v) \<Rightarrow> runWriter env (run_writers r ! k) v r)"

definition initializePlugin :: "CoreEnv \<Rightarrow> Plugin \<Rightarrow> Runtime \<Rightarrow> Exception + Runtime" where
  "initializePlugin env p r = (let (sent, exn) = plug_onInitialized p; r = fold (portWrite env) sent r in
     case exn of None \<Rightarrow> Inr r | Some e \<Rightarrow> Inl e)"

definition initializePlugins :: "CoreEnv \<Rightarrow> Runtime \<Rightarrow> Exception + Runtime" where
  "initializePlugins env r =
     (if allPlugins (run_plugins r) = [] then Inr r
      else let (exn, ports) = registerAllPorts (allPlugins (run_plugins r)) portRegistry in
        case exn of Some e \<Rightarrow> Inl e
        | None \<Rightarrow> foldE (initializePlugin env) (allPlugins (run_plugins r)) (r\<lparr>run_ports := Some ports\<rparr>))"

definition wireFromSchema :: "CoreEnv \<Rightarrow> ConfigSchema \<Rightarrow> Runtime \<Rightarrow> Exception + Runtime" where
  "wireFromSchema env s r =
     (case foldE buildSinkWindow (cs_sinkWindows s) (r\<lparr>run_transports := buildTransports (cs_transports s) (run_transports r)\<rparr>) of Inl e \<Rightarrow> Inl e
      | Inr r \<Rightarrow> (case foldE (buildDatapoint s) (cs_datapoints s) r of Inl e \<Rightarrow> Inl e
      | Inr r \<Rightarrow> (case foldE (buildPollRange s) (cs_pollRanges s) r of Inl e \<Rightarrow> Inl e
      | Inr r \<Rightarrow> (case foldE buildHeartbeat (cs_heartbeats s) (buildServerRoutes s r) of Inl e \<Rightarrow> Inl e
      | Inr r \<Rightarrow> (case foldE buildAckWatch (cs_ackWatches s) r of Inl e \<Rightarrow> Inl e
      | Inr r \<Rightarrow> (case foldE buildCommand (cs_commands s) r of Inl e \<Rightarrow> Inl e
      | Inr r \<Rightarrow> (case buildBridges s r of Inl e \<Rightarrow> Inl e
      | Inr r \<Rightarrow> initializePlugins env r)))))))"

end
