(* ===== verification/Core_Runtime.thy ===== *)
theory Core_Runtime
  imports Core_Build
begin

text \<open>
  The operations of \<open>CoreImpl\<close> on a built runtime graph (\<open>src/Core.cpp\<close>): routing operator writes
  from a server transport to the PLC side, the bridges with their forwarding gate, mirroring of
  polled registers back to the server, and the reactions to bus events.
\<close>

record ServerWriteEvent =
  se_transportId :: qstring
  se_table :: RegisterType
  se_startAddress :: int
  se_values :: "u16 list"

datatype PeerSessionChangeKind = PeerConnected | PeerDisconnected

subsection \<open>Server routes\<close>

definition routeOne :: "CoreEnv \<Rightarrow> ServerWriteEvent \<Rightarrow> ServerRouteBinding \<Rightarrow> Runtime \<Rightarrow> Runtime" where
  "routeOne env e b r =
     (let offset = ref_address (rb_source b) - se_startAddress e;
          bothFailed = (\<lambda>r. setStateAt (rb_targetDp b) DpError (setStateAt (rb_sourceDp b) DpError r)) in
      if ref_table (rb_source b) \<noteq> se_table e then r
      else if offset < 0 \<or> int (length (se_values e)) < offset + int (rb_count b) then r
      else case coreDecode env (rb_sourceCodec b) (mid (se_values e) (nat offset) (rb_count b)) (rb_source b) of
             None \<Rightarrow> bothFailed r
           | Some v \<Rightarrow>
             (if v = QInvalid then bothFailed r
              else let r = setValueAt env (rb_sourceDp b) v r in
                case codecEncode env (rb_sinkCodec b) v (rb_sink b) of
                  None \<Rightarrow> bothFailed r
                | Some ws \<Rightarrow> (if ws = [] then setStateAt (rb_targetDp b) DpError r
                             else stageWords env (rb_target b) (rb_sink b) ws r)))"

definition routeServerWrite :: "CoreEnv \<Rightarrow> ServerWriteEvent \<Rightarrow> Runtime \<Rightarrow> Runtime" where
  "routeServerWrite env e r = fold (routeOne env e) (run_routes r (se_transportId e)) r"

subsection \<open>Bridges: forwarding\<close>

definition forwardBridge :: "CoreEnv \<Rightarrow> ServerWriteEvent \<Rightarrow> nat \<times> BridgeConfig \<Rightarrow> Runtime \<Rightarrow> Runtime" where
  "forwardBridge env e ib r =
     (let (i, b) = ib in
      if br_server b \<noteq> se_transportId e then r
      else case run_fwdSinks r ! i of None \<Rightarrow> r
           | Some k \<Rightarrow>
             (let eStart = se_startAddress e; eEnd = se_startAddress e + int (length (se_values e));
                  s = max eStart (br_writeStart b); en = min eEnd (br_writeStart b + br_writeCount b)
              in fold (\<lambda>a. stageAt env k (a - br_offset b) (se_values e ! nat (a - eStart)) 0xFFFF) [s..en - 1] r))"

definition forwardBridges :: "CoreEnv \<Rightarrow> ServerWriteEvent \<Rightarrow> Runtime \<Rightarrow> Runtime" where
  "forwardBridges env e r =
     (if se_table e \<noteq> HoldingRegisters then r else fold (forwardBridge env e) (enumerate 0 (run_bridges r)) r)"

definition forceFlushAt :: "nat \<Rightarrow> Runtime \<Rightarrow> Runtime" where
  "forceFlushAt k r = r\<lparr>run_sinks := (run_sinks r)[k := apsnd forceFlush (run_sinks r ! k)]\<rparr>"

definition zeroBridge :: "CoreEnv \<Rightarrow> qstring \<Rightarrow> nat \<times> BridgeConfig \<Rightarrow> Runtime \<Rightarrow> Runtime" where
  "zeroBridge env server ib r =
     (let (i, b) = ib in
      if br_server b \<noteq> server then r
      else case run_fwdSinks r ! i of None \<Rightarrow> r
           | Some k \<Rightarrow> forceFlushAt k (fold (\<lambda>a. stageAt env k (a - br_offset b) 0 0xFFFF)
                         [br_writeStart b..br_writeStart b + br_writeCount b - 1] r))"

definition zeroBridgeForward :: "CoreEnv \<Rightarrow> qstring \<Rightarrow> Runtime \<Rightarrow> Runtime" where
  "zeroBridgeForward env server r = fold (zeroBridge env server) (enumerate 0 (run_bridges r)) r"

definition serverForwardEnabled :: "Runtime \<Rightarrow> qstring \<Rightarrow> bool" where
  "serverForwardEnabled r server = (case run_forward r server of None \<Rightarrow> True | Some b \<Rightarrow> b)"

definition setServerForwardEnabled :: "CoreEnv \<Rightarrow> qstring \<Rightarrow> bool \<Rightarrow> Runtime \<Rightarrow> Runtime" where
  "setServerForwardEnabled env server enabled r =
     (let wasEnabled = serverForwardEnabled r server; r = r\<lparr>run_forward := (run_forward r)(server \<mapsto> enabled)\<rparr>
      in if wasEnabled \<and> \<not> enabled then zeroBridgeForward env server r else r)"

text \<open>The subscriber of \<open>ServerWriteEvent\<close>, without its audit record.\<close>

definition onServerWrite :: "CoreEnv \<Rightarrow> ServerWriteEvent \<Rightarrow> Runtime \<Rightarrow> Runtime" where
  "onServerWrite env e r =
     (if \<not> serverForwardEnabled r (se_transportId e) then r else forwardBridges env e (routeServerWrite env e r))"

subsection \<open>Reconnection and peers\<close>

text \<open>The part of the subscriber of \<open>TransportStateChanged\<close> that touches the graph.\<close>

definition onTransportState :: "TransportStatus \<Rightarrow> TransportStatus \<Rightarrow> Runtime \<Rightarrow> Runtime" where
  "onTransportState before after r =
     (if ts_state after \<noteq> Connected \<or> ts_state before = Connected then r
      else r\<lparr>run_sinks := map (\<lambda>(t, w). (t, if t = ts_transportId after then forceFlush w else w)) (run_sinks r)\<rparr>)"

definition onPeerSession :: "PeerSessionChangeKind \<Rightarrow> PeerSession \<Rightarrow> (qstring \<Rightarrow> PeerSession list) \<Rightarrow> qstring \<Rightarrow> PeerSession list" where
  "onPeerSession kind s cache =
     (let t = ps_transportId s; sessions = cache t in
      case kind of
        PeerConnected \<Rightarrow> cache(t := (if \<exists>p \<in> set sessions. ps_sessionId p = ps_sessionId s then sessions else sessions @ [s]))
      | PeerDisconnected \<Rightarrow> cache(t := filter (\<lambda>p. ps_sessionId p \<noteq> ps_sessionId s) sessions))"

subsection \<open>Bridges: mirroring\<close>

definition mirrorAt :: "nat \<Rightarrow> (BridgeMirrorState \<Rightarrow> BridgeMirrorState) \<Rightarrow> Runtime \<Rightarrow> Runtime" where
  "mirrorAt i f r = r\<lparr>run_mirrors := (run_mirrors r)[i := f (run_mirrors r ! i)]\<rparr>"

text \<open>
  The image a completed poll holds for a bridge, and the subscriber of \<open>PollRangeCompleted\<close> with
  the bridges for which it calls \<open>scheduleBridgeMirror\<close>.
\<close>

definition mirrorImage :: "PollRangeCompleted \<Rightarrow> BridgeConfig \<Rightarrow> u16 list option" where
  "mirrorImage e b =
     (let offset = br_mirrorStart b - prc_startAddress e in
      if br_mirrorCount b \<le> 0 \<or> br_plc b \<noteq> prc_transportId e then None
      else if offset < 0 \<or> int (length (prc_values e)) < offset + br_mirrorCount b then None
      else Some (mid (prc_values e) (nat offset) (nat (br_mirrorCount b))))"

definition takeImage :: "PollRangeCompleted \<Rightarrow> nat \<times> BridgeConfig \<Rightarrow> nat list \<times> Runtime \<Rightarrow> nat list \<times> Runtime" where
  "takeImage e ib st =
     (let (i, b) = ib; (due, r) = st in
      case mirrorImage e b of None \<Rightarrow> (due, r)
      | Some vals \<Rightarrow> (if br_mirrorPolicy b = AfterPoll then due @ [i] else due,
                     mirrorAt i (\<lambda>m. m\<lparr>bm_values := vals, bm_version := bm_version m + 1\<rparr>) r))"

definition onPollRangeCompleted :: "PollRangeCompleted \<Rightarrow> Runtime \<Rightarrow> nat list \<times> Runtime" where
  "onPollRangeCompleted e r =
     (if prc_table e \<noteq> HoldingRegisters then ([], r) else fold (takeImage e) (enumerate 0 (run_bridges r)) ([], r))"

text \<open>
  \<open>scheduleBridgeMirror\<close> up to its call of \<open>submitAsync\<close>: the request with the version its
  completion closure captures.
\<close>

definition mirrorCapture :: "nat \<Rightarrow> Runtime \<Rightarrow> (RequestTag \<times> WriteBatch \<times> u64) option \<times> Runtime" where
  "mirrorCapture i r =
     (if length (run_bridges r) \<le> i then (None, r)
      else let b = run_bridges r ! i; m = run_mirrors r ! i in
        if br_mirrorCount b \<le> 0 \<or> \<not> hasTransport r (br_server b) then (None, r)
        else if bm_inFlight m \<or> int (length (bm_values m)) \<noteq> br_mirrorCount b then (None, r)
        else (Some (\<lparr>tag_moduleId = qarg (qarg ''bridge.mirror.%1.%2'' (br_server b)) (show_nat i), tag_priority = Priority_Low,
                      tag_interruptable = False\<rparr>,
                    \<lparr>wr_table = HoldingRegisters, wr_startAddress = br_mirrorStart b + br_offset b, wr_values = bm_values m\<rparr>,
                    bm_version m),
              mirrorAt i (\<lambda>m. m\<lparr>bm_inFlight := True\<rparr>) r))"

definition mirrorSubmitted :: "CoreEnv \<Rightarrow> nat \<Rightarrow> bool \<Rightarrow> Runtime \<Rightarrow> Runtime" where
  "mirrorSubmitted env i accepted r =
     mirrorAt i (\<lambda>m. if accepted then m\<lparr>bm_lastSubmittedAt := env_steadyNow env\<rparr> else m\<lparr>bm_inFlight := False\<rparr>) r"

text \<open>The completion of the write: whether it calls \<open>scheduleBridgeMirror\<close> again.\<close>

definition mirrorDone :: "bool \<Rightarrow> nat \<Rightarrow> u64 \<Rightarrow> Runtime \<Rightarrow> bool \<times> Runtime" where
  "mirrorDone started i version r =
     (version < bm_version (run_mirrors r ! i) \<and> started \<and> i < length (run_bridges r)
        \<and> br_mirrorPolicy (run_bridges r ! i) = AfterPoll,
      mirrorAt i (\<lambda>m. m\<lparr>bm_inFlight := False\<rparr>) r)"

text \<open>A write that throws instead of calling back.\<close>

definition mirrorThrew :: "nat \<Rightarrow> Runtime \<Rightarrow> Runtime" where
  "mirrorThrew i r = mirrorAt i (\<lambda>m. m\<lparr>bm_inFlight := False\<rparr>) r"

text \<open>The bridges \<open>mirrorBridgesPeriodically\<close> schedules, and the period of its timer.\<close>

definition mirrorsDue :: "CoreEnv \<Rightarrow> Runtime \<Rightarrow> nat list" where
  "mirrorsDue env r = filter (\<lambda>i. let b = run_bridges r ! i; m = run_mirrors r ! i in
     0 < br_mirrorCount b \<and> br_mirrorPolicy b = Periodic
     \<and> \<not> (0 < bm_lastSubmittedAt m \<and> env_steadyNow env - bm_lastSubmittedAt m < milliseconds (br_mirrorPeriodMs b)))
     [0..<length (run_bridges r)]"

definition mirrorPumpPeriod :: "Runtime \<Rightarrow> int option" where
  "mirrorPumpPeriod r =
     (let ps = filter (\<lambda>b. 0 < br_mirrorCount b \<and> br_mirrorPolicy b = Periodic) (run_bridges r) in
      if ps = [] then None else Some (fold (\<lambda>b period. min period (max 20 (br_mirrorPeriodMs b))) ps 2147483647))"

subsection \<open>Starting and stopping the modules\<close>

text \<open>
  \<open>startAll\<close> and \<open>stopAll\<close> call \<open>start\<close> and \<open>stop\<close> of every module, which reach the poll ranges,
  sink windows and heartbeats of the graph; commands have nothing to start.
\<close>

definition startModules :: "CoreEnv \<Rightarrow> Runtime \<Rightarrow> Runtime" where
  "startModules env r = (if regStarted (run_modules r) then r
     else r\<lparr>run_modules := startAll (run_modules r), run_polls := map pollStart (run_polls r),
     run_sinks := map (apsnd (sinkStart (env_steadyNow env))) (run_sinks r), run_heartbeats := map (apsnd heartbeatStart) (run_heartbeats r)\<rparr>)"

definition stopModules :: "Runtime \<Rightarrow> Runtime" where
  "stopModules r = r\<lparr>run_modules := stopAll (run_modules r), run_polls := map pollStop (run_polls r),
     run_sinks := map (apsnd sinkStop) (run_sinks r), run_heartbeats := map (apsnd heartbeatStop) (run_heartbeats r)\<rparr>"

end
