(* ===== verification/Core_Graph.thy ===== *)
theory Core_Graph
  imports Core_Runtime Config_Properties
begin

text \<open>
  What a built runtime graph looks like, as a function of the schema, and that it stays so.
  \<open>skeleton\<close> is the part of a runtime that no operation of a running core changes; \<open>graph_ok s\<close> says
  that the skeleton is the one the schema \<open>s\<close> describes.  A configuration accepted by \<open>validate\<close>
  always builds into such a graph.
\<close>

subsection \<open>The skeleton\<close>

record Skeleton =
  sk_sinks :: "(qstring \<times> SinkConfig \<times> nat) list"
  sk_bridges :: "BridgeConfig list"
  sk_fwd :: "nat option list"
  sk_mirrors :: nat
  sk_dps :: DatapointRegistry
  sk_spec :: "nat \<Rightarrow> DatapointSpec"
  sk_writer :: "nat \<Rightarrow> nat option"
  sk_writers :: "(nat \<times> qstring) list"
  sk_routes :: "qstring \<Rightarrow> ServerRouteBinding list"
  sk_transports :: "(qstring \<times> Transport) list"
  sk_codecs :: CodecRegistry

definition sinkShape :: "qstring \<times> SinkWindow \<Rightarrow> qstring \<times> SinkConfig \<times> nat" where
  "sinkShape tw = (fst tw, sw_cfg (snd tw), length (sw_snapshot (snd tw)))"

definition skeleton :: "Runtime \<Rightarrow> Skeleton" where
  "skeleton r = \<lparr>sk_sinks = map sinkShape (run_sinks r), sk_bridges = run_bridges r, sk_fwd = run_fwdSinks r,
     sk_mirrors = length (run_mirrors r), sk_dps = run_dps r, sk_spec = (\<lambda>h. dp_spec (run_store r h)),
     sk_writer = (\<lambda>h. dp_writer (run_store r h)), sk_writers = run_writers r, sk_routes = run_routes r,
     sk_transports = run_transports r, sk_codecs = run_codecs r\<rparr>"

named_theorems keeps_skeleton

lemma skeleton_sinks: "map sinkShape ss = map sinkShape (run_sinks r) \<Longrightarrow> skeleton (r\<lparr>run_sinks := ss\<rparr>) = skeleton r"
  by (simp add: skeleton_def)

lemma sinks_update_shape: "sinkShape (f (xs ! k)) = sinkShape (xs ! k) \<Longrightarrow> map sinkShape (xs[k := f (xs ! k)]) = map sinkShape xs"
  by (cases "k < length xs") (auto simp: map_update intro!: nth_equalityI simp: nth_list_update)

lemma stageRegister_shape: "sinkShape (t, snd (stageRegister now a v m w)) = sinkShape (t, w)"
  using stageRegister_fields[of now a v m w] by (cases "stageRegister now a v m w") (simp add: sinkShape_def)

lemma skeleton_stageAt [simp, keeps_skeleton]: "skeleton (stageAt env k a v m r) = skeleton r"
  unfolding stageAt_def
  by (rule skeleton_sinks, rule sinks_update_shape)
     (cases "run_sinks r ! k"; simp add: stageRegister_shape)

lemma skeleton_forceFlushAt [simp, keeps_skeleton]: "skeleton (forceFlushAt k r) = skeleton r"
  unfolding forceFlushAt_def
  by (rule skeleton_sinks, rule sinks_update_shape) (cases "run_sinks r ! k"; simp add: sinkShape_def forceFlush_def)

lemma skeleton_onTransportState [simp, keeps_skeleton]: "skeleton (onTransportState before after r) = skeleton r"
proof -
  have "map sinkShape (map (\<lambda>(t, w). (t, if t = i then forceFlush w else w)) xs) = map sinkShape xs" for i xs
    by (auto simp: sinkShape_def forceFlush_def)
  then show ?thesis by (auto simp: onTransportState_def intro!: skeleton_sinks)
qed

lemma skeleton_store:
  assumes "dp_spec d = dp_spec (run_store r h)" "dp_writer d = dp_writer (run_store r h)"
  shows "skeleton (r\<lparr>run_store := (run_store r)(h := d), run_signals := sig\<rparr>) = skeleton r"
  using assms by (auto simp: skeleton_def fun_eq_iff)

lemma skeleton_setStateAt [simp, keeps_skeleton]: "skeleton (setStateAt h st r) = skeleton r"
  by (auto simp: setStateAt_def Let_def setState_def intro!: skeleton_store)

lemma skeleton_setValueAt [simp, keeps_skeleton]: "skeleton (setValueAt env h v r) = skeleton r"
  by (auto simp: setValueAt_def Let_def setValue_def skeleton_def fun_eq_iff)

lemma skeleton_startModules [simp, keeps_skeleton]: "skeleton (startModules env r) = skeleton r"
  by (simp add: skeleton_def startModules_def sinkShape_def sinkStart_def comp_def)

lemma skeleton_stopModules [simp, keeps_skeleton]: "skeleton (stopModules r) = skeleton r"
  by (simp add: skeleton_def stopModules_def sinkShape_def sinkStop_def comp_def)

lemma skeleton_mirrorAt [simp, keeps_skeleton]: "skeleton (mirrorAt i f r) = skeleton r"
  by (simp add: mirrorAt_def skeleton_def)

lemma skeleton_fold: "(\<And>x r. x \<in> set xs \<Longrightarrow> skeleton (f x r) = skeleton r) \<Longrightarrow> skeleton (fold f xs r) = skeleton r"
  by (induction xs arbitrary: r) auto

lemma skeleton_stageWords [simp, keeps_skeleton]: "skeleton (stageWords env i ref ws r) = skeleton r"
  unfolding stageWords_def by (rule skeleton_fold) auto

lemma skeleton_runWriter [simp, keeps_skeleton]: "skeleton (runWriter env hw v r) = skeleton r"
  by (auto simp: runWriter_def Let_def split: prod.splits option.splits)

lemma skeleton_writeDp [simp, keeps_skeleton]: "skeleton (writeDp env h v r) = skeleton r"
  by (auto simp: writeDp_def split: option.splits)

lemma skeleton_portWrite [simp, keeps_skeleton]: "skeleton (portWrite env iv r) = skeleton r"
  by (auto simp: portWrite_def split: option.splits)

lemma skeleton_routeOne [simp]: "skeleton (routeOne env e b r) = skeleton r"
  by (auto simp: routeOne_def Let_def split: option.splits)

lemma skeleton_routeServerWrite [simp, keeps_skeleton]: "skeleton (routeServerWrite env e r) = skeleton r"
  unfolding routeServerWrite_def by (rule skeleton_fold) simp

lemma skeleton_forwardBridge [simp]: "skeleton (forwardBridge env e ib r) = skeleton r"
  by (auto simp: forwardBridge_def Let_def split: option.splits prod.splits intro!: skeleton_fold)

lemma skeleton_forwardBridges [simp, keeps_skeleton]: "skeleton (forwardBridges env e r) = skeleton r"
  by (auto simp: forwardBridges_def intro!: skeleton_fold)

lemma skeleton_zeroBridge [simp]: "skeleton (zeroBridge env server ib r) = skeleton r"
  by (auto simp: zeroBridge_def Let_def split: option.splits prod.splits intro!: skeleton_fold)

lemma skeleton_zeroBridgeForward [simp, keeps_skeleton]: "skeleton (zeroBridgeForward env server r) = skeleton r"
  by (auto simp: zeroBridgeForward_def intro!: skeleton_fold)

lemma skeleton_forward [simp]: "skeleton (r\<lparr>run_forward := f\<rparr>) = skeleton r"
  by (simp add: skeleton_def)

lemma skeleton_setServerForwardEnabled [simp, keeps_skeleton]: "skeleton (setServerForwardEnabled env server en r) = skeleton r"
  by (simp add: setServerForwardEnabled_def Let_def)

lemma skeleton_onServerWrite [simp, keeps_skeleton]: "skeleton (onServerWrite env e r) = skeleton r"
  by (simp add: onServerWrite_def)

lemma skeleton_takeImages: "skeleton (snd (fold (takeImage e) ibs st)) = skeleton (snd st)"
proof (induction ibs arbitrary: st)
  case (Cons ib ibs)
  have "skeleton (snd (takeImage e ib st)) = skeleton (snd st)"
    by (cases ib; cases st) (auto simp: takeImage_def split: option.splits)
  then show ?case using Cons by simp
qed simp

lemma skeleton_onPollRangeCompleted [simp, keeps_skeleton]: "skeleton (snd (onPollRangeCompleted e r)) = skeleton r"
  by (simp add: onPollRangeCompleted_def skeleton_takeImages)

lemma skeleton_mirrorCapture [simp, keeps_skeleton]: "skeleton (snd (mirrorCapture i r)) = skeleton r"
  by (simp add: mirrorCapture_def Let_def)

lemma skeleton_mirrorSubmitted [simp, keeps_skeleton]: "skeleton (mirrorSubmitted env i ok r) = skeleton r"
  by (simp add: mirrorSubmitted_def)

lemma skeleton_mirrorDone [simp, keeps_skeleton]: "skeleton (snd (mirrorDone started i v r)) = skeleton r"
  by (simp add: mirrorDone_def)

subsection \<open>The graph a schema describes\<close>

definition windowConfigs :: "ConfigSchema \<Rightarrow> (qstring \<times> SinkConfig) list" where
  "windowConfigs s = map (\<lambda>w. (win_transport w, sinkConfigOf w)) (filter (\<lambda>w. win_transport w \<in> set (transportIds s)) (cs_sinkWindows s))"

definition forwards :: "ConfigSchema \<Rightarrow> BridgeConfig \<Rightarrow> bool" where
  "forwards s b = (0 < br_writeCount b \<and> br_plc b \<in> set (transportIds s))"

fun forwardConfigs :: "ConfigSchema \<Rightarrow> nat \<Rightarrow> BridgeConfig list \<Rightarrow> (qstring \<times> SinkConfig) list" where
  "forwardConfigs s i [] = []"
| "forwardConfigs s i (b # bs) = (if forwards s b then [(br_plc b, forwardConfig i b)] else []) @ forwardConfigs s (Suc i) bs"

fun forwardSlots :: "ConfigSchema \<Rightarrow> nat \<Rightarrow> BridgeConfig list \<Rightarrow> nat option list" where
  "forwardSlots s k [] = []"
| "forwardSlots s k (b # bs) = (if forwards s b then Some k # forwardSlots s (Suc k) bs else None # forwardSlots s k bs)"

lemma length_forwardSlots [simp]: "length (forwardSlots s k bs) = length bs"
  by (induction bs arbitrary: k) auto

lemma forwardSlots_None: "i < length bs \<Longrightarrow> forwardSlots s k bs ! i = None \<longleftrightarrow> \<not> forwards s (bs ! i)"
  by (induction bs arbitrary: k i) (auto simp: nth_Cons split: nat.splits)

lemma forwardSlots_Some:
  assumes "i < length bs" "forwardSlots s k bs ! i = Some n"
  shows "k \<le> n \<and> n - k < length (forwardConfigs s j bs) \<and> forwardConfigs s j bs ! (n - k) = (br_plc (bs ! i), forwardConfig (j + i) (bs ! i))"
  using assms
proof (induction bs arbitrary: k i j)
  case (Cons b bs)
  show ?case
  proof (cases i)
    case 0 then show ?thesis using Cons.prems by (auto split: if_splits)
  next
    case (Suc i')
    then show ?thesis using Cons.prems Cons.IH[of i' "Suc k" "Suc j"] Cons.IH[of i' k "Suc j"]
      by (auto simp: nth_Cons' split: if_splits)
  qed
qed simp

lemma forwardSlots_ge: "Some n \<in> set (forwardSlots s k bs) \<Longrightarrow> k \<le> n"
  by (induction bs arbitrary: k) (fastforce split: if_splits)+

lemma forwardSlots_inj:
  assumes "i < length bs" "i' < length bs" "forwardSlots s k bs ! i = Some n" "forwardSlots s k bs ! i' = Some n"
  shows "i = i'"
  using assms
proof (induction bs arbitrary: k i i')
  case (Cons b bs)
  have tail: "forwardSlots s k' bs ! j = Some n \<Longrightarrow> j < length bs \<Longrightarrow> k' \<le> n" for k' j
    by (metis forwardSlots_ge length_forwardSlots nth_mem)
  show ?case using Cons.prems Cons.IH tail[of "Suc k"]
    by (cases i; cases i') (fastforce split: if_splits)+
qed simp

text \<open>A datapoint carries its specification and, when it takes commands, a writer for its window.\<close>

definition dp_wired :: "CodecRegistry \<Rightarrow> ConfigSchema \<Rightarrow> DatapointSpec \<Rightarrow> nat option \<Rightarrow> (nat \<times> qstring) list \<Rightarrow> nat \<Rightarrow> DatapointConfig \<Rightarrow> bool" where
  "dp_wired reg s sp wr writers h dc \<longleftrightarrow> sp = datapointSpec reg s dc
     \<and> (case wr of None \<Rightarrow> \<not> wantsWriter sp
         | Some n \<Rightarrow> wantsWriter sp \<and> n < length writers \<and> writers ! n = (h, ref_window (the (spec_sink sp))))"

lemma dp_wired_append: "dp_wired reg s sp wr writers h dc \<Longrightarrow> dp_wired reg s sp wr (writers @ ws) h dc"
  by (auto simp: dp_wired_def nth_append split: option.splits)

text \<open>Custom codecs do not replace the built-in ones.\<close>

definition builtin_codecs :: "CodecRegistry \<Rightarrow> bool" where
  "builtin_codecs reg \<longleftrightarrow> (\<forall>t. t \<noteq> String \<longrightarrow> findCodec reg (idFor t) = Some (ScalarCodec t))"

lemma builtin_loaded: "builtin_codecs (loadBuiltins reg)"
  by (simp add: builtin_codecs_def loadBuiltins_find)

lemma builtin_register: "builtin_codecs reg \<Longrightarrow> (\<And>t. t \<noteq> String \<Longrightarrow> codecId c \<noteq> idFor t) \<Longrightarrow> builtin_codecs (registerCodec (Some c) reg)"
  by (simp add: builtin_codecs_def registerCodec_def findCodec_def) metis

lemma builtin_custom:
  assumes "builtin_codecs reg" "\<forall>c \<in> set (cs_codecs s). \<forall>t. t \<noteq> String \<longrightarrow> cdc_id c \<noteq> idFor t"
  shows "builtin_codecs (fst (registerCustomCodecs env dir s reg))"
proof -
  have "builtin_codecs (fst (fold (registerCustomCodec env dir) ics st))"
    if "builtin_codecs (fst st)" "\<forall>ic \<in> set ics. \<forall>t. t \<noteq> String \<longrightarrow> cdc_id (snd ic) \<noteq> idFor t" for ics st
    using that
  proof (induction ics arbitrary: st)
    case (Cons ic ics)
    have "builtin_codecs (fst (registerCustomCodec env dir ic st))"
      using Cons.prems by (cases ic; cases st) (auto simp: registerCustomCodec_def Let_def enumU16Codec_def split: option.splits intro!: builtin_register)
    then show ?case using Cons by simp
  qed simp
  moreover have "\<forall>ic \<in> set (enumerate 0 (cs_codecs s)). \<forall>t. t \<noteq> String \<longrightarrow> cdc_id (snd ic) \<noteq> idFor t"
    using assms(2) by (auto simp: in_set_enumerate_eq)
  ultimately show ?thesis using assms(1) by (simp add: registerCustomCodecs_def)
qed

definition skeleton_ok :: "ConfigSchema \<Rightarrow> Skeleton \<Rightarrow> bool" where
  "skeleton_ok s k \<longleftrightarrow>
     map (\<lambda>(t, c, n). (t, c)) (sk_sinks k) = windowConfigs s @ forwardConfigs s 0 (cs_bridges s)
   \<and> (\<forall>(t, c, n) \<in> set (sk_sinks k). n = nat (swc_size c))
   \<and> sk_bridges k = cs_bridges s
   \<and> sk_fwd k = forwardSlots s (length (windowConfigs s)) (cs_bridges s)
   \<and> sk_mirrors k = length (cs_bridges s)
   \<and> sk_dps k = zip (map dpc_id (cs_datapoints s)) [0..<length (cs_datapoints s)]
   \<and> (\<forall>h < length (cs_datapoints s). dp_wired (sk_codecs k) s (sk_spec k h) (sk_writer k h) (sk_writers k) h (cs_datapoints s ! h))
   \<and> (\<forall>t. \<forall>b \<in> set (sk_routes k t). rb_target b < length (windowConfigs s))
   \<and> set (map fst (sk_transports k)) = set (transportIds s)
   \<and> builtin_codecs (sk_codecs k)"

definition graph_ok :: "ConfigSchema \<Rightarrow> Runtime \<Rightarrow> bool" where
  "graph_ok s r = skeleton_ok s (skeleton r)"

lemma graph_ok_skeleton: "skeleton r' = skeleton r \<Longrightarrow> graph_ok s r' = graph_ok s r"
  by (simp add: graph_ok_def)

end
