(* ===== verification/Core_Built.thy ===== *)
theory Core_Built
  imports Core_Graph
begin

text \<open>
  A validated configuration builds.  The functions that build modules share a contract (skip, or
  register and then store the module), stated as the locale \<open>module_builder\<close> and interpreted on each
  of them; registering can only fail for a blank or taken id, which validation excludes.
\<close>

subsection \<open>Registering modules\<close>

definition moduleKeys :: "ModuleRegistry \<Rightarrow> qstring set" where
  "moduleKeys ms = fst ` set (modules ms)"

lemma registerOrThrow_ok:
  assumes "\<not> regStarted (run_modules r)" "\<not> blank (fm_id m)" "fm_id m \<notin> moduleKeys (run_modules r)"
  shows "\<exists>ms. registerOrThrow m r = Inr (r\<lparr>run_modules := ms\<rparr>) \<and> moduleKeys ms = insert (fm_id m) (moduleKeys (run_modules r))
    \<and> \<not> regStarted ms"
  by (rule exI[of _ "(run_modules r)\<lparr>modules := insort_key fst (fm_id m, m) (modules (run_modules r))\<rparr>"])
     (use assms in \<open>simp add: registerOrThrow_def registerModule_def moduleKeys_def map_of_eq_None_iff set_insort_key\<close>)

lemma registerOrThrow_frame: "registerOrThrow m r = Inr r' \<Longrightarrow> \<exists>ms. r' = r\<lparr>run_modules := ms\<rparr>"
  by (auto simp: registerOrThrow_def Let_def split: prod.splits if_splits)

locale module_builder =
  fixes build :: "'a \<Rightarrow> Runtime \<Rightarrow> Exception + Runtime"
    and view :: "'a \<Rightarrow> FunctionalModule"
    and skip :: "Runtime \<Rightarrow> 'a \<Rightarrow> bool"
    and put :: "'a \<Rightarrow> Runtime \<Rightarrow> Runtime"
  assumes build_step: "build x r = (if skip r x then Inr r
      else case registerOrThrow (view x) r of Inl e \<Rightarrow> Inl e | Inr r' \<Rightarrow> Inr (put x r'))"
    and put_modules: "put x (r\<lparr>run_modules := ms\<rparr>) = (put x r)\<lparr>run_modules := ms\<rparr>"
    and skip_modules: "skip (r\<lparr>run_modules := ms\<rparr>) = skip r"
    and skip_put: "skip (put x r) = skip r"
begin

abbreviation kept :: "Runtime \<Rightarrow> 'a list \<Rightarrow> 'a list" where
  "kept r xs \<equiv> filter (\<lambda>x. \<not> skip r x) xs"

lemma builds:
  assumes "distinct (map (fm_id \<circ> view) (kept r xs))" "\<And>x. x \<in> set (kept r xs) \<Longrightarrow> \<not> blank (fm_id (view x))"
    "(fm_id \<circ> view) ` set (kept r xs) \<inter> moduleKeys (run_modules r) = {}" "\<not> regStarted (run_modules r)"
  shows "\<exists>ms. foldE build xs r = Inr ((fold put (kept r xs) r)\<lparr>run_modules := ms\<rparr>)
    \<and> moduleKeys ms = moduleKeys (run_modules r) \<union> (fm_id \<circ> view) ` set (kept r xs) \<and> \<not> regStarted ms"
  using assms
proof (induction xs arbitrary: r)
  case Nil
  then show ?case by (intro exI[of _ "run_modules r"]) simp
next
  case (Cons x xs)
  show ?case
  proof (cases "skip r x")
    case True
    have "\<exists>ms. foldE build xs r = Inr ((fold put (kept r xs) r)\<lparr>run_modules := ms\<rparr>)
      \<and> moduleKeys ms = moduleKeys (run_modules r) \<union> (fm_id \<circ> view) ` set (kept r xs) \<and> \<not> regStarted ms"
      using Cons.prems True by (intro Cons.IH) auto
    moreover have "build x r = Inr r" using True by (simp add: build_step)
    ultimately show ?thesis using True by auto
  next
    case False
    obtain ms where ms: "registerOrThrow (view x) r = Inr (r\<lparr>run_modules := ms\<rparr>)"
      "moduleKeys ms = insert (fm_id (view x)) (moduleKeys (run_modules r))" "\<not> regStarted ms"
      using registerOrThrow_ok[of r "view x"] Cons.prems False by auto
    let ?r = "(put x r)\<lparr>run_modules := ms\<rparr>"
    have skips: "skip ?r = skip r" by (simp add: skip_modules skip_put)
    have "\<exists>ms'. foldE build xs ?r = Inr ((fold put (kept ?r xs) ?r)\<lparr>run_modules := ms'\<rparr>)
      \<and> moduleKeys ms' = moduleKeys (run_modules ?r) \<union> (fm_id \<circ> view) ` set (kept ?r xs) \<and> \<not> regStarted ms'"
      using Cons.prems ms False by (intro Cons.IH) (auto simp: skips)
    then obtain ms' where ms': "foldE build xs ?r = Inr ((fold put (kept r xs) ?r)\<lparr>run_modules := ms'\<rparr>)"
      "moduleKeys ms' = moduleKeys ms \<union> (fm_id \<circ> view) ` set (kept r xs)" "\<not> regStarted ms'"
      by (auto simp: skips)
    have commute: "fold put ys (r'\<lparr>run_modules := ms\<rparr>) = (fold put ys r')\<lparr>run_modules := ms\<rparr>" for ys r'
      by (induction ys arbitrary: r') (simp_all add: put_modules)
    have "build x r = Inr ?r" using False ms(1) by (simp add: build_step put_modules)
    moreover have "moduleKeys ms' = moduleKeys (run_modules r) \<union> (fm_id \<circ> view) ` set (kept r (x # xs))" using ms'(2) ms(2) False by auto
    ultimately show ?thesis using ms'(1,3) False by (auto simp: commute)
  qed
qed

end

lemma skeleton_frame [simp]:
  "skeleton (r\<lparr>run_modules := ms\<rparr>) = skeleton r" "skeleton (r\<lparr>run_heartbeats := hs\<rparr>) = skeleton r"
  "skeleton (r\<lparr>run_commands := cs\<rparr>) = skeleton r" "skeleton (r\<lparr>run_polls := ps\<rparr>) = skeleton r"
  "skeleton (r\<lparr>run_ports := pt\<rparr>) = skeleton r"
  by (simp_all add: skeleton_def)

text \<open>Modules that leave the skeleton alone: everything but sink windows and bridges.\<close>

locale quiet_builder = module_builder +
  assumes put_skeleton: "skeleton (put x r) = skeleton r"
    and put_plugins: "run_plugins (put x r) = run_plugins r"
begin

lemma builds_quietly:
  assumes "distinct (map (fm_id \<circ> view) xs)" "\<And>x. x \<in> set xs \<Longrightarrow> \<not> blank (fm_id (view x))"
    "moduleKeys (run_modules r) \<subseteq> K" "(fm_id \<circ> view) ` set xs \<inter> K = {}" "\<not> regStarted (run_modules r)"
  shows "\<exists>r'. foldE build xs r = Inr r' \<and> skeleton r' = skeleton r \<and> run_plugins r' = run_plugins r
    \<and> moduleKeys (run_modules r') \<subseteq> K \<union> (fm_id \<circ> view) ` set xs \<and> \<not> regStarted (run_modules r')"
proof -
  have fold: "skeleton (fold put ys r') = skeleton r' \<and> run_plugins (fold put ys r') = run_plugins r'" for ys r'
    by (induction ys arbitrary: r') (simp_all add: put_skeleton put_plugins)
  have "distinct (map (fm_id \<circ> view) (kept r xs))" using assms(1) by (rule distinct_map_filter)
  moreover have "(fm_id \<circ> view) ` set (kept r xs) \<inter> moduleKeys (run_modules r) = {}" using assms(3,4) by auto
  ultimately obtain ms where ms: "foldE build xs r = Inr ((fold put (kept r xs) r)\<lparr>run_modules := ms\<rparr>)"
    "moduleKeys ms = moduleKeys (run_modules r) \<union> (fm_id \<circ> view) ` set (kept r xs)" "\<not> regStarted ms"
    using builds[of r xs] assms(2,5) by auto
  show ?thesis using ms fold[of "kept r xs" r] assms(3) by (intro exI conjI, fastforce+)
qed

end

definition putSink :: "qstring \<Rightarrow> SinkConfig \<Rightarrow> Runtime \<Rightarrow> Runtime" where
  "putSink tr conf r = r\<lparr>run_sinks := run_sinks r @ [(tr, sinkWindow conf)]\<rparr>"

definition windowView :: "SinkWindowConfig \<Rightarrow> FunctionalModule" where
  "windowView w = moduleView (win_moduleId w) (win_transport w) (sinkTickPeriodMs (sinkWindow (sinkConfigOf w)))"

interpretation windows: module_builder buildSinkWindow windowView "\<lambda>r w. \<not> hasTransport r (win_transport w)"
  "\<lambda>w. putSink (win_transport w) (sinkConfigOf w)"
  by unfold_locales (auto simp: buildSinkWindow_def pushSink_def windowView_def putSink_def hasTransport_def sinkConfigOf_def Let_def
      split: sum.splits)

definition putHeartbeat :: "HeartbeatSection \<Rightarrow> Runtime \<Rightarrow> Runtime" where
  "putHeartbeat hc r = r\<lparr>run_heartbeats := run_heartbeats r @ [(hbs_transport hc,
     heartbeat \<lparr>hbc_moduleId = hbs_moduleId hc, hbc_table = tableFromString (hbs_table hc), hbc_address = hbs_address hc,
       hbc_values = hbs_values hc, hbc_periodMs = hbs_periodMs hc, hbc_priority = hbs_priority hc\<rparr>)]\<rparr>"

interpretation heartbeats: quiet_builder buildHeartbeat "\<lambda>h. moduleView (hbs_moduleId h) (hbs_transport h) (hbs_periodMs h)"
  "\<lambda>r h. \<not> hasTransport r (hbs_transport h)" putHeartbeat
  by unfold_locales (auto simp: buildHeartbeat_def putHeartbeat_def hasTransport_def Let_def split: sum.splits)

interpretation ackWatches: quiet_builder buildAckWatch "\<lambda>a. moduleView (aw_moduleId a) [] 0" "\<lambda>r a. False" "\<lambda>a r. r"
  by unfold_locales (auto simp: buildAckWatch_def split: sum.splits)

definition putCommand :: "CommandSection \<Rightarrow> Runtime \<Rightarrow> Runtime" where
  "putCommand cc r = r\<lparr>run_commands := run_commands r @ [(cms_transport cc,
     \<lparr>cmd_moduleId = cms_moduleId cc, cmd_priority = cms_priority cc, cmd_interruptable = cms_interruptable cc,
      cmd_writes = map (\<lambda>w. \<lparr>ce_table = tableFromString (cwe_table w), ce_address = cwe_address w, ce_value = cwe_value w\<rparr>) (cms_writes cc)\<rparr>)]\<rparr>"

interpretation cmds: quiet_builder buildCommand "\<lambda>c. moduleView (cms_moduleId c) (cms_transport c) 0"
  "\<lambda>r c. \<not> hasTransport r (cms_transport c)" putCommand
  by unfold_locales (auto simp: buildCommand_def putCommand_def hasTransport_def Let_def split: sum.splits)

definition putPoll :: "ConfigSchema \<Rightarrow> PollRangeConfig \<Rightarrow> Runtime \<Rightarrow> Runtime" where
  "putPoll s pc r = r\<lparr>run_polls := run_polls r @ [wireBindings s r (prg_transport pc)
     (pollRange (prg_moduleId pc) (prg_transport pc) \<lparr>rd_table = tableFromString (prg_table pc), rd_startAddress = prg_startAddress pc,
        rd_count = prg_count pc\<rparr> (prg_periodMs pc) (prg_priority pc) True)]\<rparr>"

lemma wireBindings_modules [simp]: "wireBindings s (r\<lparr>run_modules := ms\<rparr>) = wireBindings s r"
  by (simp add: wireBindings_def fun_eq_iff cong: if_cong)

interpretation polls: quiet_builder "buildPollRange s" "\<lambda>p. moduleView (prg_moduleId p) (prg_transport p) (prg_periodMs p)"
  "\<lambda>r p. \<not> hasTransport r (prg_transport p)" "putPoll s" for s
proof unfold_locales
  fix x r
  show "buildPollRange s x r = (if \<not> hasTransport r (prg_transport x) then Inr r
      else case registerOrThrow (moduleView (prg_moduleId x) (prg_transport x) (prg_periodMs x)) r of Inl e \<Rightarrow> Inl e | Inr r' \<Rightarrow> Inr (putPoll s x r'))"
    by (auto simp: buildPollRange_def putPoll_def Let_def split: sum.splits dest!: registerOrThrow_frame)
qed (auto simp: putPoll_def hasTransport_def)

definition putForward :: "nat \<times> BridgeConfig \<Rightarrow> Runtime \<Rightarrow> Runtime" where
  "putForward ib r = (putSink (br_plc (snd ib)) (forwardConfig (fst ib) (snd ib)) r)
     \<lparr>run_fwdSinks := (run_fwdSinks r)[fst ib := Some (length (run_sinks r))]\<rparr>"

definition forwardView :: "nat \<times> BridgeConfig \<Rightarrow> FunctionalModule" where
  "forwardView ib = moduleView (forwardId (fst ib) (snd ib)) (br_plc (snd ib)) (sinkTickPeriodMs (sinkWindow (forwardConfig (fst ib) (snd ib))))"

interpretation bridges: module_builder buildBridge forwardView
  "\<lambda>r ib. \<not> (0 < br_writeCount (snd ib) \<and> hasTransport r (br_plc (snd ib)))" putForward
proof unfold_locales
  fix x r
  show "buildBridge x r = (if \<not> (0 < br_writeCount (snd x) \<and> hasTransport r (br_plc (snd x))) then Inr r
      else case registerOrThrow (forwardView x) r of Inl e \<Rightarrow> Inl e | Inr r' \<Rightarrow> Inr (putForward x r'))"
    by (cases x) (auto simp: buildBridge_def pushSink_def forwardView_def putForward_def putSink_def Let_def forwardConfig_def
        split: sum.splits dest!: registerOrThrow_frame)
qed (auto simp: putForward_def putSink_def hasTransport_def)

subsection \<open>What each build adds\<close>

lemma fold_putSink:
  "fold (\<lambda>w. putSink (win_transport w) (sinkConfigOf w)) ws r
     = r\<lparr>run_sinks := run_sinks r @ map (\<lambda>w. (win_transport w, sinkWindow (sinkConfigOf w))) ws\<rparr>"
  by (induction ws arbitrary: r) (simp_all add: putSink_def)

text \<open>Bridges from number \<open>i\<close> on, the earlier slots being filled.\<close>

lemma fold_putForward:
  fixes s :: ConfigSchema
  assumes "run_fwdSinks r = done @ replicate (length bs) None" "i = length done"
  shows "fold putForward (filter (\<lambda>ib. forwards s (snd ib)) (enumerate i bs)) r
    = r\<lparr>run_sinks := run_sinks r @ map (\<lambda>(t, c). (t, sinkWindow c)) (forwardConfigs s i bs),
        run_fwdSinks := done @ forwardSlots s (length (run_sinks r)) bs\<rparr>"
  using assms
proof (induction bs arbitrary: r i "done")
  case (Cons b bs)
  let ?slot = "if forwards s b then Some (length (run_sinks r)) else None"
  let ?r = "if forwards s b then putForward (i, b) r else r"
  have fwd: "run_fwdSinks ?r = (done @ [?slot]) @ replicate (length bs) None" "Suc i = length (done @ [?slot])"
    using Cons.prems by (auto simp: putForward_def list_update_append)
  have sinks: "run_sinks ?r = run_sinks r @ (if forwards s b then [(br_plc b, sinkWindow (forwardConfig i b))] else [])"
    by (simp add: putForward_def putSink_def)
  have "fold putForward (filter (\<lambda>ib. forwards s (snd ib)) (enumerate i (b # bs))) r
    = fold putForward (filter (\<lambda>ib. forwards s (snd ib)) (enumerate (Suc i) bs)) ?r" by simp
  also have "\<dots> = ?r\<lparr>run_sinks := run_sinks ?r @ map (\<lambda>(t, c). (t, sinkWindow c)) (forwardConfigs s (Suc i) bs),
        run_fwdSinks := (done @ [?slot]) @ forwardSlots s (length (run_sinks ?r)) bs\<rparr>"
    by (rule Cons.IH [OF fwd])
  also have "\<dots> = r\<lparr>run_sinks := run_sinks r @ map (\<lambda>(t, c). (t, sinkWindow c)) (forwardConfigs s i (b # bs)),
        run_fwdSinks := done @ forwardSlots s (length (run_sinks r)) (b # bs)\<rparr>"
    unfolding sinks by (simp add: putForward_def putSink_def)
  finally show ?case .
qed simp

definition targetsBelow :: "nat \<Rightarrow> (qstring \<Rightarrow> ServerRouteBinding list) \<Rightarrow> bool" where
  "targetsBelow n rts \<longleftrightarrow> (\<forall>t. \<forall>b \<in> set (rts t). rb_target b < n)"

lemma routeTarget_less: "routeTarget r sink = Some k \<Longrightarrow> k < length (run_sinks r)"
  by (auto simp: routeTarget_def Let_def find_Some_iff split: if_splits)

lemma buildServerRoute_cases:
  obtains "buildServerRoute rt r = r"
  | b t where "buildServerRoute rt r = r\<lparr>run_routes := (run_routes r)(t := run_routes r t @ [b])\<rparr>" "rb_target b < length (run_sinks r)"
proof -
  have "buildServerRoute rt r = r \<or> (\<exists>t b. buildServerRoute rt r = r\<lparr>run_routes := (run_routes r)(t := run_routes r t @ [b])\<rparr>
      \<and> rb_target b < length (run_sinks r))"
    unfolding buildServerRoute_def by (auto split: option.splits dest!: routeTarget_less intro!: exI)
  then show ?thesis using that by blast
qed

lemma buildServerRoute_keeps:
  "\<exists>rts. buildServerRoute rt r = r\<lparr>run_routes := rts\<rparr> \<and> (targetsBelow (length (run_sinks r)) (run_routes r) \<longrightarrow> targetsBelow (length (run_sinks r)) rts)"
proof (cases rule: buildServerRoute_cases[of rt r])
  case 1 then show ?thesis by (intro exI[of _ "run_routes r"]) simp
next
  case (2 b t)
  then show ?thesis by (intro exI[of _ "(run_routes r)(t := run_routes r t @ [b])"]) (auto simp: targetsBelow_def)
qed

lemma fold_buildServerRoute:
  "targetsBelow (length (run_sinks r)) (run_routes r)
     \<Longrightarrow> \<exists>rts. fold buildServerRoute rs r = r\<lparr>run_routes := rts\<rparr> \<and> targetsBelow (length (run_sinks r)) rts"
proof (induction rs arbitrary: r)
  case Nil then show ?case by (intro exI[of _ "run_routes r"]) simp
next
  case (Cons rt rs)
  obtain rts where rts: "buildServerRoute rt r = r\<lparr>run_routes := rts\<rparr>" "targetsBelow (length (run_sinks r)) rts"
    using buildServerRoute_keeps[of rt r] Cons.prems by blast
  then show ?case using Cons.IH[of "r\<lparr>run_routes := rts\<rparr>"] by auto
qed

lemma buildServerRoutes_result:
  "\<exists>rts. buildServerRoutes s r = r\<lparr>run_routes := rts\<rparr> \<and> targetsBelow (length (run_sinks r)) rts"
  using fold_buildServerRoute[of "r\<lparr>run_routes := (\<lambda>_. [])\<rparr>" "cs_routes s"] by (auto simp: buildServerRoutes_def targetsBelow_def)

lemma buildDatapoint_ok:
  assumes "\<not> blank (dpc_id dc)" "dpc_id dc \<notin> fst ` set (run_dps r)"
  shows "\<exists>d ws. buildDatapoint s dc r = Inr (r\<lparr>run_store := (run_store r)(run_dpCount r := d), run_dpCount := Suc (run_dpCount r),
      run_dps := run_dps r @ [(dpc_id dc, run_dpCount r)], run_writers := run_writers r @ ws\<rparr>)
    \<and> dp_wired (run_codecs r) s (dp_spec d) (dp_writer d) (run_writers r @ ws) (run_dpCount r) dc"
proof -
  let ?sp = "datapointSpec (run_codecs r) s dc"
  have id: "spec_id ?sp = dpc_id dc" by (simp add: datapointSpec_def)
  show ?thesis
  proof (cases "wantsWriter ?sp")
    case True
    then obtain ref where "spec_sink ?sp = Some ref" by (auto simp: wantsWriter_def split: option.splits)
    with True show ?thesis using assms id
      by (intro exI[of _ "setWriter (Some (length (run_writers r))) (newDatapoint ?sp)"] exI[of _ "[(run_dpCount r, ref_window ref)]"])
         (auto simp: buildDatapoint_def registerDp_def newDatapoint_def setWriter_def dp_wired_def Let_def map_of_eq_None_iff)
  next
    case False
    then show ?thesis using assms id
      by (intro exI[of _ "newDatapoint ?sp"] exI[of _ "[]"])
         (auto simp: buildDatapoint_def registerDp_def newDatapoint_def dp_wired_def Let_def map_of_eq_None_iff split: option.splits)
  qed
qed

lemma foldE_buildDatapoint:
  assumes "distinct (map dpc_id ds)" "\<And>d. d \<in> set ds \<Longrightarrow> \<not> blank (dpc_id d)" "dpc_id ` set ds \<inter> fst ` set (run_dps r) = {}"
  shows "\<exists>store ws. foldE (buildDatapoint s) ds r = Inr (r\<lparr>run_store := store, run_dpCount := run_dpCount r + length ds,
      run_dps := run_dps r @ zip (map dpc_id ds) [run_dpCount r..<run_dpCount r + length ds], run_writers := run_writers r @ ws\<rparr>)
    \<and> (\<forall>h < run_dpCount r. store h = run_store r h)
    \<and> (\<forall>j < length ds. let h = run_dpCount r + j in
         dp_wired (run_codecs r) s (dp_spec (store h)) (dp_writer (store h)) (run_writers r @ ws) h (ds ! j))"
  using assms
proof (induction ds arbitrary: r)
  case Nil then show ?case by (intro exI[of _ "run_store r"] exI[of _ "[]"]) simp
next
  case (Cons dc ds)
  let ?n = "run_dpCount r"
  obtain d ws where d: "buildDatapoint s dc r = Inr (r\<lparr>run_store := (run_store r)(?n := d), run_dpCount := Suc ?n,
      run_dps := run_dps r @ [(dpc_id dc, ?n)], run_writers := run_writers r @ ws\<rparr>)"
    "dp_wired (run_codecs r) s (dp_spec d) (dp_writer d) (run_writers r @ ws) ?n dc"
    using buildDatapoint_ok[of dc r s] Cons.prems by auto
  let ?r = "r\<lparr>run_store := (run_store r)(?n := d), run_dpCount := Suc ?n, run_dps := run_dps r @ [(dpc_id dc, ?n)],
      run_writers := run_writers r @ ws\<rparr>"
  obtain store ws' where IH: "foldE (buildDatapoint s) ds ?r = Inr (?r\<lparr>run_store := store, run_dpCount := run_dpCount ?r + length ds,
      run_dps := run_dps ?r @ zip (map dpc_id ds) [run_dpCount ?r..<run_dpCount ?r + length ds], run_writers := run_writers ?r @ ws'\<rparr>)"
    "\<forall>h < run_dpCount ?r. store h = run_store ?r h"
    "\<forall>j < length ds. let h = run_dpCount ?r + j in
         dp_wired (run_codecs ?r) s (dp_spec (store h)) (dp_writer (store h)) (run_writers ?r @ ws') h (ds ! j)"
    using Cons.IH[of ?r] Cons.prems by auto
  have ups: "[?n..<Suc (?n + length ds)] = ?n # [Suc ?n..<Suc (?n + length ds)]" by (rule upt_conv_Cons) simp
  have "dp_wired (run_codecs r) s (dp_spec (store (?n + j))) (dp_writer (store (?n + j))) (run_writers r @ ws @ ws') (?n + j) ((dc # ds) ! j)"
    if "j < length (dc # ds)" for j
    using that IH(2,3) dp_wired_append[OF d(2), of ws'] by (cases j) (auto simp: Let_def)
  then show ?case using d(1) IH(1,2) by (intro exI[of _ store] exI[of _ "ws @ ws'"]) (simp add: ups Let_def del: upt_Suc)
qed

subsection \<open>Ids of a validated configuration\<close>

lemma qarg_head: "c \<noteq> CHR ''%'' \<Longrightarrow> \<exists>t'. qarg (c # t) a = c # t'"
  by (auto simp: qarg_def replace_marker.simps[of _ _ "c # t"] split: option.splits)

lemma forwardId_not_blank: "\<not> blank (forwardId i b)"
proof -
  obtain t where t: "qarg ''bridge.fwd.%1.%2'' (br_server b) = CHR ''b'' # t" using qarg_head[of "CHR ''b''"] by auto
  obtain t' where "forwardId i b = CHR ''b'' # t'" unfolding forwardId_def t using qarg_head[of "CHR ''b''"] by auto
  then show ?thesis by (simp add: blank_def trimmed_def is_space_def)
qed

lemma ids_not_blank:
  assumes "validateValues env s = []"
  shows "w \<in> set (cs_sinkWindows s) \<Longrightarrow> \<not> blank (win_moduleId w)" "p \<in> set (cs_pollRanges s) \<Longrightarrow> \<not> blank (prg_moduleId p)"
    "h \<in> set (cs_heartbeats s) \<Longrightarrow> \<not> blank (hbs_moduleId h)" "a \<in> set (cs_ackWatches s) \<Longrightarrow> \<not> blank (aw_moduleId a)"
    "c \<in> set (cs_commands s) \<Longrightarrow> \<not> blank (cms_moduleId c)" "d \<in> set (cs_datapoints s) \<Longrightarrow> \<not> blank (dpc_id d)"
  using assms
  by (auto simp: validateValues_def for_each_indexed_empty_iff in_set_conv_nth validateSinkWindow_def validatePollRange_def
      validateHeartbeat_def validateAckWatch_def validateCommand_def validateDatapoint_def requireId_def Let_def)

definition forwardIds :: "ConfigSchema \<Rightarrow> qstring list" where
  "forwardIds s = map (fm_id \<circ> forwardView) (filter (\<lambda>ib. 0 < br_writeCount (snd ib)) (enumerate 0 (cs_bridges s)))"

lemma moduleIds_split:
  "moduleIds s = map prg_moduleId (cs_pollRanges s) @ map win_moduleId (cs_sinkWindows s) @ map hbs_moduleId (cs_heartbeats s)
     @ map aw_moduleId (cs_ackWatches s) @ map cms_moduleId (cs_commands s) @ forwardIds s"
proof -
  have "concat (map (\<lambda>(i, b). if 0 < br_writeCount b then [forwardId i b] else []) xs)
    = map (fm_id \<circ> forwardView) (filter (\<lambda>ib. 0 < br_writeCount (snd ib)) xs)" for xs
    by (induction xs) (auto simp: forwardView_def moduleView_def)
  then show ?thesis by (simp add: moduleIds_def forwardIds_def for_each_indexed_def)
qed

lemma buildTransports_ids: "fst ` set (buildTransports tcs m) = fst ` set m \<union> tp_id ` set tcs"
proof (induction tcs arbitrary: m)
  case Nil then show ?case by (simp add: buildTransports_def)
next
  case (Cons tc tcs)
  let ?m = "if map_of m (tp_id tc) \<noteq> None then m else insort_key fst (tp_id tc, makeTransport tc) m"
  have "fst ` set ?m = insert (tp_id tc) (fst ` set m)"
  proof (cases "tp_id tc \<in> fst ` set m")
    case True then show ?thesis by (simp add: map_of_eq_None_iff insert_absorb)
  next
    case False then show ?thesis by (simp add: map_of_eq_None_iff set_insort_key)
  qed
  moreover have "buildTransports (tc # tcs) m = buildTransports tcs ?m" by (simp add: buildTransports_def)
  ultimately show ?case using Cons.IH[of ?m] by simp
qed

lemma hasTransport_iff: "hasTransport r i \<longleftrightarrow> i \<in> fst ` set (sk_transports (skeleton r))"
  by (auto simp: hasTransport_def skeleton_def map_of_eq_None_iff)

subsection \<open>The whole build\<close>

text \<open>The runtime before \<open>wireFromSchema\<close>: codecs registered, plugin libraries loaded.\<close>

definition preparedRuntime :: "CodecRegistry \<Rightarrow> PluginRegistry \<Rightarrow> Runtime" where
  "preparedRuntime codecs ps = initialRuntime\<lparr>run_codecs := codecs, run_plugins := ps\<rparr>"

definition wellBehaved :: "Plugin \<Rightarrow> bool" where
  "wellBehaved p \<longleftrightarrow> snd (plug_registerPorts p) = None \<and> snd (plug_onInitialized p) = None"

lemma registerAllPorts_ok: "\<forall>p \<in> set ps. wellBehaved p \<Longrightarrow> fst (registerAllPorts ps reg) = None"
  by (induction ps arbitrary: reg) (auto simp: wellBehaved_def case_prod_beta Let_def)

lemma foldE_initializePlugin:
  "\<forall>p \<in> set ps. wellBehaved p \<Longrightarrow> \<exists>r'. foldE (initializePlugin env) ps r = Inr r' \<and> skeleton r' = skeleton r"
proof (induction ps arbitrary: r)
  case (Cons p ps)
  let ?r = "fold (portWrite env) (fst (plug_onInitialized p)) r"
  have "initializePlugin env p r = Inr ?r" using Cons.prems by (simp add: initializePlugin_def wellBehaved_def case_prod_beta Let_def)
  moreover have "skeleton ?r = skeleton r" by (rule skeleton_fold) simp
  moreover obtain r' where "foldE (initializePlugin env) ps ?r = Inr r'" "skeleton r' = skeleton ?r" using Cons by auto
  ultimately show ?case by simp
qed simp

lemma initializePlugins_ok:
  assumes "\<forall>p \<in> set (allPlugins (run_plugins r)). wellBehaved p"
  shows "\<exists>r'. initializePlugins env r = Inr r' \<and> skeleton r' = skeleton r"
proof (cases "allPlugins (run_plugins r) = []")
  case True then show ?thesis by (simp add: initializePlugins_def)
next
  case False
  obtain ports where ports: "registerAllPorts (allPlugins (run_plugins r)) portRegistry = (None, ports)"
    using registerAllPorts_ok[OF assms] by (metis prod.collapse)
  obtain r' where "foldE (initializePlugin env) (allPlugins (run_plugins r)) (r\<lparr>run_ports := Some ports\<rparr>) = Inr r'"
    "skeleton r' = skeleton (r\<lparr>run_ports := Some ports\<rparr>)" using foldE_initializePlugin[OF assms] by blast
  then show ?thesis using False ports by (simp add: initializePlugins_def)
qed

lemma buildBridges_ok:
  assumes "distinct (forwardIds s)" "fst ` set (run_transports r) = set (transportIds s)" "\<not> regStarted (run_modules r)"
    "set (forwardIds s) \<inter> moduleKeys (run_modules r) = {}"
  shows "\<exists>ms. buildBridges s r = Inr (r\<lparr>run_sinks := run_sinks r @ map (\<lambda>(t, c). (t, sinkWindow c)) (forwardConfigs s 0 (cs_bridges s)),
     run_fwdSinks := forwardSlots s (length (run_sinks r)) (cs_bridges s), run_bridges := cs_bridges s,
     run_mirrors := replicate (length (cs_bridges s)) newMirrorState, run_modules := ms\<rparr>)"
proof -
  let ?n = "length (cs_bridges s)"
  let ?r = "r\<lparr>run_bridges := cs_bridges s, run_mirrors := replicate ?n newMirrorState, run_fwdSinks := replicate ?n None\<rparr>"
  let ?kept = "bridges.kept ?r (enumerate 0 (cs_bridges s))"
  have kept: "?kept = filter (\<lambda>ib. forwards s (snd ib)) (enumerate 0 (cs_bridges s))"
    using assms(2) by (intro filter_cong) (auto simp: forwards_def hasTransport_def map_of_eq_None_iff)
  have sub: "?kept = filter (\<lambda>ib. forwards s (snd ib)) (filter (\<lambda>ib. 0 < br_writeCount (snd ib)) (enumerate 0 (cs_bridges s)))"
    unfolding kept filter_filter by (intro filter_cong) (auto simp: forwards_def)
  have "distinct (map (fm_id \<circ> forwardView) ?kept)" unfolding sub using assms(1) unfolding forwardIds_def by (rule distinct_map_filter)
  moreover have "\<not> blank (fm_id (forwardView ib))" for ib by (simp add: forwardView_def moduleView_def forwardId_not_blank)
  moreover have "(fm_id \<circ> forwardView) ` set ?kept \<inter> moduleKeys (run_modules ?r) = {}"
    unfolding sub using assms(4) by (auto simp: forwardIds_def)
  ultimately obtain ms where ms: "foldE buildBridge (enumerate 0 (cs_bridges s)) ?r = Inr ((fold putForward ?kept ?r)\<lparr>run_modules := ms\<rparr>)"
    using bridges.builds[of ?r "enumerate 0 (cs_bridges s)"] assms(3) by auto
  have "fold putForward ?kept ?r = ?r\<lparr>run_sinks := run_sinks ?r @ map (\<lambda>(t, c). (t, sinkWindow c)) (forwardConfigs s 0 (cs_bridges s)),
        run_fwdSinks := [] @ forwardSlots s (length (run_sinks ?r)) (cs_bridges s)\<rparr>"
    unfolding kept by (rule fold_putForward) auto
  then show ?thesis using ms by (intro exI[of _ ms]) (simp add: buildBridges_def)
qed

text \<open>The skeleton before the bridges are built.\<close>

definition unbridged_ok :: "ConfigSchema \<Rightarrow> Skeleton \<Rightarrow> bool" where
  "unbridged_ok s k \<longleftrightarrow>
     map (\<lambda>(t, c, n). (t, c)) (sk_sinks k) = windowConfigs s
   \<and> (\<forall>(t, c, n) \<in> set (sk_sinks k). n = nat (swc_size c))
   \<and> sk_dps k = zip (map dpc_id (cs_datapoints s)) [0..<length (cs_datapoints s)]
   \<and> (\<forall>h < length (cs_datapoints s). dp_wired (sk_codecs k) s (sk_spec k h) (sk_writer k h) (sk_writers k) h (cs_datapoints s ! h))
   \<and> targetsBelow (length (windowConfigs s)) (sk_routes k)
   \<and> set (map fst (sk_transports k)) = set (transportIds s)
   \<and> builtin_codecs (sk_codecs k)"

lemma sinkShape_new: "sinkShape (t, sinkWindow c) = (t, c, nat (swc_size c))"
  by (simp add: sinkShape_def sinkWindow_def Let_def)

lemma shapes_new:
  "map (\<lambda>(t, c, n). (t, c)) (map sinkShape (map (\<lambda>(t, c). (t, sinkWindow c)) cs)) = cs"
  "\<forall>(t, c, n) \<in> set (map sinkShape (map (\<lambda>(t, c). (t, sinkWindow c)) cs)). n = nat (swc_size c)"
  by (induction cs) (auto simp: sinkShape_new)

lemma bridged_ok:
  assumes "unbridged_ok s (skeleton r)"
  shows "graph_ok s (r\<lparr>run_sinks := run_sinks r @ map (\<lambda>(t, c). (t, sinkWindow c)) (forwardConfigs s 0 (cs_bridges s)),
     run_fwdSinks := forwardSlots s (length (run_sinks r)) (cs_bridges s), run_bridges := cs_bridges s,
     run_mirrors := replicate (length (cs_bridges s)) newMirrorState, run_modules := ms\<rparr>)"
proof -
  have "length (run_sinks r) = length (windowConfigs s)"
    using assms by (metis (no_types, lifting) length_map unbridged_ok_def skeleton_def Skeleton.select_convs(1))
  then show ?thesis using assms shapes_new[of "forwardConfigs s 0 (cs_bridges s)"]
    by (simp add: graph_ok_def skeleton_ok_def unbridged_ok_def skeleton_def targetsBelow_def ball_Un)
qed

lemma build_front:
  assumes v: "validate lenv s = []" and codecs: "builtin_codecs codecs"
  shows "\<exists>r1 r2. foldE buildSinkWindow (cs_sinkWindows s)
        ((preparedRuntime codecs ps)\<lparr>run_transports := buildTransports (cs_transports s) (run_transports (preparedRuntime codecs ps))\<rparr>) = Inr r1
     \<and> foldE (buildDatapoint s) (cs_datapoints s) r1 = Inr r2
     \<and> unbridged_ok s (skeleton r2) \<and> run_plugins r2 = ps \<and> \<not> regStarted (run_modules r2)
     \<and> moduleKeys (run_modules r2) \<subseteq> set (map win_moduleId (cs_sinkWindows s))"
proof -
  let ?r0 = "(preparedRuntime codecs ps)\<lparr>run_transports := buildTransports (cs_transports s) (run_transports (preparedRuntime codecs ps))\<rparr>"
  note vals = validate_parts(1)[OF v] and d = validate_parts(4)[OF v, unfolded moduleIds_split]
  have has: "hasTransport ?r0 i \<longleftrightarrow> i \<in> set (transportIds s)" for i
    by (simp add: hasTransport_iff skeleton_def buildTransports_ids preparedRuntime_def initialRuntime_def transportIds_def)
  have base: "\<not> regStarted (run_modules ?r0)" "moduleKeys (run_modules ?r0) = {}"
    by (simp_all add: preparedRuntime_def initialRuntime_def moduleRegistry_def moduleKeys_def)
  have view: "fm_id \<circ> windowView = win_moduleId" by (simp add: windowView_def moduleView_def fun_eq_iff)
  have "distinct (map win_moduleId (windows.kept ?r0 (cs_sinkWindows s)))" using d by (intro distinct_map_filter) simp
  then obtain ms where ms: "foldE buildSinkWindow (cs_sinkWindows s) ?r0
      = Inr ((fold (\<lambda>w. putSink (win_transport w) (sinkConfigOf w)) (windows.kept ?r0 (cs_sinkWindows s)) ?r0)\<lparr>run_modules := ms\<rparr>)"
    "moduleKeys ms \<subseteq> set (map win_moduleId (cs_sinkWindows s))" "\<not> regStarted ms"
    using windows.builds[of ?r0 "cs_sinkWindows s"] base ids_not_blank(1)[OF vals] unfolding view
    by (fastforce simp: windowView_def moduleView_def)
  let ?sinks = "map (\<lambda>(t, c). (t, sinkWindow c)) (windowConfigs s)"
  define r1 where "r1 = ?r0\<lparr>run_sinks := ?sinks, run_modules := ms\<rparr>"
  have r1: "foldE buildSinkWindow (cs_sinkWindows s) ?r0 = Inr r1"
    unfolding ms(1) fold_putSink r1_def has by (simp add: windowConfigs_def comp_def preparedRuntime_def initialRuntime_def)
  let ?ds = "cs_datapoints s"
  have fresh: "run_dpCount r1 = 0" "run_dps r1 = []" "run_writers r1 = []"
    by (simp_all add: r1_def preparedRuntime_def initialRuntime_def)
  obtain store ws where dps: "foldE (buildDatapoint s) ?ds r1 = Inr (r1\<lparr>run_store := store, run_dpCount := length ?ds,
      run_dps := zip (map dpc_id ?ds) [0..<length ?ds], run_writers := ws\<rparr>)"
    "\<forall>j < length ?ds. dp_wired (run_codecs r1) s (dp_spec (store j)) (dp_writer (store j)) ws j (?ds ! j)"
    using foldE_buildDatapoint[of ?ds r1 s] validate_parts(5)[OF v] ids_not_blank(6)[OF vals] fresh by (auto simp: Let_def)
  have "unbridged_ok s (skeleton (r1\<lparr>run_store := store, run_dpCount := length ?ds,
      run_dps := zip (map dpc_id ?ds) [0..<length ?ds], run_writers := ws\<rparr>))"
    using dps(2) shapes_new[of "windowConfigs s"] codecs
    by (simp add: unbridged_ok_def skeleton_def r1_def targetsBelow_def preparedRuntime_def initialRuntime_def buildTransports_ids
        transportIds_def)
  then show ?thesis using r1 dps(1) ms(2,3) by (auto simp: r1_def preparedRuntime_def)
qed

lemma fm_id_moduleView [simp]: "fm_id (moduleView i t n) = i"
  by (simp add: moduleView_def)

lemma build_polls_and_routes:
  assumes v: "validate lenv s = []" and r: "\<not> regStarted (run_modules r)" "moduleKeys (run_modules r) \<subseteq> set (map win_moduleId (cs_sinkWindows s))"
    "unbridged_ok s (skeleton r)"
  obtains r3 where "foldE (buildPollRange s) (cs_pollRanges s) r = Inr r3" "unbridged_ok s (skeleton (buildServerRoutes s r3))"
    "run_plugins (buildServerRoutes s r3) = run_plugins r" "\<not> regStarted (run_modules (buildServerRoutes s r3))"
    "moduleKeys (run_modules (buildServerRoutes s r3)) \<subseteq> set (map win_moduleId (cs_sinkWindows s)) \<union> prg_moduleId ` set (cs_pollRanges s)"
proof -
  note vals = validate_parts(1)[OF v] and d = validate_parts(4)[OF v, unfolded moduleIds_split]
  have "distinct (map prg_moduleId (cs_pollRanges s))" "prg_moduleId ` set (cs_pollRanges s) \<inter> set (map win_moduleId (cs_sinkWindows s)) = {}"
    using d by auto
  then obtain r3 where r3: "foldE (buildPollRange s) (cs_pollRanges s) r = Inr r3" "skeleton r3 = skeleton r" "run_plugins r3 = run_plugins r"
    "moduleKeys (run_modules r3) \<subseteq> set (map win_moduleId (cs_sinkWindows s)) \<union> prg_moduleId ` set (cs_pollRanges s)"
    "\<not> regStarted (run_modules r3)"
    using polls.builds_quietly[of "cs_pollRanges s" r "set (map win_moduleId (cs_sinkWindows s))" s] ids_not_blank(2)[OF vals] r(1,2)
    by (auto simp: comp_def)
  obtain rts where rts: "buildServerRoutes s r3 = r3\<lparr>run_routes := rts\<rparr>" "targetsBelow (length (run_sinks r3)) rts"
    using buildServerRoutes_result by blast
  have "length (run_sinks r3) = length (windowConfigs s)"
    using r(3) r3(2) by (metis (no_types, lifting) length_map unbridged_ok_def skeleton_def Skeleton.select_convs(1))
  then have "unbridged_ok s (skeleton (buildServerRoutes s r3))"
    using r(3) rts unfolding r3(2)[symmetric] by (simp add: unbridged_ok_def skeleton_def)
  then show ?thesis using that[OF r3(1)] r3 rts(1) by simp
qed

lemma build_quiet:
  assumes v: "validate lenv s = []" and r: "\<not> regStarted (run_modules r)"
    "moduleKeys (run_modules r) \<subseteq> set (map win_moduleId (cs_sinkWindows s)) \<union> prg_moduleId ` set (cs_pollRanges s)"
  obtains r4 r5 r6 where "foldE buildHeartbeat (cs_heartbeats s) r = Inr r4" "foldE buildAckWatch (cs_ackWatches s) r4 = Inr r5"
    "foldE buildCommand (cs_commands s) r5 = Inr r6" "skeleton r6 = skeleton r" "run_plugins r6 = run_plugins r" "\<not> regStarted (run_modules r6)"
    "set (forwardIds s) \<inter> moduleKeys (run_modules r6) = {}"
proof -
  note vals = validate_parts(1)[OF v] and d = validate_parts(4)[OF v, unfolded moduleIds_split]
  let ?H = "hbs_moduleId ` set (cs_heartbeats s)" and ?A = "aw_moduleId ` set (cs_ackWatches s)" and ?C = "cms_moduleId ` set (cs_commands s)"
  define K where "K = set (map win_moduleId (cs_sinkWindows s)) \<union> prg_moduleId ` set (cs_pollRanges s)"
  have disj: "?H \<inter> K = {}" "?A \<inter> (K \<union> ?H) = {}" "?C \<inter> (K \<union> ?H \<union> ?A) = {}" "set (forwardIds s) \<inter> (K \<union> ?H \<union> ?A \<union> ?C) = {}"
    using d by (auto simp: K_def)
  have dist: "distinct (map hbs_moduleId (cs_heartbeats s))" "distinct (map aw_moduleId (cs_ackWatches s))" "distinct (map cms_moduleId (cs_commands s))"
    using d by simp_all
  have K: "moduleKeys (run_modules r) \<subseteq> K" using r(2) by (simp add: K_def)
  obtain r4 where r4: "foldE buildHeartbeat (cs_heartbeats s) r = Inr r4" "skeleton r4 = skeleton r" "run_plugins r4 = run_plugins r"
    "moduleKeys (run_modules r4) \<subseteq> K \<union> ?H" "\<not> regStarted (run_modules r4)"
    using heartbeats.builds_quietly[unfolded comp_def fm_id_moduleView, OF dist(1) ids_not_blank(3)[OF vals] K disj(1) r(1)] by blast
  obtain r5 where r5: "foldE buildAckWatch (cs_ackWatches s) r4 = Inr r5" "skeleton r5 = skeleton r4" "run_plugins r5 = run_plugins r4"
    "moduleKeys (run_modules r5) \<subseteq> K \<union> ?H \<union> ?A" "\<not> regStarted (run_modules r5)"
    using ackWatches.builds_quietly[unfolded comp_def fm_id_moduleView, OF dist(2) ids_not_blank(4)[OF vals] r4(4) disj(2) r4(5)] by blast
  obtain r6 where r6: "foldE buildCommand (cs_commands s) r5 = Inr r6" "skeleton r6 = skeleton r5" "run_plugins r6 = run_plugins r5"
    "moduleKeys (run_modules r6) \<subseteq> K \<union> ?H \<union> ?A \<union> ?C" "\<not> regStarted (run_modules r6)"
    using cmds.builds_quietly[unfolded comp_def fm_id_moduleView, OF dist(3) ids_not_blank(5)[OF vals] r5(4) disj(3) r5(5)] by blast
  have "set (forwardIds s) \<inter> moduleKeys (run_modules r6) = {}"
    using Int_mono[OF order_refl r6(4), of "set (forwardIds s)"] unfolding disj(4) by simp
  then show ?thesis using that[OF r4(1) r5(1) r6(1)] r4(2,3) r5(2,3) r6(2,3,5) by simp
qed

text \<open>Only the plugins can fail the wiring of a validated schema.\<close>

lemma wire_until_plugins:
  assumes v: "validate lenv s = []" and codecs: "builtin_codecs codecs"
  shows "\<exists>r. wireFromSchema env s (preparedRuntime codecs ps) = initializePlugins env r \<and> run_plugins r = ps \<and> graph_ok s r
    \<and> run_mirrors r = replicate (length (cs_bridges s)) newMirrorState"
proof -
  obtain r1 r2 where front: "foldE buildSinkWindow (cs_sinkWindows s)
        ((preparedRuntime codecs ps)\<lparr>run_transports := buildTransports (cs_transports s) (run_transports (preparedRuntime codecs ps))\<rparr>) = Inr r1"
     "foldE (buildDatapoint s) (cs_datapoints s) r1 = Inr r2" "unbridged_ok s (skeleton r2)" "run_plugins r2 = ps"
     "\<not> regStarted (run_modules r2)" "moduleKeys (run_modules r2) \<subseteq> set (map win_moduleId (cs_sinkWindows s))"
    using build_front[OF v codecs] by blast
  obtain r3 where polls: "foldE (buildPollRange s) (cs_pollRanges s) r2 = Inr r3" "unbridged_ok s (skeleton (buildServerRoutes s r3))"
    "run_plugins (buildServerRoutes s r3) = ps" "\<not> regStarted (run_modules (buildServerRoutes s r3))"
    "moduleKeys (run_modules (buildServerRoutes s r3)) \<subseteq> set (map win_moduleId (cs_sinkWindows s)) \<union> prg_moduleId ` set (cs_pollRanges s)"
    using build_polls_and_routes[OF v front(5,6,3)] front(4) by metis
  obtain r4 r5 r6 where quiet: "foldE buildHeartbeat (cs_heartbeats s) (buildServerRoutes s r3) = Inr r4"
     "foldE buildAckWatch (cs_ackWatches s) r4 = Inr r5" "foldE buildCommand (cs_commands s) r5 = Inr r6" "unbridged_ok s (skeleton r6)"
     "run_plugins r6 = ps" "\<not> regStarted (run_modules r6)" "set (forwardIds s) \<inter> moduleKeys (run_modules r6) = {}"
    using build_quiet[OF v polls(4,5)] polls(2,3) by metis
  have "fst ` set (run_transports r6) = set (transportIds s)" using quiet(4) by (simp add: unbridged_ok_def skeleton_def)
  moreover have "distinct (forwardIds s)" using validate_parts(4)[OF v, unfolded moduleIds_split] by simp
  ultimately obtain ms where r7: "buildBridges s r6 = Inr (r6\<lparr>run_sinks := run_sinks r6 @ map (\<lambda>(t, c). (t, sinkWindow c)) (forwardConfigs s 0 (cs_bridges s)),
     run_fwdSinks := forwardSlots s (length (run_sinks r6)) (cs_bridges s), run_bridges := cs_bridges s,
     run_mirrors := replicate (length (cs_bridges s)) newMirrorState, run_modules := ms\<rparr>)" (is "_ = Inr ?r7")
    using buildBridges_ok[of s r6] quiet(6,7) by blast
  show ?thesis using front(1,2) polls(1) quiet(1-3,5) r7 bridged_ok[OF quiet(4), of ms]
    by (intro exI[of _ ?r7]) (auto simp: wireFromSchema_def graph_ok_def)
qed

lemma wire_ok:
  assumes "validate lenv s = []" "builtin_codecs codecs" "\<forall>p \<in> set (allPlugins ps). wellBehaved p"
  shows "\<exists>r. wireFromSchema env s (preparedRuntime codecs ps) = Inr r \<and> graph_ok s r"
  using wire_until_plugins[OF assms(1,2), of env ps] initializePlugins_ok assms(3) by (metis graph_ok_def)

lemma foldE_keeps: "(\<And>x r r'. f x r = Inr r' \<Longrightarrow> skeleton r' = skeleton r) \<Longrightarrow> foldE f xs r = Inr r' \<Longrightarrow> skeleton r' = skeleton r"
  by (induction xs arbitrary: r) (auto split: sum.splits)

lemma skeleton_initializePlugins: "initializePlugins env r = Inr r' \<Longrightarrow> skeleton r' = skeleton r"
proof -
  have each: "foldE (initializePlugin env) ps r = Inr r' \<Longrightarrow> skeleton r' = skeleton r" for ps r r'
    by (erule foldE_keeps[rotated])
       (auto simp: initializePlugin_def Let_def split: prod.splits option.splits intro!: skeleton_fold)
  show "initializePlugins env r = Inr r' \<Longrightarrow> skeleton r' = skeleton r"
    by (auto simp: initializePlugins_def Let_def split: if_splits prod.splits option.splits dest!: each)
qed

lemma mirrors_initializePlugins: "initializePlugins env r = Inr r' \<Longrightarrow> run_mirrors r' = run_mirrors r"
proof -
  have stage: "run_mirrors (stageWords env k ref ws r) = run_mirrors r" for k ref ws r
  proof -
    have "run_mirrors (fold (\<lambda>(i, x). stageAt env k (ref_address ref + int i) x (g i)) xs r) = run_mirrors r" for g xs r
      by (induction xs arbitrary: r) (auto simp: stageAt_def)
    then show ?thesis by (simp add: stageWords_def)
  qed
  have sent: "run_mirrors (portWrite env iv r) = run_mirrors r" for iv r
    by (simp add: portWrite_def runWriter_def setStateAt_def stage Let_def case_prod_beta split: option.splits)
  have "run_mirrors (fold (portWrite env) ivs r) = run_mirrors r" for ivs r
    by (induction ivs arbitrary: r) (simp_all add: sent)
  then have one: "initializePlugin env p r = Inr r' \<Longrightarrow> run_mirrors r' = run_mirrors r" for p r r'
    by (auto simp: initializePlugin_def Let_def split: prod.splits option.splits)
  have each: "foldE (initializePlugin env) ps r = Inr r' \<Longrightarrow> run_mirrors r' = run_mirrors r" for ps r r'
    by (induction ps arbitrary: r) (auto simp: one split: sum.splits)
  show "initializePlugins env r = Inr r' \<Longrightarrow> run_mirrors r' = run_mirrors r"
    by (auto simp: initializePlugins_def Let_def split: if_splits prod.splits option.splits dest!: each)
qed

lemma wire_mirrors:
  assumes "validate lenv s = []" "builtin_codecs codecs" "wireFromSchema env s (preparedRuntime codecs ps) = Inr r"
  shows "run_mirrors r = replicate (length (cs_bridges s)) newMirrorState"
  using wire_until_plugins[OF assms(1,2), of env ps] assms(3) mirrors_initializePlugins by metis

lemma wire_result:
  assumes "validate lenv s = []" "builtin_codecs codecs" "wireFromSchema env s (preparedRuntime codecs ps) = Inr r"
  shows "graph_ok s r"
  using wire_until_plugins[OF assms(1,2), of env ps] assms(3) skeleton_initializePlugins by (metis graph_ok_def)

lemma isBuiltin_idFor: "t \<noteq> String \<Longrightarrow> isBuiltinCodecId (idFor t)"
proof -
  have "\<forall>t \<in> set kBuiltins. isBuiltinCodecId (idFor t)" by code_simp
  then show "t \<noteq> String \<Longrightarrow> isBuiltinCodecId (idFor t)" by (cases t) (simp_all add: kBuiltins_def)
qed

lemma custom_codecs_ok:
  assumes "validate lenv s = []"
  shows "builtin_codecs (fst (registerCustomCodecs env dir s (loadBuiltins Map.empty)))"
proof (rule builtin_custom[OF builtin_loaded], intro ballI allI impI)
  fix c t assume "c \<in> set (cs_codecs s)" "t \<noteq> String"
  moreover have "\<forall>i < length (cs_codecs s). validateCodec lenv i (cs_codecs s ! i) = []"
    using validate_parts(1)[OF assms] by (simp add: validateValues_def for_each_indexed_empty_iff)
  ultimately have "\<not> isBuiltinCodecId (cdc_id c)" by (auto simp: in_set_conv_nth validateCodec_def Let_def)
  then show "cdc_id c \<noteq> idFor t" using isBuiltin_idFor[OF \<open>t \<noteq> String\<close>] by auto
qed

end
