(* ===== verification/Core_Image.thy ===== *)
theory Core_Image
  imports Core_Built
begin

text \<open>
  The register image the sink windows hold, and what the operations of a running core do to it.
  \<open>coreReach s\<close> are the runtime states of a core that was built from the validated schema \<open>s\<close> and
  then ran any sequence of operations.
\<close>

subsection \<open>Registers\<close>

definition registerAt :: "Runtime \<Rightarrow> nat \<Rightarrow> int \<Rightarrow> u16 option" where
  "registerAt r k a =
     (if length (run_sinks r) \<le> k then None
      else let w = snd (run_sinks r ! k); idx = a - swc_startAddress (sw_cfg w) in
        if 0 \<le> idx \<and> idx < swc_size (sw_cfg w) then Some (sw_snapshot w ! nat idx) else None)"

definition mergeBits :: "u16 \<Rightarrow> u16 \<Rightarrow> u16 \<Rightarrow> u16" where
  "mergeBits v m cur = (cur AND NOT m) OR (v AND m)"

lemma mergeBits_full [simp]: "mergeBits v 0xFFFF cur = v"
proof -
  have "(0xFFFF :: u16) = NOT 0" by simp
  then show ?thesis by (simp only: mergeBits_def) simp
qed

definition images_ok :: "Runtime \<Rightarrow> bool" where
  "images_ok r \<longleftrightarrow> (\<forall>(t, w) \<in> set (run_sinks r). length (sw_snapshot w) = nat (swc_size (sw_cfg w)))"

lemma images_ok_skeleton: "images_ok r \<longleftrightarrow> (\<forall>(t, c, n) \<in> set (sk_sinks (skeleton r)). n = nat (swc_size c))"
  by (auto simp: images_ok_def skeleton_def sinkShape_def)

lemma images_ok_keep: "skeleton r' = skeleton r \<Longrightarrow> images_ok r' = images_ok r"
  by (simp add: images_ok_skeleton)

lemma length_sinks_skeleton: "length (run_sinks r) = length (sk_sinks (skeleton r))"
  by (simp add: skeleton_def)

lemma sw_cfg_skeleton: "k < length (run_sinks r) \<Longrightarrow> sw_cfg (snd (run_sinks r ! k)) = fst (snd (sk_sinks (skeleton r) ! k))"
  by (simp add: skeleton_def sinkShape_def)

lemma registerAt_None_keep: "skeleton r' = skeleton r \<Longrightarrow> registerAt r' k a = None \<longleftrightarrow> registerAt r k a = None"
  using length_sinks_skeleton[of r] length_sinks_skeleton[of r'] sw_cfg_skeleton[of k r] sw_cfg_skeleton[of k r']
  by (auto simp: registerAt_def Let_def)

lemma registerAt_stageAt:
  assumes "images_ok r"
  shows "registerAt (stageAt env k a v m r) k' a' =
    (if k' = k \<and> a' = a then map_option (mergeBits v m) (registerAt r k a) else registerAt r k' a')"
proof (cases "k' = k \<and> k < length (run_sinks r)")
  case False
  then show ?thesis by (auto simp: registerAt_def stageAt_def Let_def)
next
  case True
  obtain t w where w: "run_sinks r ! k = (t, w)" by force
  have len: "length (sw_snapshot w) = nat (swc_size (sw_cfg w))"
    using assms True w nth_mem[of k "run_sinks r"] by (auto simp: images_ok_def)
  let ?w = "snd (stageRegister (env_steadyNow env) a v m w)"
  have at: "snd (run_sinks (stageAt env k a v m r) ! k) = ?w" using True w by (simp add: stageAt_def)
  have same: "sw_cfg ?w = sw_cfg w" using stageRegister_fields(1)[of "env_steadyNow env" a v m w] by (metis prod.collapse)
  show ?thesis using True w len at same
    by (auto simp: registerAt_def Let_def stageAt_def stageRegister_def mergeBits_def nth_list_update nat_eq_iff)
qed

lemma registerAt_other_fields [simp]:
  "registerAt (setStateAt h st r) = registerAt r" "registerAt (setValueAt env h v r) = registerAt r"
  "registerAt (r\<lparr>run_forward := f\<rparr>) = registerAt r" "registerAt (mirrorAt i g r) = registerAt r"
  by (simp_all add: registerAt_def fun_eq_iff setStateAt_def setValueAt_def mirrorAt_def case_prod_beta Let_def)

lemma registerAt_forceFlushAt [simp]: "registerAt (forceFlushAt k r) = registerAt r"
  by (cases "k < length (run_sinks r)")
     (auto simp: registerAt_def forceFlushAt_def fun_eq_iff nth_list_update apsnd_def map_prod_def forceFlush_def Let_def split: prod.splits)

lemma registerAt_fold_stage:
  assumes "images_ok r"
  shows "registerAt (fold (\<lambda>a. stageAt env k (a - off) (f a) 0xFFFF) as r) k' a' =
    (if k' = k \<and> a' + off \<in> set as \<and> registerAt r k a' \<noteq> None then Some (f (a' + off)) else registerAt r k' a')"
  using assms
proof (induction as arbitrary: r)
  case (Cons a as)
  let ?r = "stageAt env k (a - off) (f a) 0xFFFF r"
  have "images_ok ?r" using Cons.prems by (simp add: images_ok_keep[OF skeleton_stageAt])
  then show ?case using Cons.IH[of ?r] registerAt_stageAt[OF Cons.prems, of env k "a - off" "f a" "0xFFFF"]
    by (auto simp: algebra_simps split: if_splits)
qed simp

lemma registerAt_stageWords:
  assumes "images_ok r"
  shows "registerAt (stageWords env k ref ws r) k' a' =
    (let j = a' - ref_address ref in
     if k' = k \<and> 0 \<le> j \<and> j < int (length ws)
     then map_option (mergeBits (ws ! nat j) (stageMaskFor ref (nat j) (length ws))) (registerAt r k a') else registerAt r k' a')"
proof -
  have "registerAt (fold (\<lambda>(i, x). stageAt env k (ref_address ref + int i) x (g i)) (enumerate n xs) r) k' a' =
    (let j = a' - ref_address ref - int n in
     if k' = k \<and> 0 \<le> j \<and> j < int (length xs)
     then map_option (mergeBits (xs ! nat j) (g (n + nat j))) (registerAt r k a') else registerAt r k' a')"
    if "images_ok r" for g n xs r
    using that
  proof (induction xs arbitrary: n r)
    case (Cons x xs)
    let ?r = "stageAt env k (ref_address ref + int n) x (g n) r"
    have ok: "images_ok ?r" using Cons.prems by (simp add: images_ok_keep[OF skeleton_stageAt])
    have shift: "nat (a' - (ref_address ref + int n)) = Suc (nat (a' - (1 + (ref_address ref + int n))))"
      if "1 + (ref_address ref + int n) \<le> a'" using that by simp
    show ?case using Cons.IH[OF ok, of "Suc n"] registerAt_stageAt[OF Cons.prems, of env k "ref_address ref + int n" x "g n"]
      by (auto simp: Let_def nth_Cons' shift algebra_simps split: if_splits)
  qed (auto simp: Let_def)
  from this[OF assms, of "\<lambda>i. stageMaskFor ref i (length ws)" 0 ws] show ?thesis by (simp add: stageWords_def Let_def)
qed

subsection \<open>Reachable runtimes\<close>

definition updateSink :: "nat \<Rightarrow> (SinkWindow \<Rightarrow> SinkWindow) \<Rightarrow> Runtime \<Rightarrow> Runtime" where
  "updateSink k f r = r\<lparr>run_sinks := (run_sinks r)[k := apsnd f (run_sinks r ! k)]\<rparr>"

text \<open>The life of one window besides staging: start, stop, ticks and completions of its flush.\<close>

inductive windowStep :: "SinkWindow \<Rightarrow> SinkWindow \<Rightarrow> bool" where
  "windowStep w (sinkStart now w)"
| "windowStep w (sinkStop w)"
| "windowStep w (snd (sinkDriveTick now accepted w))"
| "windowStep w (snd (onTick now t1 submit write w))"
| "windowStep w (sinkWriteDone now ok gen w)"

lemma windowStep_keeps: "windowStep w w' \<Longrightarrow> sw_cfg w' = sw_cfg w \<and> sw_snapshot w' = sw_snapshot w"
  by (induction rule: windowStep.induct)
     (auto simp: sinkStart_def sinkStop_def sinkDriveTick_def onTick_def sinkWriteDone_def markFlushed_def Let_def split: option.splits prod.splits)

text \<open>One operation of a core that keeps its graph, and the runtimes such operations reach.\<close>

inductive coreStep :: "Runtime \<Rightarrow> Runtime \<Rightarrow> bool" where
  written: "coreStep r (writeDp env h v r)"
| serverWrite: "coreStep r (onServerWrite env e r)"
| gated: "coreStep r (setServerForwardEnabled env server enabled r)"
| transportEvent: "coreStep r (onTransportState before after r)"
| polled: "coreStep r (snd (onPollRangeCompleted e' r))"
| newValue: "coreStep r (setValueAt env h v r)"
| newState: "coreStep r (setStateAt h st r)"
| capture: "coreStep r (snd (mirrorCapture i r))"
| submitted: "coreStep r (mirrorSubmitted env i accepted r)"
| mirrored: "coreStep r (snd (mirrorDone started i version r))"
| mirrorFailed: "coreStep r (mirrorThrew i r)"
| restored: "coreStep r (r\<lparr>run_forward := gates\<rparr>)"
| windowEvent: "windowStep (snd (run_sinks r ! k)) w \<Longrightarrow> coreStep r (updateSink k (\<lambda>_. w) r)"

inductive coreReach :: "ConfigSchema \<Rightarrow> Runtime \<Rightarrow> bool" for s where
  wired: "validate lenv s = [] \<Longrightarrow> registerCustomCodecs env dir s (loadBuiltins Map.empty) = (codecs, [])
    \<Longrightarrow> wireFromSchema env s (preparedRuntime codecs ps) = Inr r \<Longrightarrow> coreReach s r"
| stepped: "coreReach s r \<Longrightarrow> coreStep r r' \<Longrightarrow> coreReach s r'"
| started: "coreReach s r \<Longrightarrow> coreReach s (startModules env r)"
| stopped: "coreReach s r \<Longrightarrow> coreReach s (stopModules r)"

lemma skeleton_updateSink:
  assumes "windowStep (snd (run_sinks r ! k)) w" shows "skeleton (updateSink k (\<lambda>_. w) r) = skeleton r"
proof -
  have "sinkShape (apsnd (\<lambda>_. w) (run_sinks r ! k)) = sinkShape (run_sinks r ! k)"
    using windowStep_keeps[OF assms] by (cases "run_sinks r ! k") (simp add: sinkShape_def)
  then show ?thesis unfolding updateSink_def by (intro skeleton_sinks sinks_update_shape)
qed

lemma skeleton_coreStep: "coreStep r r' \<Longrightarrow> skeleton r' = skeleton r"
  by (induction rule: coreStep.induct) (simp_all add: skeleton_updateSink mirrorThrew_def)

lemma coreReach_ok: "coreReach s r \<Longrightarrow> graph_ok s r"
proof (induction rule: coreReach.induct)
  case (wired lenv env dir codecs ps r)
  have "builtin_codecs codecs" using custom_codecs_ok[OF wired(1), of env dir] wired(2) by simp
  then show ?case using wire_result[OF wired(1) _ wired(3)] by blast
qed (simp_all add: graph_ok_def skeleton_coreStep)

lemma coreReach_valid: "coreReach s r \<Longrightarrow> \<exists>lenv. validate lenv s = []"
  by (induction rule: coreReach.induct) auto

lemma graph_images: "graph_ok s r \<Longrightarrow> images_ok r"
  by (simp add: graph_ok_def skeleton_ok_def images_ok_skeleton)

subsection \<open>Forwarding windows\<close>

lemma sink_transport_skeleton: "k < length (run_sinks r) \<Longrightarrow> fst (run_sinks r ! k) = fst (sk_sinks (skeleton r) ! k)"
  by (simp add: skeleton_def sinkShape_def)

lemma graph_sink:
  assumes "graph_ok s r" "k < length (windowConfigs s @ forwardConfigs s 0 (cs_bridges s))"
  shows "k < length (run_sinks r)" "(fst (run_sinks r ! k), sw_cfg (snd (run_sinks r ! k))) = (windowConfigs s @ forwardConfigs s 0 (cs_bridges s)) ! k"
proof -
  have eq: "map (\<lambda>(t, c, n). (t, c)) (sk_sinks (skeleton r)) = windowConfigs s @ forwardConfigs s 0 (cs_bridges s)"
    using assms(1) by (simp add: graph_ok_def skeleton_ok_def)
  show k: "k < length (run_sinks r)" using assms(2) unfolding length_sinks_skeleton by (metis eq length_map)
  have "(windowConfigs s @ forwardConfigs s 0 (cs_bridges s)) ! k = (\<lambda>(t, c, n). (t, c)) (sk_sinks (skeleton r) ! k)"
    using k unfolding eq[symmetric] by (simp add: length_sinks_skeleton)
  then show "(fst (run_sinks r ! k), sw_cfg (snd (run_sinks r ! k))) = (windowConfigs s @ forwardConfigs s 0 (cs_bridges s)) ! k"
    using k by (simp add: sink_transport_skeleton sw_cfg_skeleton case_prod_beta)
qed

lemma forward_slot:
  assumes "graph_ok s r" "i < length (cs_bridges s)" "run_fwdSinks r ! i = Some k"
  shows "forwards s (cs_bridges s ! i)" "length (windowConfigs s) \<le> k" "k < length (run_sinks r)"
    "fst (run_sinks r ! k) = br_plc (cs_bridges s ! i)" "sw_cfg (snd (run_sinks r ! k)) = forwardConfig i (cs_bridges s ! i)"
proof -
  let ?n = "length (windowConfigs s)"
  have slot: "forwardSlots s ?n (cs_bridges s) ! i = Some k" using assms by (simp add: graph_ok_def skeleton_ok_def skeleton_def)
  then show "forwards s (cs_bridges s ! i)" using forwardSlots_None[OF assms(2), of s ?n] by simp
  have f: "?n \<le> k \<and> k - ?n < length (forwardConfigs s 0 (cs_bridges s))
      \<and> forwardConfigs s 0 (cs_bridges s) ! (k - ?n) = (br_plc (cs_bridges s ! i), forwardConfig i (cs_bridges s ! i))"
    using forwardSlots_Some[OF assms(2) slot, of 0] by simp
  then show "?n \<le> k" ..
  have k: "k < length (windowConfigs s @ forwardConfigs s 0 (cs_bridges s))" using f by auto
  show "k < length (run_sinks r)" using graph_sink(1)[OF assms(1) k] .
  show "fst (run_sinks r ! k) = br_plc (cs_bridges s ! i)" "sw_cfg (snd (run_sinks r ! k)) = forwardConfig i (cs_bridges s ! i)"
    using graph_sink(2)[OF assms(1) k] f by (simp_all add: nth_append)
qed

lemma forward_slot_inj:
  assumes "graph_ok s r" "i < length (cs_bridges s)" "j < length (cs_bridges s)" "run_fwdSinks r ! i = Some k" "run_fwdSinks r ! j = Some k"
  shows "i = j"
  using assms forwardSlots_inj[OF assms(2,3)] by (simp add: graph_ok_def skeleton_ok_def skeleton_def)

lemma forward_exists:
  assumes "graph_ok s r" "i < length (cs_bridges s)" "forwards s (cs_bridges s ! i)"
  shows "\<exists>k. run_fwdSinks r ! i = Some k"
  using assms forwardSlots_None[OF assms(2), of s "length (windowConfigs s)"] by (auto simp: graph_ok_def skeleton_ok_def skeleton_def)

subsection \<open>Operations bridge by bridge\<close>

text \<open>
  An operation on one bridge that touches at most the bridge's own forwarding window, and treats
  it in a way that depends on that window alone.  Run over all bridges, it leaves each window as
  the operation of its own bridge does.
\<close>

locale bridge_operation =
  fixes bop :: "nat \<times> BridgeConfig \<Rightarrow> Runtime \<Rightarrow> Runtime"
  assumes keeps: "skeleton (bop ib r) = skeleton r"
    and elsewhere: "run_fwdSinks r ! i \<noteq> Some k \<Longrightarrow> run_sinks (bop (i, b) r) ! k = run_sinks r ! k"
    and own: "run_fwdSinks r ! i = Some k \<Longrightarrow> skeleton r' = skeleton r \<Longrightarrow> k < length (run_sinks r) \<Longrightarrow> run_sinks r' ! k = run_sinks r ! k
      \<Longrightarrow> run_sinks (bop (i, b) r') ! k = run_sinks (bop (i, b) r) ! k"
begin

lemma fold_skeleton: "skeleton (fold bop xs r) = skeleton r"
  by (rule skeleton_fold) (rule keeps)

lemma fwd_skeleton: "skeleton r' = skeleton r \<Longrightarrow> run_fwdSinks r' = run_fwdSinks r"
  by (simp add: skeleton_def)

lemma fold_elsewhere:
  "\<forall>(i, b) \<in> set xs. run_fwdSinks r ! i \<noteq> Some k \<Longrightarrow> run_sinks (fold bop xs r) ! k = run_sinks r ! k"
proof (induction xs arbitrary: r)
  case (Cons x xs)
  have "run_fwdSinks (bop x r) = run_fwdSinks r" by (rule fwd_skeleton[OF keeps])
  then show ?case using Cons elsewhere by (cases x) auto
qed simp

lemma fold_own:
  assumes "graph_ok s r" "i < length (cs_bridges s)" "run_fwdSinks r ! i = Some k"
  shows "run_sinks (fold bop (enumerate 0 (cs_bridges s)) r) ! k = run_sinks (bop (i, cs_bridges s ! i) r) ! k"
proof -
  let ?bs = "cs_bridges s"
  let ?xs = "enumerate 0 (take i ?bs)" and ?ys = "enumerate (Suc i) (drop (Suc i) ?bs)"
  have split: "enumerate 0 ?bs = ?xs @ (i, ?bs ! i) # ?ys"
    using assms(2) by (subst id_take_nth_drop[OF assms(2)]) (simp add: enumerate_append_eq)
  have other: "run_fwdSinks r ! j \<noteq> Some k" if "j < length ?bs" "j \<noteq> i" for j
    using forward_slot_inj[OF assms(1,2) that(1) assms(3)] that(2) by auto
  have bs: "\<forall>(j, b) \<in> set ?xs. run_fwdSinks r ! j \<noteq> Some k" "\<forall>(j, b) \<in> set ?ys. run_fwdSinks r ! j \<noteq> Some k"
    using other assms(2) by (auto simp: in_set_enumerate_eq)
  let ?r = "fold bop ?xs r"
  have sk: "skeleton ?r = skeleton r" "skeleton (bop (i, ?bs ! i) ?r) = skeleton r" by (simp_all add: fold_skeleton keeps)
  have "run_sinks (fold bop (enumerate 0 ?bs) r) ! k = run_sinks (fold bop ?ys (bop (i, ?bs ! i) ?r)) ! k" unfolding split by simp
  also have "\<dots> = run_sinks (bop (i, ?bs ! i) ?r) ! k"
    using bs(2) fwd_skeleton[OF sk(2)] by (intro fold_elsewhere) simp
  also have "\<dots> = run_sinks (bop (i, ?bs ! i) r) ! k"
    using fold_elsewhere[OF bs(1)] forward_slot(3)[OF assms] by (intro own[OF assms(3) sk(1)]) simp_all
  finally show ?thesis .
qed

end

lemma registerAt_window:
  "skeleton r' = skeleton r \<Longrightarrow> run_sinks r' ! k = run_sinks r ! k \<Longrightarrow> registerAt r' k a = registerAt r k a"
  using length_sinks_skeleton[of r] length_sinks_skeleton[of r'] by (simp add: registerAt_def)

lemma fold_stageAt_window:
  "run_sinks (fold (\<lambda>a. stageAt env k (g a) (f a) m) as r) ! k' =
    (if k' = k \<and> k < length (run_sinks r)
     then apsnd (fold (\<lambda>a w. snd (stageRegister (env_steadyNow env) (g a) (f a) m w)) as) (run_sinks r ! k) else run_sinks r ! k')"
proof (induction as arbitrary: r)
  case Nil then show ?case by (cases "run_sinks r ! k") simp
next
  case (Cons a as)
  let ?r = "stageAt env k (g a) (f a) m r"
  have len: "length (run_sinks ?r) = length (run_sinks r)" by (simp add: stageAt_def)
  have at: "run_sinks ?r ! j = (if j = k \<and> k < length (run_sinks r)
      then apsnd (\<lambda>w. snd (stageRegister (env_steadyNow env) (g a) (f a) m w)) (run_sinks r ! k) else run_sinks r ! j)" for j
    by (cases "k < length (run_sinks r)") (auto simp: stageAt_def nth_list_update list_update_beyond)
  show ?case using Cons.IH[of ?r] by (cases "run_sinks r ! k") (simp add: len at)
qed

interpretation fwd: bridge_operation "forwardBridge env e" for env e
proof unfold_locales
  fix i b r k r'
  show "run_sinks (forwardBridge env e (i, b) r) ! k = run_sinks r ! k" if "run_fwdSinks r ! i \<noteq> Some k"
    using that by (auto simp: forwardBridge_def Let_def fold_stageAt_window split: option.splits)
  show "run_sinks (forwardBridge env e (i, b) r') ! k = run_sinks (forwardBridge env e (i, b) r) ! k"
    if "run_fwdSinks r ! i = Some k" "skeleton r' = skeleton r" "k < length (run_sinks r)" "run_sinks r' ! k = run_sinks r ! k"
  proof -
    have "run_fwdSinks r' = run_fwdSinks r" "length (run_sinks r') = length (run_sinks r)"
      using that(2) length_sinks_skeleton[of r] length_sinks_skeleton[of r'] by (simp_all add: skeleton_def)
    then show ?thesis using that(1,3,4) by (simp add: forwardBridge_def Let_def fold_stageAt_window)
  qed
qed simp

lemma forceFlushAt_window:
  "run_sinks (forceFlushAt k r) ! k' = (if k' = k \<and> k < length (run_sinks r) then apsnd forceFlush (run_sinks r ! k) else run_sinks r ! k')"
  by (cases "k < length (run_sinks r)") (auto simp: forceFlushAt_def nth_list_update list_update_beyond)

lemma length_fold_stageAt [simp]: "length (run_sinks (fold (\<lambda>a. stageAt env k (g a) (f a) m) as r)) = length (run_sinks r)"
  by (induction as arbitrary: r) (auto simp: stageAt_def)

interpretation zero: bridge_operation "zeroBridge env server" for env server
proof unfold_locales
  fix i b r k r'
  show "run_sinks (zeroBridge env server (i, b) r) ! k = run_sinks r ! k" if "run_fwdSinks r ! i \<noteq> Some k"
    using that by (auto simp: zeroBridge_def Let_def forceFlushAt_window fold_stageAt_window split: option.splits)
  show "run_sinks (zeroBridge env server (i, b) r') ! k = run_sinks (zeroBridge env server (i, b) r) ! k"
    if "run_fwdSinks r ! i = Some k" "skeleton r' = skeleton r" "k < length (run_sinks r)" "run_sinks r' ! k = run_sinks r ! k"
  proof -
    have "run_fwdSinks r' = run_fwdSinks r" "length (run_sinks r') = length (run_sinks r)"
      using that(2) length_sinks_skeleton[of r] length_sinks_skeleton[of r'] by (simp_all add: skeleton_def)
    then show ?thesis using that(1,3,4) by (simp add: zeroBridge_def Let_def forceFlushAt_window fold_stageAt_window)
  qed
qed simp

end
