(* ===== verification/Core_Properties.thy ===== *)
theory Core_Properties
  imports Core_Image
begin

text \<open>
  Properties of a running core: validated configurations build, forwarding through bridges is
  exact and gated, closing the gate neutralises the PLC side, and commands reach their windows.
\<close>

subsection \<open>A concrete core\<close>

definition demoCoreEnv :: CoreEnv where
  "demoCoreEnv = \<lparr>env_fpu = demoFpu, env_qt = demoQt, env_toUInt = (\<lambda>_. None), env_decodeScript = (\<lambda>_ _ _. None),
     env_encodeScript = (\<lambda>_ _ _. None), env_luaLoad = (\<lambda>_ _ _. None), env_isRelative = (\<lambda>_. False), env_filePath = (\<lambda>d p. d @ p),
     env_lib = (\<lambda>_. CreateNull), env_steadyNow = 5, env_dateTime = 7\<rparr>"

definition demoRuntime :: Runtime where
  "demoRuntime = projr (wireFromSchema demoCoreEnv demoSchema (preparedRuntime (loadBuiltins Map.empty) pluginRegistry))"

lemma no_plugins: "\<forall>p \<in> set (allPlugins pluginRegistry). wellBehaved p"
  by (simp add: allPlugins_def pluginRegistry_def)

lemma demo_reach: "coreReach demoSchema demoRuntime"
proof -
  obtain r where "wireFromSchema demoCoreEnv demoSchema (preparedRuntime (loadBuiltins Map.empty) pluginRegistry) = Inr r"
    using wire_ok[OF demo_valid builtin_loaded no_plugins] by blast
  moreover have "registerCustomCodecs demoCoreEnv [] demoSchema (loadBuiltins Map.empty) = (loadBuiltins Map.empty, [])"
    by (simp add: registerCustomCodecs_def demo_unfolds)
  ultimately show ?thesis using coreReach.wired[OF demo_valid] by (simp add: demoRuntime_def)
qed

lemma demo_forwards: "0 < length (cs_bridges demoSchema)" "forwards demoSchema (cs_bridges demoSchema ! 0)"
  by (simp_all add: demo_unfolds forwards_def transportIds_def)

subsection \<open>Building\<close>



subsection \<open>Forwarding\<close>

lemma stageWords_window: "k' \<noteq> k \<Longrightarrow> run_sinks (stageWords env k ref ws r) ! k' = run_sinks r ! k'"
proof -
  assume k: "k' \<noteq> k"
  have "run_sinks (fold (\<lambda>(i, x). stageAt env k (ref_address ref + int i) x (g i)) xs r) ! k' = run_sinks r ! k'" for g xs r
    using k by (induction xs arbitrary: r) (auto simp: stageAt_def)
  then show ?thesis by (simp add: stageWords_def)
qed

lemma setAt_sinks [simp]: "run_sinks (setStateAt h st r) = run_sinks r" "run_sinks (setValueAt env h v r) = run_sinks r"
  by (simp_all add: setStateAt_def setValueAt_def case_prod_beta Let_def)

lemma routeOne_window: "rb_target b \<noteq> k \<Longrightarrow> run_sinks (routeOne env e b r) ! k = run_sinks r ! k"
  by (auto simp: routeOne_def Let_def stageWords_window split: option.splits)

lemma routeServerWrite_window:
  assumes "graph_ok s r" "length (windowConfigs s) \<le> k"
  shows "run_sinks (routeServerWrite env e r) ! k = run_sinks r ! k"
proof -
  have "run_sinks (fold (routeOne env e) bs r') ! k = run_sinks r' ! k" if "\<forall>b \<in> set bs. rb_target b \<noteq> k" for bs r'
    using that by (induction bs arbitrary: r') (auto simp: routeOne_window)
  moreover have "\<forall>b \<in> set (run_routes r (se_transportId e)). rb_target b \<noteq> k"
    using assms by (fastforce simp: graph_ok_def skeleton_ok_def skeleton_def)
  ultimately show ?thesis by (simp add: routeServerWrite_def)
qed

lemma registerAt_forward_range:
  assumes "graph_ok s r" "i < length (cs_bridges s)" "run_fwdSinks r ! i = Some k"
  shows "registerAt r k a \<noteq> None \<longleftrightarrow> br_writeStart (cs_bridges s ! i) - br_offset (cs_bridges s ! i) \<le> a
    \<and> a < br_writeStart (cs_bridges s ! i) - br_offset (cs_bridges s ! i) + br_writeCount (cs_bridges s ! i)"
  using forward_slot[OF assms] by (auto simp: registerAt_def Let_def forwardConfig_def)

definition forwarded :: "ServerWriteEvent \<Rightarrow> BridgeConfig \<Rightarrow> int \<Rightarrow> bool" where
  "forwarded e b a \<longleftrightarrow> se_transportId e = br_server b \<and> se_table e = HoldingRegisters
     \<and> se_startAddress e \<le> a + br_offset b \<and> a + br_offset b < se_startAddress e + int (length (se_values e))"

lemma forwardBridge_register:
  assumes "graph_ok s r" "i < length (cs_bridges s)" "run_fwdSinks r ! i = Some k" "se_table e = HoldingRegisters" "registerAt r k a \<noteq> None"
  shows "registerAt (forwardBridge env e (i, cs_bridges s ! i) r) k a =
    (if forwarded e (cs_bridges s ! i) a then Some (se_values e ! nat (a + br_offset (cs_bridges s ! i) - se_startAddress e)) else registerAt r k a)"
proof -
  let ?b = "cs_bridges s ! i"
  have "br_writeStart ?b \<le> a + br_offset ?b \<and> a + br_offset ?b < br_writeStart ?b + br_writeCount ?b"
    using registerAt_forward_range[OF assms(1-3), of a] assms(5) by auto
  then show ?thesis using assms(3-5) graph_images[OF assms(1)]
    by (auto simp: forwardBridge_def Let_def registerAt_fold_stage forwarded_def)
qed

lemma forwardBridges_register:
  assumes "graph_ok s r" "i < length (cs_bridges s)" "run_fwdSinks r ! i = Some k" "registerAt r k a \<noteq> None"
  shows "registerAt (forwardBridges env e r) k a =
    (if forwarded e (cs_bridges s ! i) a then Some (se_values e ! nat (a + br_offset (cs_bridges s ! i) - se_startAddress e)) else registerAt r k a)"
proof (cases "se_table e = HoldingRegisters")
  case False
  then show ?thesis by (simp add: forwardBridges_def forwarded_def)
next
  case True
  have bs: "run_bridges r = cs_bridges s" using assms(1) by (simp add: graph_ok_def skeleton_ok_def skeleton_def)
  have "registerAt (forwardBridges env e r) k a = registerAt (forwardBridge env e (i, cs_bridges s ! i) r) k a"
    using True by (intro registerAt_window) (simp_all add: forwardBridges_def bs fwd.fold_skeleton fwd.fold_own[OF assms(1-3)])
  then show ?thesis using forwardBridge_register[OF assms(1-3) True assms(4)] by simp
qed

text \<open>C21: forwarding through a bridge is exact.  In every reachable state of a core built from a
  validated configuration, a bridge with a write range owns a window of holding registers on the
  PLC's transport, and an operator write to a server leaves in each register of that range either
  the value written to the mapped server address, when the write is to the bridge's server, touches
  that address and forwarding is enabled for the server, or what was there before.\<close>

theorem bridge_forwarding_exact:
  assumes "coreReach s r" "i < length (cs_bridges s)" "forwards s (cs_bridges s ! i)"
  shows "\<exists>k. run_fwdSinks r ! i = Some k \<and> fst (run_sinks r ! k) = br_plc (cs_bridges s ! i)
    \<and> swc_table (sw_cfg (snd (run_sinks r ! k))) = HoldingRegisters
    \<and> (\<forall>a \<in> {br_writeStart (cs_bridges s ! i) - br_offset (cs_bridges s ! i)..<
              br_writeStart (cs_bridges s ! i) - br_offset (cs_bridges s ! i) + br_writeCount (cs_bridges s ! i)}.
         registerAt r k a \<noteq> None
       \<and> registerAt (onServerWrite env e r) k a =
          (if serverForwardEnabled r (se_transportId e) \<and> forwarded e (cs_bridges s ! i) a
           then Some (se_values e ! nat (a + br_offset (cs_bridges s ! i) - se_startAddress e)) else registerAt r k a))"
proof -
  note ok = coreReach_ok[OF assms(1)]
  obtain k where k: "run_fwdSinks r ! i = Some k" using forward_exists[OF ok assms(2,3)] by blast
  note slot = forward_slot[OF ok assms(2) k]
  let ?r = "routeServerWrite env e r"
  have ok': "graph_ok s ?r" using ok by (simp add: graph_ok_def)
  have "run_fwdSinks ?r = run_fwdSinks r" using skeleton_routeServerWrite[of env e r] by (simp add: skeleton_def)
  then have k': "run_fwdSinks ?r ! i = Some k" using k by simp
  have same: "registerAt ?r k a = registerAt r k a" for a
    by (rule registerAt_window) (simp_all add: routeServerWrite_window[OF ok slot(2)])
  show ?thesis
    using k slot(4,5) registerAt_forward_range[OF ok assms(2) k] forwardBridges_register[OF ok' assms(2) k', of _ env e]
    by (auto simp: onServerWrite_def same forwardConfig_def)
qed

definition demoWrite :: ServerWriteEvent where
  "demoWrite = \<lparr>se_transportId = ''box'', se_table = HoldingRegisters, se_startAddress = 302, se_values = [7, 8, 9]\<rparr>"

definition openRuntime :: Runtime where
  "openRuntime = setServerForwardEnabled demoCoreEnv ''box'' True demoRuntime"

lemma open_reach: "coreReach demoSchema openRuntime"
  unfolding openRuntime_def by (rule coreReach.stepped[OF demo_reach coreStep.gated])

lemma open_enabled: "serverForwardEnabled openRuntime ''box''"
  by (simp add: openRuntime_def setServerForwardEnabled_def serverForwardEnabled_def Let_def)

theorem bridge_forwarding_exact_witness:
  "\<exists>k. registerAt (onServerWrite demoCoreEnv demoWrite openRuntime) k 202 = Some 7"
proof -
  have "se_transportId demoWrite = ''box''" "forwarded demoWrite (cs_bridges demoSchema ! 0) 202"
    "nat (202 + br_offset (cs_bridges demoSchema ! 0) - se_startAddress demoWrite) = 0" "se_values demoWrite ! 0 = 7"
    "202 \<in> {br_writeStart (cs_bridges demoSchema ! 0) - br_offset (cs_bridges demoSchema ! 0)..<
      br_writeStart (cs_bridges demoSchema ! 0) - br_offset (cs_bridges demoSchema ! 0) + br_writeCount (cs_bridges demoSchema ! 0)}"
    by (simp_all add: demoWrite_def forwarded_def demo_unfolds)
  then show ?thesis using bridge_forwarding_exact[OF open_reach demo_forwards, of demoCoreEnv demoWrite] open_enabled by metis
qed

subsection \<open>Closing the gate\<close>

lemma stageAt_forward [simp]: "run_forward (stageAt env k a v m r) = run_forward r"
  by (simp add: stageAt_def)

lemma fold_forward: "(\<And>x r. run_forward (f x r) = run_forward r) \<Longrightarrow> run_forward (fold f xs r) = run_forward r"
  by (induction xs arbitrary: r) auto

lemma zeroBridgeForward_forward [simp]: "run_forward (zeroBridgeForward env server r) = run_forward r"
  unfolding zeroBridgeForward_def
  by (rule fold_forward) (auto simp: zeroBridge_def Let_def forceFlushAt_def fold_forward split: option.splits prod.splits)

lemma stageRegister_generation:
  "\<exists>n \<le> length as. sw_generation (fold (\<lambda>a w. snd (stageRegister now (g a) (f a) m w)) as w) = sw_generation w + of_nat n"
proof (induction as arbitrary: w)
  case (Cons a as)
  let ?w = "snd (stageRegister now (g a) (f a) m w)"
  have "sw_generation ?w = sw_generation w \<or> sw_generation ?w = sw_generation w + 1"
    using stageRegister_fields(6,7)[of now "g a" "f a" m w] by (cases "stageRegister now (g a) (f a) m w") (auto; metis)
  moreover obtain n where "n \<le> length as" "sw_generation (fold (\<lambda>a w. snd (stageRegister now (g a) (f a) m w)) as ?w) = sw_generation ?w + of_nat n"
    using Cons.IH by blast
  ultimately show ?case
    by (elim disjE) (auto intro: exI[of _ n] exI[of _ "Suc n"])
qed simp

lemma zeroBridge_window:
  assumes "graph_ok s r" "i < length (cs_bridges s)" "run_fwdSinks r ! i = Some k" "br_server (cs_bridges s ! i) = server"
  defines "b \<equiv> cs_bridges s ! i"
  shows "run_sinks (zeroBridge env server (i, b) r) ! k = apsnd (\<lambda>w. forceFlush
     (fold (\<lambda>a w. snd (stageRegister (env_steadyNow env) (a - br_offset b) 0 0xFFFF w)) [br_writeStart b..br_writeStart b + br_writeCount b - 1] w))
     (run_sinks r ! k)"
    and "registerAt r k a \<noteq> None \<Longrightarrow> registerAt (zeroBridge env server (i, b) r) k a = Some 0"
proof -
  note slot = forward_slot[OF assms(1-3)]
  show "run_sinks (zeroBridge env server (i, b) r) ! k = apsnd (\<lambda>w. forceFlush
     (fold (\<lambda>a w. snd (stageRegister (env_steadyNow env) (a - br_offset b) 0 0xFFFF w)) [br_writeStart b..br_writeStart b + br_writeCount b - 1] w))
     (run_sinks r ! k)"
    using assms slot(3) by (cases "run_sinks r ! k") (simp add: zeroBridge_def Let_def forceFlushAt_window fold_stageAt_window)
  show "registerAt (zeroBridge env server (i, b) r) k a = Some 0" if a: "registerAt r k a \<noteq> None"
    using a registerAt_forward_range[OF assms(1-3), of a] assms(3,4) graph_images[OF assms(1)]
    by (auto simp: zeroBridge_def Let_def registerAt_fold_stage b_def)
qed

lemma zeroed_window:
  fixes env :: CoreEnv
  assumes "graph_ok s r" "i < length (cs_bridges s)" "run_fwdSinks r ! i = Some k" "br_server (cs_bridges s ! i) = server"
  defines "w \<equiv> snd (run_sinks r ! k)" and "w' \<equiv> snd (run_sinks (zeroBridgeForward env server r) ! k)"
  shows "sw_snapshot w' = replicate (nat (br_writeCount (cs_bridges s ! i))) 0" "sw_forceFlush w'"
    "\<exists>n \<le> nat (br_writeCount (cs_bridges s ! i)). sw_generation w' = sw_generation w + of_nat (Suc n)"
proof -
  let ?b = "cs_bridges s ! i" and ?r = "zeroBridgeForward env server r"
  let ?as = "[br_writeStart ?b..br_writeStart ?b + br_writeCount ?b - 1]"
  have bs: "run_bridges r = cs_bridges s" using assms(1) by (simp add: graph_ok_def skeleton_ok_def skeleton_def)
  have own: "run_sinks ?r ! k = run_sinks (zeroBridge env server (i, ?b) r) ! k"
    unfolding zeroBridgeForward_def bs by (rule zero.fold_own[OF assms(1-3)])
  have ok': "graph_ok s ?r" using assms(1) by (simp add: graph_ok_def)
  have fwd: "run_fwdSinks ?r ! i = Some k" using assms(3) skeleton_zeroBridgeForward[of env server r] by (simp add: skeleton_def)
  note slot = forward_slot[OF ok' assms(2) fwd]
  have len: "length (sw_snapshot w') = nat (br_writeCount ?b)"
    using graph_images[OF ok'] slot(3,5) nth_mem[OF slot(3)] by (cases "run_sinks ?r ! k") (auto simp: images_ok_def w'_def forwardConfig_def)
  have zero: "registerAt ?r k a = Some 0" if "registerAt ?r k a \<noteq> None" for a
    using registerAt_window[of ?r "zeroBridge env server (i, ?b) r" k a] own zeroBridge_window(2)[OF assms(1-4), of a env] that
      registerAt_None_keep[of ?r r k a] by auto
  have "sw_snapshot w' ! n = 0" if "n < nat (br_writeCount ?b)" for n
  proof -
    have "swc_startAddress (sw_cfg w') = br_writeStart ?b - br_offset ?b" "swc_size (sw_cfg w') = br_writeCount ?b" "int n < br_writeCount ?b"
      using slot(5) that by (simp_all add: w'_def forwardConfig_def)
    then have "registerAt ?r k (br_writeStart ?b - br_offset ?b + int n) = Some (sw_snapshot w' ! n)"
      using slot(3) by (simp add: registerAt_def w'_def Let_def)
    then show ?thesis using zero[of "br_writeStart ?b - br_offset ?b + int n"] by simp
  qed
  then show "sw_snapshot w' = replicate (nat (br_writeCount ?b)) 0" using len by (intro nth_equalityI) auto
  note win = own[unfolded zeroBridge_window(1)[OF assms(1-4)]]
  show "sw_forceFlush w'" by (simp add: w'_def win forceFlush_def)
  obtain n where n: "n \<le> length ?as"
    "sw_generation (fold (\<lambda>a w. snd (stageRegister (env_steadyNow env) (a - br_offset ?b) 0 0xFFFF w)) ?as w) = sw_generation w + of_nat n"
    using stageRegister_generation[of ?as "env_steadyNow env" "\<lambda>a. a - br_offset ?b" "\<lambda>_. 0" "0xFFFF" w] by blast
  then show "\<exists>n \<le> nat (br_writeCount ?b). sw_generation w' = sw_generation w + of_nat (Suc n)"
    by (intro exI[of _ n]) (simp add: w'_def win w_def forceFlush_def)
qed



end
