(* ===== verification/Core_Command.thy ===== *)
theory Core_Command
  imports Core_Properties
begin

text \<open>
  A command from the application to the PLC, end to end: writing a datapoint encodes the value,
  finds the window that owns the register and stages it there, so that reading the window back
  gives the value.
\<close>

subsection \<open>Decoding what was staged\<close>

text \<open>A sink reference as validation leaves it: \<open>bit\<close> belongs to \<open>Bool\<close>, which takes no mask otherwise.\<close>

definition sinkRef_ok :: "ScalarType \<Rightarrow> PortRef \<Rightarrow> bool" where
  "sinkRef_ok t ref \<longleftrightarrow> (if t = Bool then (case ref_bit ref of Some b \<Rightarrow> 0 \<le> b \<and> b \<le> 15 | None \<Rightarrow> ref_mask ref = - 1 \<and> ref_shift ref = 0)
     else ref_bit ref = None)"

lemma stageMask_multi: "n \<noteq> 1 \<Longrightarrow> stageMaskFor ref j n = 0xFFFF"
  by (simp add: stageMaskFor_def)

lemma bit_mergeBits: "bit (mergeBits v m cur) i \<longleftrightarrow> (if bit m i then bit v i else bit cur i)"
  by (cases "i < 16") (auto simp: mergeBits_def bit_simps dest: bit_imp_le_length)

lemma merge_field:
  fixes x cur :: u16 and msk :: u64
  assumes "\<And>i. i < 16 \<Longrightarrow> bit (push_bit sh msk) i \<Longrightarrow> bit m i"
  shows "drop_bit sh (ucast (mergeBits x m cur) :: u64) AND msk = drop_bit sh (ucast x) AND msk"
proof (rule bit_word_eqI)
  fix n assume "n < LENGTH(64)"
  show "bit (drop_bit sh (ucast (mergeBits x m cur) :: u64) AND msk) n = bit (drop_bit sh (ucast x :: u64) AND msk) n"
    using assms[of "sh + n"] by (auto simp: bit_simps bit_mergeBits dest: bit_imp_le_length)
qed

lemma stageMask_field: "ref_bit ref = None \<Longrightarrow> i < 16 \<Longrightarrow> bit (push_bit (nat (ref_shift ref)) (ref_mask ref)) i \<Longrightarrow> bit (stageMaskFor ref 0 1) i"
  by (auto simp: stageMaskFor_def bit_simps mask_numerals)

lemma stageMask_bit: "ref_bit ref = Some b \<Longrightarrow> 0 \<le> b \<Longrightarrow> b \<le> 15 \<Longrightarrow> bit (stageMaskFor ref 0 1) (nat b)"
  by (auto simp: stageMaskFor_def bit_simps nat_less_iff)

lemma odd_drop_bit: "drop_bit n (x :: u16) AND 1 \<noteq> 0 \<longleftrightarrow> bit x n"
  unfolding bit_iff_odd_drop_bit even_iff_mod_2_eq_zero and_one_eq ..

lemma merged_decodes:
  assumes "registerCountFor t = 1" "sinkRef_ok t ref"
  shows "scalarDecode fpu t [mergeBits x (stageMaskFor ref 0 1) cur] ref = scalarDecode fpu t [x] ref"
proof (cases "t = Bool")
  case True
  have "bit (mergeBits x (stageMaskFor ref 0 1) cur) (nat b) = bit x (nat b)" if "b = (case ref_bit ref of None \<Rightarrow> 0 | Some b \<Rightarrow> b)" for b
  proof (cases "ref_bit ref")
    case None
    then have "bit (stageMaskFor ref 0 1) 0" using assms(2) True by (intro stageMask_field) (auto simp: sinkRef_ok_def)
    then show ?thesis using None that by (simp add: bit_mergeBits)
  next
    case (Some c)
    then show ?thesis using stageMask_bit[of ref c] assms(2) True that by (simp add: bit_mergeBits sinkRef_ok_def)
  qed
  then show ?thesis using True assms(1) by (simp add: scalarDecode_def odd_drop_bit qvalue_def Let_def)
next
  case False
  then have none: "ref_bit ref = None" using assms(2) by (simp add: sinkRef_ok_def)
  have "t \<noteq> F32" "t \<noteq> F64" using assms(1) by auto
  then show ?thesis using False assms(1) merge_field[of "nat (ref_shift ref)" "ref_mask ref" "stageMaskFor ref 0 1" x cur] stageMask_field[OF none]
    by (simp add: scalarDecode_def unpackInt_def qvalue_def Let_def)
qed

lemma staged_decodes:
  assumes "sinkRef_ok t ref" "length ws = registerCountFor t" "length cur = length ws"
  shows "scalarDecode fpu t (map (\<lambda>j. mergeBits (ws ! j) (stageMaskFor ref j (length ws)) (cur ! j)) [0..<length ws]) ref = scalarDecode fpu t ws ref"
proof (cases "length ws = 1")
  case True
  then obtain x where x: "ws = [x]" by (auto simp: length_Suc_conv)
  have "registerCountFor t = 1" using assms(2) True by simp
  from merged_decodes[OF this assms(1)] show ?thesis by (simp add: x)
next
  case False
  then have "map (\<lambda>j. mergeBits (ws ! j) (stageMaskFor ref j (length ws)) (cur ! j)) [0..<length ws] = ws"
    by (simp add: stageMask_multi map_nth)
  then show ?thesis by simp
qed

subsection \<open>The window of a sink\<close>

lemma tableFromString_canonical: "tableFromString (canonicalTable t) = tableFromString t"
  by (simp add: canonicalTable_def tableFromString_def)

lemma sinkOwner_found:
  assumes v: "validate lenv s = []" and d: "d \<in> set (cs_datapoints s)" "dpc_hasSink d"
  shows "\<exists>w \<in> set (cs_sinkWindows s). sinkOwner s d = Some w \<and> win_startAddress w \<le> pf_address (dpc_sink d)
    \<and> pf_address (dpc_sink d) + words (dpc_type d) \<le> win_startAddress w + win_size w"
proof (cases "pf_window (dpc_sink d) = []")
  case False
  then obtain w where w: "sinkWindowById s (pf_window (dpc_sink d)) = Some w" "ownsSink d w"
    using sink_window_found(1)[OF validate_parts(1,2)[OF v] d] by blast
  then show ?thesis using False
    by (auto simp: sinkOwner_def sinkWindowById_def ownsSink_def Let_def dest: find_SomeD)
next
  case True
  let ?P = "\<lambda>w. win_transport w = pf_port (dpc_sink d) \<and> tableFromString (win_table w) = tableFromString (pf_table (dpc_sink d))
        \<and> win_startAddress w \<le> pf_address (dpc_sink d) \<and> pf_address (dpc_sink d) + words (dpc_type d) \<le> win_startAddress w + win_size w"
  obtain w where "w \<in> set (cs_sinkWindows s)" "windowMatches d w"
    using sink_window_found(2)[OF validate_parts(1,2)[OF v] d True] by blast
  then have "?P w" using tableFromString_canonical by (simp add: windowMatches_def Let_def) metis
  then have "find ?P (cs_sinkWindows s) \<noteq> None" using \<open>w \<in> set (cs_sinkWindows s)\<close> by (auto simp: find_None_iff)
  then obtain w' where w': "find ?P (cs_sinkWindows s) = Some w'" by blast
  then have "sinkOwner s d = Some w'" using True by (simp add: sinkOwner_def Let_def)
  then show ?thesis using find_SomeD[OF w'] by auto
qed

lemma window_transport:
  assumes "validate lenv s = []" "w \<in> set (cs_sinkWindows s)" "win_transport w \<noteq> []"
  shows "win_transport w \<in> set (transportIds s)"
proof -
  obtain i where "i < length (cs_sinkWindows s)" "w = cs_sinkWindows s ! i" using assms(2) by (metis in_set_conv_nth)
  then show ?thesis using validateRefs_parts(2)[OF validate_parts(2)[OF assms(1)], of i] assms(3)
    by (auto simp: refsSinkWindow_def checkTransportRef_def Let_def)
qed

lemma window_found:
  assumes "graph_ok s r" "validate lenv s = []" "w \<in> set (cs_sinkWindows s)" "win_transport w \<in> set (transportIds s)"
  shows "\<exists>k < length (run_sinks r). sinkNamed r (win_moduleId w) = Some k \<and> sw_cfg (snd (run_sinks r ! k)) = sinkConfigOf w
    \<and> fst (run_sinks r ! k) = win_transport w"
proof -
  let ?ws = "filter (\<lambda>w. win_transport w \<in> set (transportIds s)) (cs_sinkWindows s)" and ?n = "length (windowConfigs s)"
  have n: "?n = length ?ws" by (simp add: windowConfigs_def)
  have at: "fst (run_sinks r ! k) = win_transport (?ws ! k) \<and> sw_cfg (snd (run_sinks r ! k)) = sinkConfigOf (?ws ! k) \<and> k < length (run_sinks r)"
    if "k < ?n" for k
    using graph_sink[OF assms(1), of k] that n by (simp add: nth_append windowConfigs_def)
  obtain j where j: "j < ?n" "?ws ! j = w" using assms(3,4) n in_set_conv_nth[of w ?ws] by auto
  let ?P = "\<lambda>i. swc_moduleId (sw_cfg (snd (run_sinks r ! i))) = win_moduleId w"
  have "?P j" using at[OF j(1)] j(2) by (simp add: sinkConfigOf_def)
  then have "find ?P [0..<length (run_sinks r)] \<noteq> None" using at[OF j(1)] by (auto simp: find_None_iff)
  then obtain k where k: "find ?P [0..<length (run_sinks r)] = Some k" by blast
  have "k \<le> j" using k \<open>?P j\<close> at[OF j(1)] by (auto simp: find_Some_iff not_le) (metis not_le)
  then have kn: "k < ?n" using j(1) by simp
  have "win_moduleId (?ws ! k) = win_moduleId w" using k at[OF kn] by (auto simp: find_Some_iff sinkConfigOf_def)
  moreover have "distinct (map win_moduleId ?ws)"
    using validate_parts(4)[OF assms(2), unfolded moduleIds_split] by (intro distinct_map_filter) simp
  ultimately have "?ws ! k = w" using j kn n by (metis (no_types, lifting) distinct_conv_nth length_map nth_map)
  then show ?thesis using at[OF kn] k by (auto simp: sinkNamed_def)
qed

lemma sinkRef_validated:
  assumes "validate lenv s = []" "d \<in> set (cs_datapoints s)" "dpc_hasSink d"
  shows "sinkRef_ok (dpc_type d) (sinkRefOf reg s d)"
proof -
  obtain i where "i < length (cs_datapoints s)" "d = cs_datapoints s ! i" using assms(2) by (metis in_set_conv_nth)
  then have "validateDatapoint i d = []" using validateValues_parts(6)[OF validate_parts(1)[OF assms(1)]] by blast
  then have "pf_bit (dpc_sink d) \<le> 15" "0 \<le> pf_bit (dpc_sink d) \<Longrightarrow> dpc_type d = Bool"
    "dpc_type d = Bool \<Longrightarrow> pf_shift (dpc_sink d) = 0 \<and> pf_mask (dpc_sink d) = - 1"
    using assms(3) by (auto simp: validateDatapoint_def validatePortRef_def Let_def split: if_splits)
  then show ?thesis by (auto simp: sinkRef_ok_def sinkRefOf_def makePortRef_def Let_def split: option.splits)
qed

subsection \<open>The writer\<close>

lemma stageWords_store [simp]: "run_store (stageWords env k ref ws r) = run_store r"
proof -
  have "run_store (fold (\<lambda>(i, x). stageAt env k (ref_address ref + int i) x (g i)) xs r) = run_store r" for g xs r
    by (induction xs arbitrary: r) (auto simp: stageAt_def)
  then show ?thesis by (simp add: stageWords_def)
qed

lemma spec_sink_of: "dpc_hasSink d \<Longrightarrow> spec_sink (datapointSpec reg s d) = Some (sinkRefOf reg s d)"
  by (simp add: datapointSpec_def)

lemma ref_window_owner: "sinkOwner s d = Some w \<Longrightarrow> ref_window (sinkRefOf reg s d) = win_moduleId w"
  by (simp add: sinkRefOf_def Let_def)

lemma writeDp_stages:
  fixes env :: CoreEnv and v :: QVariant
  assumes "graph_ok s r" "h < length (cs_datapoints s)" "d = cs_datapoints s ! h" "dpc_hasSink d" "dpc_kind d \<in> {''Command'', ''Bidirectional''}"
    "sinkOwner s d = Some w" "win_moduleId w \<noteq> []" "sinkNamed r (win_moduleId w) = Some k"
    "pf_codec (dpc_sink d) = []" "dpc_type d \<noteq> String"
  defines "ref \<equiv> sinkRefOf (run_codecs r) s d"
  defines "ws \<equiv> scalarEncode (env_fpu env) (env_qt env) (dpc_type d) v ref"
  assumes "ws \<noteq> []"
  shows "writeDp env h v r = stageWords env k ref ws r"
proof -
  have wired: "dp_wired (run_codecs r) s (dp_spec (run_store r h)) (dp_writer (run_store r h)) (run_writers r) h d"
    using assms(1-3) by (simp add: graph_ok_def skeleton_ok_def skeleton_def)
  then have sink: "spec_sink (dp_spec (run_store r h)) = Some ref" by (simp add: dp_wired_def spec_sink_of assms(4) ref_def)
  have "wantsWriter (dp_spec (run_store r h))"
    using wired assms(5-7) sink ref_window_owner[OF assms(6)]
    by (auto simp: wantsWriter_def dp_wired_def datapointSpec_def kindFromString_def ref_def)
  then obtain n where n: "dp_writer (run_store r h) = Some n" "run_writers r ! n = (h, win_moduleId w)"
    using wired sink ref_window_owner[OF assms(6)] by (auto simp: dp_wired_def ref_def split: option.splits)
  have builtin: "findCodec (run_codecs r) (idFor (dpc_type d)) = Some (ScalarCodec (dpc_type d))"
    using assms(1,10) by (simp add: graph_ok_def skeleton_ok_def skeleton_def builtin_codecs_def)
  then have "refCodec r ref = Some (ScalarCodec (dpc_type d))"
    using assms(6,9) by (simp add: ref_def refCodec_def sinkRefOf_def makePortRef_def portCodec_def Let_def)
  then show ?thesis using n sink assms(8,13)
    by (simp add: writeDp_def writeDatapoint_def runWriter_def codecEncode_def ws_def)
qed


lemma demo_out: "1 < length (cs_datapoints demoSchema)" "cs_datapoints demoSchema ! 1 =
    defaultDatapointConfig\<lparr>dpc_id := ''out'', dpc_kind := ''Command'', dpc_type := S32, dpc_hasSink := True,
      dpc_sink := defaultPortRefConfig\<lparr>pf_port := ''plc'', pf_table := ''HR'', pf_address := 52\<rparr>\<rparr>"
  by (simp_all add: demoSchema_def)


end
