(* ===== verification/Core_Lifecycle.thy ===== *)
theory Core_Lifecycle
  imports Core_Command Config_Parse Log_Pipeline
begin

text \<open>
  The life of a core (\<open>src/Core.cpp\<close>): loading a configuration, starting, stopping, and the
  transactional reload.  \<open>Core\<close> holds the members of \<open>CoreImpl\<close> around the runtime graph.  What
  the core asks of its surroundings is appended to a trace: published events, log records, the
  connection and disconnection of transports.

  \<open>LifeEnv\<close> adds to \<open>CoreEnv\<close> the file system (what reading a path gives, absolute paths), the
  settings of the loader, and what a transport object answers to \<open>status\<close>, \<open>peerSessions\<close> and
  \<open>scheduler().stats()\<close>.
\<close>

record LifeEnv = CoreEnv +
  life_loader :: LoaderEnv
  life_conv :: TomlConv
  life_file :: "qstring \<Rightarrow> TomlFile"
  life_absoluteFilePath :: "qstring \<Rightarrow> qstring"
  life_absolutePath :: "qstring \<Rightarrow> qstring"
  life_status :: "qstring \<Rightarrow> TransportStatus"
  life_peers :: "qstring \<Rightarrow> PeerSession list"
  life_stats :: "qstring \<Rightarrow> SchedulerStats"

abbreviation coreEnv :: "LifeEnv \<Rightarrow> CoreEnv" where
  "coreEnv env \<equiv> CoreEnv.truncate env"

datatype CoreAction =
    Logf LogLevel qstring qstring qstring
  | LogOperation qstring qstring qstring qstring
  | PubReloadStarted qstring | PubReloadSucceeded qstring | PubReloadFailed qstring qstring
  | PubModelRebuilt u64 | PubCoreReady | PubCoreStopping
  | PubStats qstring SchedulerStats | PubCircuitChanged qstring CircuitState CircuitState int
  | ConnectThread qstring | JoinConnects | DisconnectTransport qstring | FlushLog | UnloadPlugins "qstring list"

text \<open>
  The runtime graph between \<open>destroyRuntimeGraph\<close> and \<open>initializeRuntimeGraph\<close> is \<open>NoGraph\<close>; one
  that an error abandoned halfway is \<open>Abandoned\<close>, with no claim about what is in it.
\<close>

datatype Graph = NoGraph | Abandoned | Graph Runtime

record Core =
  core_graph :: Graph
  core_configDir :: qstring
  core_activePath :: qstring
  core_activeSchema :: "ConfigSchema option"
  core_logger :: Logger
  core_connects :: "qstring list"
  core_started :: bool
  core_configLoaded :: bool
  core_poisoned :: bool
  core_reloading :: bool
  core_generation :: u64
  core_circuits :: "qstring \<rightharpoonup> CircuitState"
  core_statusCache :: "qstring \<rightharpoonup> TransportStatus"
  core_peerCache :: "qstring \<Rightarrow> PeerSession list"
  core_wired :: bool
  core_mirrorTimer :: "int option"
  core_statsTimer :: "int option"
  core_statsIntervalMs :: int
  core_trace :: "CoreAction list"

definition newCore :: "bool \<Rightarrow> Core" where
  "newCore installDefaultConsole = \<lparr>core_graph = Graph initialRuntime, core_configDir = [], core_activePath = [], core_activeSchema = None,
     core_logger = addSink (if installDefaultConsole then Some 0 else None) (newLogger 8192), core_connects = [],
     core_started = False, core_configLoaded = False, core_poisoned = False, core_reloading = False, core_generation = 0,
     core_circuits = Map.empty, core_statusCache = Map.empty, core_peerCache = (\<lambda>_. []), core_wired = False,
     core_mirrorTimer = None, core_statsTimer = None, core_statsIntervalMs = 1000, core_trace = []\<rparr>"

definition emit :: "CoreAction list \<Rightarrow> Core \<Rightarrow> Core" where
  "emit as c = c\<lparr>core_trace := core_trace c @ as\<rparr>"

text \<open>The members of the graph an operation reads or changes; there is none without a whole graph.\<close>

definition onGraph :: "(Runtime \<Rightarrow> Runtime) \<Rightarrow> Core \<Rightarrow> Core" where
  "onGraph f c = (case core_graph c of Graph r \<Rightarrow> c\<lparr>core_graph := Graph (f r)\<rparr> | _ \<Rightarrow> c)"

definition graphTransports :: "Core \<Rightarrow> qstring list" where
  "graphTransports c = (case core_graph c of Graph r \<Rightarrow> map fst (run_transports r) | _ \<Rightarrow> [])"

subsection \<open>Snapshots\<close>

definition transportOf :: "Core \<Rightarrow> qstring \<Rightarrow> Transport option" where
  "transportOf c i = (case core_graph c of Graph r \<Rightarrow> map_of (run_transports r) i | _ \<Rightarrow> None)"

definition transportStatusOf :: "LifeEnv \<Rightarrow> Core \<Rightarrow> qstring \<Rightarrow> TransportStatus" where
  "transportStatusOf env c i =
     (case core_statusCache c i of Some st \<Rightarrow> st
      | None \<Rightarrow> \<lparr>ts_transportId = i, ts_kind = ModbusTcpClient, ts_state = ConnError, ts_localEndpoint = \<lparr>ep_address = [], ep_port = 0\<rparr>,
          ts_remoteEndpoint = \<lparr>ep_address = [], ep_port = 0\<rparr>, ts_errorMessage = ''transport not found'',
          ts_changedAt = env_dateTime env, ts_revision = 0\<rparr>)"

definition peerSessions :: "Core \<Rightarrow> qstring \<Rightarrow> PeerSession list" where
  "peerSessions c i = core_peerCache c i"

definition refreshSnapshotCache :: "LifeEnv \<Rightarrow> Core \<Rightarrow> Core" where
  "refreshSnapshotCache env c =
     (let ids = graphTransports c in
      c\<lparr>core_statusCache := (\<lambda>i. if i \<in> set ids then Some (life_status env i) else None),
        core_peerCache := (\<lambda>i. if i \<in> set ids then life_peers env i else [])\<rparr>)"

subsection \<open>Timers\<close>

definition startStatsPump :: "Core \<Rightarrow> Core" where
  "startStatsPump c = (if core_statsIntervalMs c \<le> 0 then c else if core_statsTimer c \<noteq> None then c
     else c\<lparr>core_statsTimer := Some (core_statsIntervalMs c)\<rparr>)"

definition stopStatsPump :: "Core \<Rightarrow> Core" where
  "stopStatsPump c = c\<lparr>core_statsTimer := None\<rparr>"

definition startMirrorPump :: "Core \<Rightarrow> Core" where
  "startMirrorPump c = (if core_mirrorTimer c \<noteq> None then c
     else case core_graph c of Graph r \<Rightarrow> c\<lparr>core_mirrorTimer := mirrorPumpPeriod r\<rparr> | _ \<Rightarrow> c)"

definition stopMirrorPump :: "Core \<Rightarrow> Core" where
  "stopMirrorPump c = c\<lparr>core_mirrorTimer := None\<rparr>"

definition publishSchedulerStats :: "LifeEnv \<Rightarrow> qstring \<Rightarrow> Core \<Rightarrow> Core" where
  "publishSchedulerStats env i c =
     (let stats = life_stats env i; previous = (case core_circuits c i of Some st \<Rightarrow> st | None \<Rightarrow> Closed) in
      (emit (PubStats i stats # (if st_circuitState stats \<noteq> previous
         then [PubCircuitChanged i previous (st_circuitState stats) (env_dateTime env)] else [])) c)
        \<lparr>core_circuits := (core_circuits c)(i \<mapsto> st_circuitState stats)\<rparr>)"

definition publishSchedulerStatsOnce :: "LifeEnv \<Rightarrow> Core \<Rightarrow> Core" where
  "publishSchedulerStatsOnce env c = fold (publishSchedulerStats env) (graphTransports c) c"

subsection \<open>Start and stop\<close>

definition installEventWiring :: "Core \<Rightarrow> Core" where
  "installEventWiring c = c\<lparr>core_wired := True\<rparr>"

definition joinConnectThreads :: "Core \<Rightarrow> Core" where
  "joinConnectThreads c = emit [JoinConnects] (c\<lparr>core_connects := []\<rparr>)"

definition start :: "LifeEnv \<Rightarrow> Core \<Rightarrow> Core" where
  "start env c =
     (if core_started c then c
      else if \<not> core_configLoaded c
      then emit [Logf ErrorLevel ''core'' ''ICore'' ''start rejected: no valid configuration is loaded''] c
      else let c = installEventWiring (c\<lparr>core_started := True\<rparr>);
               ids = graphTransports c;
               c = emit (map ConnectThread ids) (c\<lparr>core_connects := core_connects c @ ids\<rparr>);
               c = startMirrorPump (startStatsPump (onGraph (startModules (coreEnv env)) c))
           in emit [PubCoreReady, Logf Info ''core'' ''ICore'' ''started''] c)"

definition stop :: "Core \<Rightarrow> Core" where
  "stop c =
     (if \<not> core_started c then c
      else let c = joinConnectThreads (emit [Logf Info ''core'' ''ICore'' ''stopping''] (c\<lparr>core_started := False\<rparr>));
               c = onGraph stopModules (stopMirrorPump (stopStatsPump (emit [PubCoreStopping] c)))
           in emit (map DisconnectTransport (graphTransports c) @ [FlushLog]) c)"

text \<open>What a connection thread reports when its \<open>connect\<close> failed.\<close>

definition connectFailed :: "qstring \<Rightarrow> qstring \<Rightarrow> Core \<Rightarrow> Core" where
  "connectFailed i err c = emit [Logf ErrorLevel ''transport'' i (qarg ''initial connect failed: %1'' err)] c"

subsection \<open>Subscribers\<close>

definition logTransportEvent :: "TransportStatus \<Rightarrow> Core \<Rightarrow> Core" where
  "logTransportEvent after c =
     (if \<not> core_started c \<and> ts_state after = Disconnected then c
      else let (what, level) = (case ts_state after of Connected \<Rightarrow> (''connected'', Info) | Connecting \<Rightarrow> (''connecting'', Info)
                 | Disconnected \<Rightarrow> (''disconnected'', Warn) | ConnError \<Rightarrow> (''connection error'', ErrorLevel))
           in emit [Logf level ''transport'' (ts_transportId after)
                (if ts_errorMessage after = [] then what else what @ '': '' @ ts_errorMessage after)] c)"

definition coreTransportState :: "TransportStatus \<Rightarrow> TransportStatus \<Rightarrow> Core \<Rightarrow> Core" where
  "coreTransportState before after c =
     (if \<not> core_wired c then c
      else onGraph (onTransportState before after)
             (logTransportEvent after (c\<lparr>core_statusCache := (core_statusCache c)(ts_transportId after \<mapsto> after)\<rparr>)))"

definition corePeerSession :: "PeerSessionChangeKind \<Rightarrow> PeerSession \<Rightarrow> Core \<Rightarrow> Core" where
  "corePeerSession kind s c = (if \<not> core_wired c then c else c\<lparr>core_peerCache := onPeerSession kind s (core_peerCache c)\<rparr>)"

definition corePollCompleted :: "PollRangeCompleted \<Rightarrow> Core \<Rightarrow> Core" where
  "corePollCompleted e c = (if \<not> core_wired c then c else onGraph (\<lambda>r. snd (onPollRangeCompleted e r)) c)"

definition coreServerWrite :: "CoreEnv \<Rightarrow> ServerWriteEvent \<Rightarrow> Core \<Rightarrow> Core" where
  "coreServerWrite env e c =
     (if \<not> core_wired c then c
      else onGraph (onServerWrite env e)
             (emit [LogOperation ''operator-box'' ''server-write'' (se_transportId e)
                (show_nat (length (se_values e)) @ '' regs @ '' @ show_int (se_startAddress e))] c))"

subsection \<open>Building and tearing down the graph\<close>

definition errorLogs :: "qstring \<Rightarrow> ValidationError list \<Rightarrow> CoreAction list" where
  "errorLogs path errs = map (\<lambda>e. Logf ErrorLevel ''config'' path (ve_message e)) errs"

definition exceptionMessage :: "Exception \<Rightarrow> qstring" where
  "exceptionMessage e = (case e of StdException what \<Rightarrow> qarg ''runtime graph initialization failed: %1'' what
     | UnknownException \<Rightarrow> ''runtime graph initialization failed with an unknown exception'')"

definition applyLogLevel :: "MetaConfig \<Rightarrow> Logger \<Rightarrow> Logger" where
  "applyLogLevel m l = (if meta_logLevel m = [] then l else setThreshold (levelFromString (meta_logLevel m)) l)"

definition buildRuntimeFromSchema :: "LifeEnv \<Rightarrow> ConfigSchema \<Rightarrow> qstring \<Rightarrow> Core \<Rightarrow> (ValidationError list + unit) \<times> Core" where
  "buildRuntimeFromSchema env s path c =
     (let c = c\<lparr>core_configDir := life_absolutePath env path\<rparr> in
      case core_graph c of Graph r \<Rightarrow>
        (let (codecs, codecErrors) = registerCustomCodecs (coreEnv env) (core_configDir c) s (run_codecs r) in
         if codecErrors \<noteq> [] then (Inl codecErrors, emit (errorLogs path codecErrors) (c\<lparr>core_graph := Abandoned\<rparr>))
         else let (plugins, pluginErrors) = loadPluginLibraries (coreEnv env) (core_configDir c) s (run_plugins r) in
           if pluginErrors \<noteq> []
           then (Inl pluginErrors, emit (UnloadPlugins (fst (unloadAll plugins)) # errorLogs path pluginErrors) (c\<lparr>core_graph := Abandoned\<rparr>))
           else let c = c\<lparr>core_logger := applyLogLevel (cs_meta s) (core_logger c)\<rparr> in
             case wireFromSchema (coreEnv env) s (r\<lparr>run_codecs := codecs, run_plugins := plugins\<rparr>) of
               Inr r' \<Rightarrow> (Inr (), c\<lparr>core_graph := Graph r'\<rparr>)
             | Inl e \<Rightarrow>
                 (let message = exceptionMessage e in
                  (Inl (rejectIf True ''core'' ''initialization'' message),
                   emit [UnloadPlugins (fst (unloadAll plugins)), Logf ErrorLevel ''config'' path message] (c\<lparr>core_graph := Abandoned\<rparr>))))
      | _ \<Rightarrow> (Inr (), c))"

definition initializeRuntimeGraph :: "Core \<Rightarrow> Core" where
  "initializeRuntimeGraph c = c\<lparr>core_graph := Graph initialRuntime\<rparr>"

definition destroyRuntimeGraph :: "Core \<Rightarrow> Core" where
  "destroyRuntimeGraph c =
     (let c = joinConnectThreads ((stopMirrorPump (stopStatsPump (stop c)))\<lparr>core_wired := False\<rparr>) in
      c\<lparr>core_graph := NoGraph, core_circuits := Map.empty, core_statusCache := Map.empty, core_peerCache := (\<lambda>_. []),
        core_configLoaded := False, core_poisoned := False\<rparr>)"

subsection \<open>Loading and reloading a configuration\<close>

definition refuse :: "qstring \<Rightarrow> qstring \<Rightarrow> ValidationError list + unit" where
  "refuse operation message = Inl (rejectIf True ''core'' operation message)"

definition loadSchema :: "LifeEnv \<Rightarrow> qstring \<Rightarrow> ValidationError list + ConfigSchema" where
  "loadSchema env path = loadFromToml (life_loader env) (env_fpu env) (life_conv env) path (life_file env path)"

definition loadConfig :: "LifeEnv \<Rightarrow> qstring \<Rightarrow> Core \<Rightarrow> (ValidationError list + unit) \<times> Core" where
  "loadConfig env path c =
     (if core_started c then (refuse ''loadConfig'' ''configuration cannot be loaded while Core is running'', c)
      else if core_configLoaded c then (refuse ''loadConfig'' ''configuration is already loaded; use reloadConfig() to replace it'', c)
      else if core_poisoned c then (refuse ''loadConfig'' ''a previous runtime graph build failed; create a new Core instance'', c)
      else case loadSchema env path of
        Inl errs \<Rightarrow> (Inl errs, emit (errorLogs path errs) c)
      | Inr s \<Rightarrow>
          (case buildRuntimeFromSchema env s path c of
             (Inl errs, c) \<Rightarrow> (Inl errs, c\<lparr>core_poisoned := True\<rparr>)
           | (Inr _, c) \<Rightarrow>
               (Inr (), emit [Logf Info ''config'' path ''loaded'']
                  (refreshSnapshotCache env (c\<lparr>core_configLoaded := True, core_activeSchema := Some s,
                     core_activePath := life_absoluteFilePath env path\<rparr>)))))"

fun joinStrings :: "qstring \<Rightarrow> qstring list \<Rightarrow> qstring" where
  "joinStrings sep [] = []"
| "joinStrings sep [x] = x"
| "joinStrings sep (x # y # xs) = x @ sep @ joinStrings sep (y # xs)"

definition summarize :: "ValidationError list \<Rightarrow> qstring" where
  "summarize errs = joinStrings ''; '' (map ve_message errs)"

definition closeServers :: "LifeEnv \<Rightarrow> ConfigSchema \<Rightarrow> Core \<Rightarrow> Core" where
  "closeServers env s c = fold (\<lambda>tc. if tp_kind tc = ModbusTcpServer
     then onGraph (setServerForwardEnabled (coreEnv env) (tp_id tc) False) else id) (cs_transports s) c"

definition gatesOf :: "Core \<Rightarrow> qstring \<rightharpoonup> bool" where
  "gatesOf c = (case core_graph c of Graph r \<Rightarrow> run_forward r | _ \<Rightarrow> Map.empty)"

text \<open>The part of \<open>reloadConfig\<close> after the candidate schema \<open>s\<close> passed; \<open>prev\<close> is the active schema.\<close>

definition commitReload :: "LifeEnv \<Rightarrow> ConfigSchema \<Rightarrow> qstring \<Rightarrow> bool \<Rightarrow> Core \<Rightarrow> Core" where
  "commitReload env s path wasRunning c =
     (let c = c\<lparr>core_configLoaded := True, core_activeSchema := Some s, core_activePath := path\<rparr>;
          c = closeServers env s c;
          c = refreshSnapshotCache env (c\<lparr>core_generation := core_generation c + 1\<rparr>);
          c = (if wasRunning then start env c else c)
      in emit [PubModelRebuilt (core_generation c), PubReloadSucceeded path] c)"

definition rollbackReload :: "LifeEnv \<Rightarrow> ConfigSchema \<Rightarrow> qstring \<Rightarrow> LogFilter \<Rightarrow> (qstring \<rightharpoonup> bool) \<Rightarrow> bool \<Rightarrow> ValidationError list \<Rightarrow> Core
    \<Rightarrow> ValidationError list \<times> Core" where
  "rollbackReload env prev prevPath prevFilter prevForward wasRunning errs c =
     (let c = initializeRuntimeGraph (destroyRuntimeGraph c);
          c = c\<lparr>core_logger := setFilter prevFilter (core_logger c)\<rparr>
      in case buildRuntimeFromSchema env prev prevPath c of
           (Inr _, c) \<Rightarrow>
             (let c = c\<lparr>core_configLoaded := True, core_activeSchema := Some prev, core_activePath := prevPath\<rparr>;
                  c = refreshSnapshotCache env (onGraph (\<lambda>r. r\<lparr>run_forward := prevForward\<rparr>) c)
              in (errs, if wasRunning then start env c else c))
         | (Inl undo, c) \<Rightarrow>
             (errs @ map (\<lambda>e. e\<lparr>ve_section := ''rollback.'' @ ve_section e\<rparr>) undo,
              emit [Logf Critical ''config'' prevPath (qarg ''configuration rollback failed: %1'' (summarize undo))]
                (c\<lparr>core_poisoned := True\<rparr>)))"

text \<open>The tail of the reload, from the moment the candidate passed.\<close>

definition switchTo :: "LifeEnv \<Rightarrow> LifeEnv \<Rightarrow> qstring \<Rightarrow> ConfigSchema \<Rightarrow> ConfigSchema \<Rightarrow> Core \<Rightarrow> (ValidationError list + unit) \<times> Core" where
  "switchTo env undo path s prev c =
     (let d = closeServers env prev c;
          d = initializeRuntimeGraph (destroyRuntimeGraph (if core_started c then stop d else d))
      in case buildRuntimeFromSchema env s path d of
           (Inr _, d) \<Rightarrow> (Inr (), commitReload env s path (core_started c) d)
         | (Inl errs, d) \<Rightarrow>
             (let (all, d) = rollbackReload undo prev (core_activePath c) (lg_filter (core_logger c)) (gatesOf c) (core_started c) errs d
              in (Inl all, emit [PubReloadFailed path (summarize all)] d)))"

definition reloadBody :: "LifeEnv \<Rightarrow> LifeEnv \<Rightarrow> LifeEnv \<Rightarrow> qstring \<Rightarrow> ConfigSchema \<Rightarrow> Core \<Rightarrow> (ValidationError list + unit) \<times> Core" where
  "reloadBody pre env undo path prev c =
     (let abs = life_absoluteFilePath pre path;
          c = emit [PubReloadStarted abs] c
      in case loadConfig pre abs (newCore False) of
           (Inl errs, _) \<Rightarrow> (Inl errs, emit [PubReloadFailed abs (summarize errs)] c)
         | (Inr _, candidate) \<Rightarrow> switchTo env undo abs (the (core_activeSchema candidate)) prev c)"

definition reloadConfig :: "LifeEnv \<Rightarrow> LifeEnv \<Rightarrow> LifeEnv \<Rightarrow> qstring \<Rightarrow> Core \<Rightarrow> (ValidationError list + unit) \<times> Core" where
  "reloadConfig pre env undo path c =
     (if core_reloading c then (refuse ''reloadConfig'' ''another configuration reload is already in progress'', c)
      else case (core_configLoaded c, core_activeSchema c) of
        (True, Some prev) \<Rightarrow>
          (let (res, c) = reloadBody pre env undo path prev (c\<lparr>core_reloading := True\<rparr>) in (res, c\<lparr>core_reloading := False\<rparr>))
      | _ \<Rightarrow> (refuse ''reloadConfig'' ''no active configuration to reload'', c))"

subsection \<open>Histories\<close>

definition setSchedulerStatsIntervalMs :: "int \<Rightarrow> Core \<Rightarrow> Core" where
  "setSchedulerStatsIntervalMs ms c = c\<lparr>core_statsIntervalMs := ms\<rparr>"

definition coreForwardEnabled :: "CoreEnv \<Rightarrow> qstring \<Rightarrow> bool \<Rightarrow> Core \<Rightarrow> Core" where
  "coreForwardEnabled env server enabled c = onGraph (setServerForwardEnabled env server enabled) c"

text \<open>Every history of a core: the calls of the application, the events of the bus, and the steps of a loaded graph.\<close>

inductive coreLife :: "Core \<Rightarrow> bool" where
  created: "coreLife (newCore installDefaultConsole)"
| loaded: "coreLife c \<Longrightarrow> coreLife (snd (loadConfig env path c))"
| reloaded: "coreLife c \<Longrightarrow> coreLife (snd (reloadConfig pre env undo path c))"
| started: "coreLife c \<Longrightarrow> coreLife (start env c)"
| stopped: "coreLife c \<Longrightarrow> coreLife (stop c)"
| gated: "coreLife c \<Longrightarrow> coreLife (coreForwardEnabled env' server enabled c)"
| interval: "coreLife c \<Longrightarrow> coreLife (setSchedulerStatsIntervalMs ms c)"
| stats: "coreLife c \<Longrightarrow> coreLife (publishSchedulerStatsOnce env c)"
| unconnected: "coreLife c \<Longrightarrow> coreLife (connectFailed i err c)"
| transportState: "coreLife c \<Longrightarrow> coreLife (coreTransportState before after c)"
| peerSession: "coreLife c \<Longrightarrow> coreLife (corePeerSession kind session c)"
| pollCompleted: "coreLife c \<Longrightarrow> coreLife (corePollCompleted e c)"
| serverWrite: "coreLife c \<Longrightarrow> coreLife (coreServerWrite env' se c)"
| stepped: "coreLife c \<Longrightarrow> core_configLoaded c \<Longrightarrow> core_graph c = Graph r \<Longrightarrow> coreStep r r' \<Longrightarrow> coreLife (c\<lparr>core_graph := Graph r'\<rparr>)"

end
