(* ===== verification/Core_Reload.thy ===== *)
theory Core_Reload
  imports Core_Lifecycle
begin

text \<open>
  Lifecycle and reload of a core: the invariant of every history, and the transaction
  \<open>reloadConfig\<close> is.  Building a graph is summarised by \<open>graphOf\<close>, the preflight by \<open>preflight\<close>;
  \<open>settled\<close> says that a core runs or rests on a configuration, \<open>dead\<close> that it can only be discarded.
\<close>

subsection \<open>The forwarding gates while the graph is built\<close>

text \<open>Nothing reads the gates while the graph is wired, so the ones set before loading survive it.\<close>

abbreviation withGates :: "(qstring \<rightharpoonup> bool) \<Rightarrow> Runtime \<Rightarrow> Runtime" where
  "withGates g r \<equiv> r\<lparr>run_forward := g\<rparr>"

lemma foldE_gates:
  assumes "\<And>x r. f x (withGates g r) = map_sum id (withGates g) (f x r)"
  shows "foldE f xs (withGates g r) = map_sum id (withGates g) (foldE f xs r)"
  by (induction xs arbitrary: r) (auto simp: assms split: sum.splits)

lemma fold_gates:
  assumes "\<And>x r. f x (withGates g r) = withGates g (f x r)"
  shows "fold f xs (withGates g r) = withGates g (fold f xs r)"
  by (induction xs arbitrary: r) (auto simp: assms)

lemma registerOrThrow_gates: "registerOrThrow m (withGates g r) = map_sum id (withGates g) (registerOrThrow m r)"
  by (simp add: registerOrThrow_def Let_def case_prod_beta)

lemma hasTransport_gates [simp]: "hasTransport (withGates g r) = hasTransport r"
  by (simp add: hasTransport_def fun_eq_iff)

lemma pushSink_gates: "pushSink t k (withGates g r) = map_sum id (withGates g) (pushSink t k r)"
  by (simp add: pushSink_def Let_def registerOrThrow_gates split: sum.splits)

lemma wireBindings_gates [simp]: "wireBindings s (withGates g r) = wireBindings s r"
  by (simp add: wireBindings_def fun_eq_iff cong: if_cong)

lemma module_gates:
  "buildSinkWindow w (withGates g r) = map_sum id (withGates g) (buildSinkWindow w r)"
  "buildHeartbeat h (withGates g r) = map_sum id (withGates g) (buildHeartbeat h r)"
  "buildAckWatch a (withGates g r) = map_sum id (withGates g) (buildAckWatch a r)"
  "buildCommand k (withGates g r) = map_sum id (withGates g) (buildCommand k r)"
  "buildPollRange s p (withGates g r) = map_sum id (withGates g) (buildPollRange s p r)"
  "buildBridge ib (withGates g r) = map_sum id (withGates g) (buildBridge ib r)"
  by (simp_all add: buildSinkWindow_def buildHeartbeat_def buildAckWatch_def buildCommand_def buildPollRange_def buildBridge_def
      pushSink_gates registerOrThrow_gates Let_def case_prod_beta split: sum.splits)

lemma datapoint_gates: "buildDatapoint s d (withGates g r) = map_sum id (withGates g) (buildDatapoint s d r)"
  by (simp add: buildDatapoint_def Let_def case_prod_beta split: option.splits)

lemma gates_commute:
  "(withGates g r)\<lparr>run_transports := t\<rparr> = withGates g (r\<lparr>run_transports := t\<rparr>)"
  "(withGates g r)\<lparr>run_routes := rt\<rparr> = withGates g (r\<lparr>run_routes := rt\<rparr>)"
  "(withGates g r)\<lparr>run_ports := p\<rparr> = withGates g (r\<lparr>run_ports := p\<rparr>)"
  "(withGates g r)\<lparr>run_bridges := bs, run_mirrors := ms, run_fwdSinks := fs\<rparr> = withGates g (r\<lparr>run_bridges := bs, run_mirrors := ms, run_fwdSinks := fs\<rparr>)"
  by simp_all

lemma refCodec_gates: "refCodec (withGates g r) = refCodec r"
  by (simp add: refCodec_def fun_eq_iff)

lemma routeTarget_gates: "routeTarget (withGates g r) = routeTarget r"
  by (simp add: routeTarget_def fun_eq_iff Let_def)

lemma route_gates: "buildServerRoutes s (withGates g r) = withGates g (buildServerRoutes s r)"
proof -
  have "buildServerRoute x (withGates g r) = withGates g (buildServerRoute x r)" for x r
    unfolding buildServerRoute_def routeTarget_gates refCodec_gates
    by (cases "findDp (run_dps r) (rt_from x)"; cases "findDp (run_dps r) (rt_to x)") (simp_all split: option.split)
  note each = fold_gates[of buildServerRoute g, OF this]
  show ?thesis unfolding buildServerRoutes_def gates_commute by (rule each)
qed

lemma bridges_gates: "buildBridges s (withGates g r) = map_sum id (withGates g) (buildBridges s r)"
  unfolding buildBridges_def gates_commute by (rule foldE_gates[of buildBridge, OF module_gates(6)])

lemma writer_gates: "runWriter env hw v (withGates g r) = withGates g (runWriter env hw v r)"
proof -
  have st: "setStateAt h st (withGates g r) = withGates g (setStateAt h st r)" for h st r
    by (simp add: setStateAt_def Let_def case_prod_beta)
  have stage: "stageWords env k ref ws (withGates g r) = withGates g (stageWords env k ref ws r)" for k ref ws r
    unfolding stageWords_def by (rule fold_gates) (simp add: stageAt_def case_prod_beta)
  show ?thesis by (simp add: runWriter_def Let_def st stage refCodec_def sinkNamed_def case_prod_beta split: option.splits)
qed

lemma plugins_gates: "initializePlugins env (withGates g r) = map_sum id (withGates g) (initializePlugins env r)"
proof -
  have sent: "portWrite env iv (withGates g r) = withGates g (portWrite env iv r)" for iv r
    by (simp add: portWrite_def writer_gates split: option.splits)
  have "initializePlugin env p (withGates g r) = map_sum id (withGates g) (initializePlugin env p r)" for p r
    by (simp add: initializePlugin_def Let_def case_prod_beta fold_gates[of "portWrite env" g, OF sent] split: option.splits)
  note each = foldE_gates[of "initializePlugin env" g, OF this]
  show ?thesis unfolding initializePlugins_def gates_commute each by (simp add: Let_def case_prod_beta split: option.splits)
qed

lemmas build_gates = foldE_gates[of buildSinkWindow, OF module_gates(1)] foldE_gates[of buildHeartbeat, OF module_gates(2)]
  foldE_gates[of buildAckWatch, OF module_gates(3)] foldE_gates[of buildCommand, OF module_gates(4)]
  foldE_gates[of "buildPollRange s" for s, OF module_gates(5)] foldE_gates[of "buildDatapoint s" for s, OF datapoint_gates]

lemma bind_gates:
  assumes "m = map_sum id (withGates g) m'" "\<And>r. k (withGates g r) = map_sum id (withGates g) (k' r)"
  shows "(case m of Inl e \<Rightarrow> Inl e | Inr r \<Rightarrow> k r) = map_sum id (withGates g) (case m' of Inl e \<Rightarrow> Inl e | Inr r \<Rightarrow> k' r)"
  using assms by (cases m') simp_all

lemma wire_gates: "wireFromSchema env s (withGates g r) = map_sum id (withGates g) (wireFromSchema env s r)"
proof -
  have "run_transports (withGates g r) = run_transports r" by simp
  then show ?thesis unfolding wireFromSchema_def gates_commute
    by (intro bind_gates) (simp_all only: build_gates route_gates bridges_gates plugins_gates)
qed

subsection \<open>What building gives\<close>

text \<open>The graph a schema gives, or the errors: the outcome of \<open>buildRuntimeFromSchema\<close> on a fresh graph.\<close>

definition graphOf :: "LifeEnv \<Rightarrow> ConfigSchema \<Rightarrow> qstring \<Rightarrow> ValidationError list + Runtime" where
  "graphOf env s path =
     (let (codecs, codecErrors) = registerCustomCodecs (coreEnv env) (life_absolutePath env path) s (loadBuiltins Map.empty);
          (plugins, pluginErrors) = loadPluginLibraries (coreEnv env) (life_absolutePath env path) s pluginRegistry
      in if codecErrors \<noteq> [] then Inl codecErrors else if pluginErrors \<noteq> [] then Inl pluginErrors
         else case wireFromSchema (coreEnv env) s (preparedRuntime codecs plugins) of
           Inl e \<Rightarrow> Inl (rejectIf True ''core'' ''initialization'' (exceptionMessage e)) | Inr r \<Rightarrow> Inr r)"

lemma graphOf_reach: "validate lenv s = [] \<Longrightarrow> graphOf env s path = Inr r \<Longrightarrow> coreReach s r"
  by (auto simp: graphOf_def Let_def split: prod.splits if_splits sum.splits intro: coreReach.wired)

lemma build_result:
  assumes "core_graph c = Graph (withGates g initialRuntime)"
  shows "case graphOf env s path of
    Inr r \<Rightarrow> buildRuntimeFromSchema env s path c = (Inr (), c\<lparr>core_configDir := life_absolutePath env path,
        core_logger := applyLogLevel (cs_meta s) (core_logger c), core_graph := Graph (withGates g r)\<rparr>)
  | Inl errs \<Rightarrow> \<exists>l as. buildRuntimeFromSchema env s path c = (Inl errs, c\<lparr>core_configDir := life_absolutePath env path,
        core_logger := l, core_graph := Abandoned, core_trace := core_trace c @ as\<rparr>)"
proof -
  have fresh: "run_codecs (withGates g initialRuntime) = loadBuiltins Map.empty" "run_plugins (withGates g initialRuntime) = pluginRegistry"
    by (simp_all add: initialRuntime_def)
  have prep: "(withGates g initialRuntime)\<lparr>run_codecs := cs, run_plugins := ps\<rparr> = withGates g (preparedRuntime cs ps)" for cs ps
    by (simp add: preparedRuntime_def)
  obtain codecs e1 where c: "registerCustomCodecs (coreEnv env) (life_absolutePath env path) s (loadBuiltins Map.empty) = (codecs, e1)" by fastforce
  obtain ps e2 where p: "loadPluginLibraries (coreEnv env) (life_absolutePath env path) s pluginRegistry = (ps, e2)" by fastforce
  note defs = buildRuntimeFromSchema_def graphOf_def Let_def emit_def assms fresh c p prep wire_gates
  have codecs_failed: ?thesis if "e1 \<noteq> []"
    using that by (simp add: defs) (intro exI[of _ "core_logger c"] exI[of _ "errorLogs path e1"], simp)
  have plugins_failed: ?thesis if "e1 = []" "e2 \<noteq> []"
    using that by (simp add: defs) (intro exI[of _ "core_logger c"] exI[of _ "UnloadPlugins (fst (unloadAll ps)) # errorLogs path e2"], simp)
  have ?thesis if "e1 = []" "e2 = []"
    using that by (cases "wireFromSchema (coreEnv env) s (preparedRuntime codecs ps)") (simp_all add: defs, blast)
  then show ?thesis using codecs_failed plugins_failed by blast
qed

subsection \<open>The invariant of a core\<close>

definition quiet :: "Core \<Rightarrow> bool" where
  "quiet c \<longleftrightarrow> core_mirrorTimer c = None \<and> core_statsTimer c = None \<and> core_connects c = []"

definition holds :: "Core \<Rightarrow> ConfigSchema \<Rightarrow> bool" where
  "holds c = (\<lambda>s. core_activeSchema c = Some s \<and> (\<exists>r. core_graph c = Graph r \<and> coreReach s r))"

definition core_inv :: "Core \<Rightarrow> bool" where
  "core_inv c \<longleftrightarrow> \<not> core_reloading c \<and> (core_started c \<longrightarrow> core_configLoaded c \<and> core_wired c) \<and> (\<not> core_started c \<longrightarrow> quiet c)
     \<and> (if core_configLoaded c then \<not> core_poisoned c \<and> (\<exists>s. holds c s)
        else \<not> core_wired c \<and> (if core_poisoned c then core_graph c = Abandoned else \<exists>g. core_graph c = Graph (withGates g initialRuntime)))"

lemma core_invE:
  assumes "core_inv c"
  obtains (Loaded) s r where "core_configLoaded c" "\<not> core_poisoned c" "core_activeSchema c = Some s" "core_graph c = Graph r" "coreReach s r"
  | (Poisoned) "\<not> core_configLoaded c" "core_poisoned c" "\<not> core_started c" "\<not> core_wired c" "core_graph c = Abandoned"
  | (Fresh) g where "\<not> core_configLoaded c" "\<not> core_poisoned c" "\<not> core_started c" "\<not> core_wired c" "core_graph c = Graph (withGates g initialRuntime)"
  using assms by (auto simp: core_inv_def holds_def split: if_splits)

text \<open>A change of the graph by steps that reachability absorbs.\<close>

lemma onGraph_inv:
  assumes "core_inv c" "\<And>s r. core_graph c = Graph r \<Longrightarrow> coreReach s r \<Longrightarrow> coreReach s (f r)"
    "core_configLoaded c \<or> (\<forall>g. \<exists>g'. f (withGates g initialRuntime) = withGates g' initialRuntime)"
  shows "core_inv (onGraph f c)"
  using assms(1)
proof (cases rule: core_invE)
  case (Loaded s r)
  then have "coreReach s (f r)" using assms(2) by blast
  then show ?thesis using Loaded assms(1) by (auto simp: onGraph_def core_inv_def holds_def quiet_def)
next
  case (Fresh g)
  then show ?thesis using assms(1,3) by (auto simp: onGraph_def core_inv_def quiet_def)
qed (use assms(1) in \<open>simp add: onGraph_def\<close>)

lemma emit_inv [simp]: "core_inv (emit as c) \<longleftrightarrow> core_inv c"
  by (simp add: core_inv_def emit_def quiet_def holds_def)

lemma emit_fields [simp]: "core_graph (emit as c) = core_graph c" "core_configLoaded (emit as c) = core_configLoaded c"
  "core_wired (emit as c) = core_wired c" "core_started (emit as c) = core_started c" "core_trace (emit as c) = core_trace c @ as"
  "core_reloading (emit as c) = core_reloading c" "core_generation (emit as c) = core_generation c" "core_logger (emit as c) = core_logger c"
  by (simp_all add: emit_def)

lemma cache_inv [simp]:
  "core_inv (c\<lparr>core_statusCache := m\<rparr>) \<longleftrightarrow> core_inv c" "core_inv (c\<lparr>core_peerCache := p\<rparr>) \<longleftrightarrow> core_inv c"
  "core_inv (c\<lparr>core_circuits := k\<rparr>) \<longleftrightarrow> core_inv c" "core_inv (c\<lparr>core_statsIntervalMs := ms\<rparr>) \<longleftrightarrow> core_inv c"
  "core_inv (c\<lparr>core_generation := n\<rparr>) \<longleftrightarrow> core_inv c" "core_inv (c\<lparr>core_activePath := path\<rparr>) \<longleftrightarrow> core_inv c"
  "core_inv (refreshSnapshotCache env c) \<longleftrightarrow> core_inv c" "core_inv (c\<lparr>core_trace := tr\<rparr>) \<longleftrightarrow> core_inv c"
  by (simp_all add: core_inv_def quiet_def holds_def refreshSnapshotCache_def Let_def)

lemma forward_fresh: "\<exists>g'. setServerForwardEnabled env server en (withGates g initialRuntime) = withGates g' initialRuntime"
  by (auto simp: setServerForwardEnabled_def zeroBridgeForward_def initialRuntime_def Let_def)

lemma forward_inv: "core_inv c \<Longrightarrow> core_inv (onGraph (setServerForwardEnabled env server en) c)"
  using forward_fresh by (intro onGraph_inv) (auto intro: coreReach.stepped coreStep.gated)

lemma wired_loaded: "core_inv c \<Longrightarrow> core_wired c \<Longrightarrow> core_configLoaded c"
  by (auto simp: core_inv_def split: if_splits)

lemma subscribers_inv:
  assumes "core_inv c"
  shows "core_inv (coreTransportState before after c)" "core_inv (corePeerSession kind session c)"
    "core_inv (corePollCompleted e c)" "core_inv (coreServerWrite env se c)"
proof -
  have log: "core_inv (logTransportEvent after d) \<longleftrightarrow> core_inv d" "core_configLoaded (logTransportEvent after d) = core_configLoaded d" for d
    by (simp_all add: logTransportEvent_def split: ConnectionState.split)
  note steps = coreReach.stepped coreStep.transportEvent coreStep.polled coreStep.serverWrite
  show "core_inv (coreTransportState before after c)" "core_inv (corePollCompleted e c)" "core_inv (coreServerWrite env se c)"
    using assms wired_loaded[OF assms]
    by (auto simp: coreTransportState_def corePollCompleted_def coreServerWrite_def log intro!: onGraph_inv intro: steps)
  show "core_inv (corePeerSession kind session c)" using assms by (simp add: corePeerSession_def)
qed

text \<open>The members that starting, stopping and closing gates leave alone.\<close>

definition identity :: "Core \<Rightarrow> bool \<times> bool \<times> bool \<times> u64 \<times> ConfigSchema option \<times> qstring \<times> Logger" where
  "identity c = (core_reloading c, core_configLoaded c, core_poisoned c, core_generation c, core_activeSchema c, core_activePath c, core_logger c)"

lemmas life_defs = emit_def onGraph_def installEventWiring_def startStatsPump_def startMirrorPump_def stopStatsPump_def stopMirrorPump_def
  joinConnectThreads_def Let_def

lemma identity_emit [simp]: "identity (emit as c) = identity c" "identity (refreshSnapshotCache env c) = identity c" "identity (onGraph f c) = identity c"
  by (simp_all add: identity_def emit_def refreshSnapshotCache_def onGraph_def Let_def split: Graph.split)

lemma identity_start [simp]: "identity (start env c) = identity c"
  by (simp add: identity_def start_def life_defs split: Graph.split)

lemma identity_stop [simp]: "identity (stop c) = identity c"
  by (simp add: identity_def stop_def life_defs split: Graph.split)

lemma start_effect:
  assumes "core_configLoaded c" "core_graph c = Graph r"
  shows "core_started (start env c)" "core_graph (start env c) = Graph (if core_started c then r else startModules (coreEnv env) r)"
    "core_wired (start env c) = (if core_started c then core_wired c else True)"
  using assms by (simp_all add: start_def life_defs)

lemma start_inv: assumes inv: "core_inv c" shows "core_inv (start env c)"
  using inv
proof (cases rule: core_invE)
  case l: (Loaded s r)
  have "core_reloading (start env c) = core_reloading c" "core_configLoaded (start env c) = core_configLoaded c" "core_poisoned (start env c) = core_poisoned c"
    "core_activeSchema (start env c) = core_activeSchema c" using identity_start[of env c] by (simp_all add: identity_def)
  moreover have "coreReach s (if core_started c then r else startModules (coreEnv env) r)" using l(5) by (simp add: coreReach.started)
  ultimately show ?thesis using inv l(1-4) start_effect[OF l(1,4), of env] by (auto simp: core_inv_def holds_def split: if_splits)
qed (use inv in \<open>simp_all add: start_def\<close>)

lemma stop_effect:
  "\<not> core_started (stop c)" "core_wired (stop c) = core_wired c"
  "core_graph (stop c) = (case core_graph c of Graph r \<Rightarrow> Graph (if core_started c then stopModules r else r) | g \<Rightarrow> g)"
  by (auto simp: stop_def life_defs split: Graph.split)

lemma stop_quiet: "core_started c \<Longrightarrow> quiet (stop c)"
  by (simp add: stop_def life_defs quiet_def split: Graph.split)

lemma stop_inv: assumes inv: "core_inv c" shows "core_inv (stop c)"
  using inv
proof (cases rule: core_invE)
  case l: (Loaded s r)
  have "core_reloading (stop c) = core_reloading c" "core_configLoaded (stop c) = core_configLoaded c" "core_poisoned (stop c) = core_poisoned c"
    "core_activeSchema (stop c) = core_activeSchema c" using identity_stop[of c] by (simp_all add: identity_def)
  moreover have "quiet (stop c)" using stop_quiet[of c] inv by (cases "core_started c") (simp_all add: stop_def core_inv_def)
  moreover have "coreReach s (if core_started c then stopModules r else r)" using l(5) by (simp add: coreReach.stopped)
  ultimately show ?thesis using inv l(1-4) stop_effect[of c] by (auto simp: core_inv_def holds_def split: if_splits)
qed (use inv in \<open>simp_all add: stop_def\<close>)

lemma destroy_effect:
  defines "d c \<equiv> destroyRuntimeGraph c"
  shows "core_graph (d c) = NoGraph" "\<not> core_started (d c)" "quiet (d c)" "\<not> core_wired (d c)" "\<not> core_configLoaded (d c)" "\<not> core_poisoned (d c)"
    "core_reloading (d c) = core_reloading c" "core_generation (d c) = core_generation c" "core_activeSchema (d c) = core_activeSchema c"
    "core_activePath (d c) = core_activePath c" "core_logger (d c) = core_logger c"
  using stop_effect(1)[of c] identity_stop[of c]
  by (simp_all add: d_def destroyRuntimeGraph_def life_defs quiet_def identity_def)

lemma fresh_graph: "initialRuntime = withGates Map.empty initialRuntime"
  by (simp add: initialRuntime_def)

lemma load_valid: "loadSchema env path = Inr s \<Longrightarrow> validate (life_loader env) s = []"
  by (auto simp: loadSchema_def loadFromToml_def Let_def split: TomlFile.splits prod.splits if_splits)

lemma load_inv: assumes inv: "core_inv c" shows "core_inv (snd (loadConfig env path c))"
  using inv
proof (cases rule: core_invE)
  case f: (Fresh g)
  show ?thesis
  proof (cases "loadSchema env path")
    case (Inr s)
    note valid = load_valid[OF Inr] and built = build_result[OF f(5), of env s path]
    show ?thesis
    proof (cases "graphOf env s path")
      case (Inl errs)
      then obtain l as where b: "buildRuntimeFromSchema env s path c = (Inl errs, c\<lparr>core_configDir := life_absolutePath env path,
          core_logger := l, core_graph := Abandoned, core_trace := core_trace c @ as\<rparr>)" using built by auto
      show ?thesis using inv f(1-4) by (simp add: loadConfig_def Inr b core_inv_def quiet_def)
    next
      case r: (Inr r)
      have reach: "coreReach s (withGates g r)" using graphOf_reach[OF valid r] coreStep.restored coreReach.stepped by blast
      have b: "buildRuntimeFromSchema env s path c = (Inr (), c\<lparr>core_configDir := life_absolutePath env path,
          core_logger := applyLogLevel (cs_meta s) (core_logger c), core_graph := Graph (withGates g r)\<rparr>)" using built r by simp
      show ?thesis using inv f(1-4) reach by (simp add: loadConfig_def Inr b core_inv_def quiet_def holds_def emit_def refreshSnapshotCache_def Let_def)
    qed
  qed (use inv f in \<open>simp add: loadConfig_def\<close>)
qed (use inv in \<open>simp_all add: loadConfig_def\<close>)

subsection \<open>The outcomes of a reload\<close>

definition closeGates :: "LifeEnv \<Rightarrow> TransportConfig list \<Rightarrow> Runtime \<Rightarrow> Runtime" where
  "closeGates env tcs r = fold (\<lambda>tc. if tp_kind tc = ModbusTcpServer then setServerForwardEnabled (coreEnv env) (tp_id tc) False else id) tcs r"

lemma closeServers_graph: "closeServers env s c = onGraph (closeGates env (cs_transports s)) c"
proof -
  have "fold (\<lambda>tc. if tp_kind tc = ModbusTcpServer then onGraph (setServerForwardEnabled (coreEnv env) (tp_id tc) False) else id) tcs c
    = onGraph (closeGates env tcs) c" for tcs
    by (induction tcs arbitrary: c) (auto simp: closeGates_def onGraph_def split: Graph.splits)
  then show ?thesis by (simp add: closeServers_def)
qed

lemma closeGates_reach: "coreReach s r \<Longrightarrow> coreReach s (closeGates env tcs r)"
  by (induction tcs arbitrary: r) (auto simp: closeGates_def intro: coreReach.stepped coreStep.gated)

lemma gates_set: "run_forward (setServerForwardEnabled env i b r) = (run_forward r)(i \<mapsto> b)"
  by (simp add: setServerForwardEnabled_def Let_def)

lemma closed_stays: "\<not> serverForwardEnabled r i \<Longrightarrow> \<not> serverForwardEnabled (closeGates env tcs r) i"
  by (induction tcs arbitrary: r) (auto simp: closeGates_def serverForwardEnabled_def gates_set)

lemma closeGates_closed: "tc \<in> set tcs \<Longrightarrow> tp_kind tc = ModbusTcpServer \<Longrightarrow> \<not> serverForwardEnabled (closeGates env tcs r) (tp_id tc)"
proof (induction tcs arbitrary: r)
  case (Cons t ts)
  have step: "closeGates env (t # ts) r = closeGates env ts (if tp_kind t = ModbusTcpServer then setServerForwardEnabled (coreEnv env) (tp_id t) False r else r)"
    by (simp add: closeGates_def)
  show ?case
  proof (cases "tc = t")
    case True
    then show ?thesis unfolding step using Cons.prems closed_stays[of "setServerForwardEnabled (coreEnv env) (tp_id t) False r"]
      by (simp add: serverForwardEnabled_def gates_set)
  qed (unfold step, use Cons in auto)
qed simp

text \<open>The core runs, or rests, on the configuration \<open>s\<close> read from \<open>path\<close>.\<close>

definition settled :: "ConfigSchema \<Rightarrow> qstring \<Rightarrow> bool \<Rightarrow> Core \<Rightarrow> Runtime \<Rightarrow> bool" where
  "settled s path running c r \<longleftrightarrow> core_configLoaded c \<and> \<not> core_poisoned c \<and> core_activeSchema c = Some s \<and> core_activePath c = path
     \<and> core_started c = running \<and> core_graph c = Graph r \<and> coreReach s r \<and> (running \<longrightarrow> core_wired c) \<and> (\<not> running \<longrightarrow> quiet c)"

lemma settled_inv: "settled s path running c r \<Longrightarrow> \<not> core_reloading c \<Longrightarrow> core_inv c"
  by (auto simp: settled_def core_inv_def holds_def)

lemma settled_emit [simp]: "settled s path running (emit as c) r = settled s path running c r"
  "settled s path running (c\<lparr>core_reloading := b\<rparr>) r = settled s path running c r"
  "settled s path running (refreshSnapshotCache env c) r = settled s path running c r"
  "settled s path running (c\<lparr>core_generation := n\<rparr>) r = settled s path running c r"
  by (simp_all add: settled_def emit_def quiet_def refreshSnapshotCache_def Let_def)

lemma settled_start:
  assumes "settled s path False c r"
  shows "settled s path running (if running then start env c else c) (if running then startModules (coreEnv env) r else r)"
  using assms start_effect[of c r env] identity_start[of env c] coreReach.started[of s r "coreEnv env"]
  by (auto simp: settled_def identity_def)

text \<open>A graph torn down and begun anew, then built or not.\<close>

definition rebuilt :: "Core \<Rightarrow> Core \<Rightarrow> Graph \<Rightarrow> bool" where
  "rebuilt c d g \<longleftrightarrow> core_graph d = g \<and> \<not> core_started d \<and> quiet d \<and> \<not> core_wired d \<and> \<not> core_configLoaded d \<and> \<not> core_poisoned d
     \<and> core_reloading d = core_reloading c \<and> core_generation d = core_generation c \<and> core_activeSchema d = core_activeSchema c
     \<and> core_activePath d = core_activePath c"

lemma rebuild:
  fixes c :: Core and l :: Logger
  assumes "validate lenv s = []"
  defines "fresh \<equiv> (initializeRuntimeGraph (destroyRuntimeGraph c))\<lparr>core_logger := l\<rparr>"
  shows "case graphOf env s path of
      Inr _ \<Rightarrow> \<exists>r d. buildRuntimeFromSchema env s path fresh = (Inr (), d) \<and> rebuilt c d (Graph r) \<and> coreReach s r
        \<and> core_logger d = applyLogLevel (cs_meta s) l
    | Inl errs \<Rightarrow> \<exists>d. buildRuntimeFromSchema env s path fresh = (Inl errs, d) \<and> rebuilt c d Abandoned"
proof -
  have g: "core_graph fresh = Graph (withGates Map.empty initialRuntime)"
    using fresh_graph by (simp add: fresh_def initializeRuntimeGraph_def)
  have keep: "rebuilt c (fresh\<lparr>core_configDir := dir, core_logger := l', core_graph := gr\<rparr>) gr"
    "rebuilt c (fresh\<lparr>core_configDir := dir, core_logger := l', core_graph := gr, core_trace := tr\<rparr>) gr" for dir l' gr tr
    using destroy_effect[of c] by (simp_all add: rebuilt_def fresh_def initializeRuntimeGraph_def quiet_def)
  show ?thesis
  proof (cases "graphOf env s path")
    case (Inl errs)
    then show ?thesis using build_result[OF g, of env s path] keep(2) by auto
  next
    case (Inr r)
    have "coreReach s (withGates Map.empty r)" using graphOf_reach[OF assms(1) Inr] coreStep.restored coreReach.stepped by blast
    moreover have "core_logger (fresh\<lparr>core_configDir := dir, core_logger := l', core_graph := gr\<rparr>) = l'" "core_logger fresh = l" for dir l' gr
      by (simp_all add: fresh_def)
    ultimately show ?thesis using build_result[OF g, of env s path] keep(1) Inr by auto
  qed
qed

lemma commit_settled:
  fixes c :: Core and path :: qstring and env :: LifeEnv and running :: bool
  assumes "rebuilt c d (Graph r)" "coreReach s r"
  defines "c' \<equiv> commitReload env s path running d"
  shows "\<exists>r'. settled s path running c' r' \<and> (\<forall>tc \<in> set (cs_transports s). tp_kind tc = ModbusTcpServer \<longrightarrow> \<not> serverForwardEnabled r' (tp_id tc))"
    "core_generation c' = core_generation c + 1" "core_reloading c' = core_reloading c" "core_logger c' = core_logger d"
    "\<exists>as. core_trace c' = as @ [PubModelRebuilt (core_generation c + 1), PubReloadSucceeded path]"
proof -
  define r1 where "r1 = closeGates env (cs_transports s) r"
  define d1 where "d1 = refreshSnapshotCache env (d\<lparr>core_configLoaded := True, core_activeSchema := Some s, core_activePath := path,
    core_graph := Graph r1, core_generation := core_generation d + 1\<rparr>)"
  have c': "c' = emit [PubModelRebuilt (core_generation (if running then start env d1 else d1)), PubReloadSucceeded path] (if running then start env d1 else d1)"
    using assms(1) by (simp add: c'_def commitReload_def closeServers_graph rebuilt_def onGraph_def d1_def r1_def Let_def)
  have "settled s path False d1 r1"
    using assms(1,2) closeGates_reach[OF assms(2)] by (simp add: d1_def settled_def rebuilt_def quiet_def r1_def refreshSnapshotCache_def Let_def)
  moreover have "run_forward (startModules e r1) = run_forward r1" for e by (simp add: startModules_def)
  ultimately show "\<exists>r'. settled s path running c' r' \<and> (\<forall>tc \<in> set (cs_transports s). tp_kind tc = ModbusTcpServer \<longrightarrow> \<not> serverForwardEnabled r' (tp_id tc))"
    using settled_start[of s path d1 r1 running env] closeGates_closed[of _ "cs_transports s" env r]
    by (intro exI[of _ "if running then startModules (coreEnv env) r1 else r1"]) (auto simp: c' r1_def serverForwardEnabled_def)
  have id: "identity (if running then start env d1 else d1) = identity d1" by simp
  have "core_generation d1 = core_generation c + 1" "core_reloading d1 = core_reloading c" "core_logger d1 = core_logger d"
    using assms(1) by (simp_all add: d1_def rebuilt_def refreshSnapshotCache_def Let_def)
  then show "core_generation c' = core_generation c + 1" "core_reloading c' = core_reloading c" "core_logger c' = core_logger d"
    "\<exists>as. core_trace c' = as @ [PubModelRebuilt (core_generation c + 1), PubReloadSucceeded path]"
    using id by (auto simp: c' identity_def emit_def)
qed

lemma rollback_settled:
  fixes c :: Core and path :: qstring and env :: LifeEnv and running :: bool and errs :: "ValidationError list"
    and flt :: LogFilter and gates :: "qstring \<rightharpoonup> bool"
  assumes "validate lenv s = []"
  defines "out \<equiv> rollbackReload env s path flt gates running errs c"
  shows "case graphOf env s path of
      Inr _ \<Rightarrow> fst out = errs \<and> (\<exists>r. settled s path running (snd out) r \<and> run_forward r = gates)
        \<and> core_generation (snd out) = core_generation c \<and> core_reloading (snd out) = core_reloading c
        \<and> core_logger (snd out) = applyLogLevel (cs_meta s) (setFilter flt (core_logger c))
    | Inl undo \<Rightarrow> fst out = errs @ map (\<lambda>e. e\<lparr>ve_section := ''rollback.'' @ ve_section e\<rparr>) undo
        \<and> \<not> core_configLoaded (snd out) \<and> core_poisoned (snd out) \<and> \<not> core_started (snd out) \<and> quiet (snd out) \<and> \<not> core_wired (snd out)
        \<and> core_graph (snd out) = Abandoned \<and> core_reloading (snd out) = core_reloading c"
proof -
  have l: "core_logger (initializeRuntimeGraph (destroyRuntimeGraph c)) = core_logger c"
    using destroy_effect(11)[of c] by (simp add: initializeRuntimeGraph_def)
  note built = rebuild[OF assms(1), where env = env and path = path and c = c and l = "setFilter flt (core_logger c)"]
  show ?thesis
  proof (cases "graphOf env s path")
    case (Inl bk)
    then obtain d where d: "buildRuntimeFromSchema env s path ((initializeRuntimeGraph (destroyRuntimeGraph c))\<lparr>core_logger := setFilter flt (core_logger c)\<rparr>)
      = (Inl bk, d)" "rebuilt c d Abandoned" using built by auto
    then show ?thesis using Inl by (simp add: out_def rollbackReload_def l emit_def rebuilt_def quiet_def Let_def)
  next
    case (Inr _)
    then obtain r d where d: "buildRuntimeFromSchema env s path ((initializeRuntimeGraph (destroyRuntimeGraph c))\<lparr>core_logger := setFilter flt (core_logger c)\<rparr>)
      = (Inr (), d)" "rebuilt c d (Graph r)" "coreReach s r" "core_logger d = applyLogLevel (cs_meta s) (setFilter flt (core_logger c))" using built by auto
    define d1 where "d1 = refreshSnapshotCache env (d\<lparr>core_configLoaded := True, core_activeSchema := Some s, core_activePath := path,
      core_graph := Graph (withGates gates r)\<rparr>)"
    have out: "out = (errs, if running then start env d1 else d1)"
      using d(2) by (simp add: out_def rollbackReload_def l d(1) d1_def onGraph_def rebuilt_def Let_def)
    have "coreReach s (withGates gates r)" using d(3) coreStep.restored coreReach.stepped by blast
    then have "settled s path False d1 (withGates gates r)"
      using d(2) by (simp add: d1_def settled_def rebuilt_def quiet_def refreshSnapshotCache_def Let_def)
    then have st: "settled s path running (snd out) (if running then startModules (coreEnv env) (withGates gates r) else withGates gates r)"
      using settled_start by (simp add: out)
    have id: "identity (snd out) = identity d1" by (simp add: out)
    have "core_generation d1 = core_generation c" "core_reloading d1 = core_reloading c" "core_logger d1 = core_logger d"
      using d(2) by (simp_all add: d1_def rebuilt_def refreshSnapshotCache_def Let_def)
    then show ?thesis using Inr st id d(4)
      by (auto simp: identity_def out startModules_def intro!: exI[of _ "if running then startModules (coreEnv env) (withGates gates r) else withGates gates r"])
  qed
qed

text \<open>The preflight: the schema that loads and builds in isolation.\<close>

definition preflight :: "LifeEnv \<Rightarrow> qstring \<Rightarrow> ValidationError list + ConfigSchema" where
  "preflight env path = (case loadSchema env path of Inl errs \<Rightarrow> Inl errs
     | Inr s \<Rightarrow> (case graphOf env s path of Inl errs \<Rightarrow> Inl errs | Inr _ \<Rightarrow> Inr s))"

lemma preflight_load:
  "case preflight env path of Inl errs \<Rightarrow> fst (loadConfig env path (newCore b)) = Inl errs
    | Inr s \<Rightarrow> fst (loadConfig env path (newCore b)) = Inr () \<and> core_activeSchema (snd (loadConfig env path (newCore b))) = Some s
        \<and> validate (life_loader env) s = []"
proof (cases "loadSchema env path")
  case (Inr s)
  have g: "core_graph (newCore b) = Graph (withGates Map.empty initialRuntime)" using fresh_graph by (simp add: newCore_def)
  have new: "\<not> core_started (newCore b)" "\<not> core_configLoaded (newCore b)" "\<not> core_poisoned (newCore b)" by (simp_all add: newCore_def)
  show ?thesis
  proof (cases "graphOf env s path")
    case (Inl errs)
    then show ?thesis using build_result[OF g, of env s path] new Inr by (auto simp: preflight_def loadConfig_def)
  next
    case r: (Inr r)
    then show ?thesis using build_result[OF g, of env s path] new Inr load_valid[OF Inr]
      by (simp add: preflight_def loadConfig_def emit_def refreshSnapshotCache_def Let_def)
  qed
qed (simp add: preflight_def loadConfig_def newCore_def)

definition dead :: "Core \<Rightarrow> bool" where
  "dead c \<longleftrightarrow> core_poisoned c \<and> \<not> core_configLoaded c \<and> \<not> core_started c \<and> \<not> core_wired c \<and> quiet c \<and> core_graph c = Abandoned"

lemma dead_emit [simp]: "dead (emit as c) = dead c" "dead (c\<lparr>core_reloading := b\<rparr>) = dead c"
  by (simp_all add: dead_def quiet_def emit_def)

lemma dead_inv: "dead c \<Longrightarrow> \<not> core_reloading c \<Longrightarrow> core_inv c"
  by (simp add: dead_def core_inv_def)

lemma applyLogLevel_filter: "lg_filter l = f \<Longrightarrow> lg_filter (applyLogLevel m (setFilter f l')) = lg_filter (applyLogLevel m l)"
  by (simp add: applyLogLevel_def setFilter_def setThreshold_def)

lemma switchTo_outcome:
  fixes c :: Core and path :: qstring and env undo :: LifeEnv
  assumes valid: "validate lenv s = []" "validate lenv' prev = []"
  defines "out \<equiv> switchTo env undo path s prev c"
  shows "core_reloading (snd out) = core_reloading c \<and> (case graphOf env s path of
      Inr _ \<Rightarrow> fst out = Inr () \<and> (\<exists>r. settled s path (core_started c) (snd out) r
          \<and> (\<forall>tc \<in> set (cs_transports s). tp_kind tc = ModbusTcpServer \<longrightarrow> \<not> serverForwardEnabled r (tp_id tc)))
        \<and> core_generation (snd out) = core_generation c + 1
    | Inl errs \<Rightarrow>
       (case graphOf undo prev (core_activePath c) of
          Inr _ \<Rightarrow> fst out = Inl errs \<and> (\<exists>r. settled prev (core_activePath c) (core_started c) (snd out) r \<and> run_forward r = gatesOf c)
            \<and> core_generation (snd out) = core_generation c
            \<and> lg_filter (core_logger (snd out)) = lg_filter (applyLogLevel (cs_meta prev) (core_logger c))
        | Inl errs' \<Rightarrow> fst out = Inl (errs @ map (\<lambda>e. e\<lparr>ve_section := ''rollback.'' @ ve_section e\<rparr>) errs') \<and> dead (snd out)))"
proof -
  define e where "e = (let d = closeServers env prev c in if core_started c then stop d else d)"
  have id: "identity e = identity c" by (simp add: e_def closeServers_graph Let_def)
  have fresh: "initializeRuntimeGraph (destroyRuntimeGraph e) = (initializeRuntimeGraph (destroyRuntimeGraph e))\<lparr>core_logger := core_logger e\<rparr>"
    using destroy_effect(11)[of e] by (simp add: initializeRuntimeGraph_def)
  note built = rebuild[OF valid(1), where env = env and path = path and c = e and l = "core_logger e", folded fresh]
  have out: "out = (case buildRuntimeFromSchema env s path (initializeRuntimeGraph (destroyRuntimeGraph e)) of
           (Inr _, d) \<Rightarrow> (Inr (), commitReload env s path (core_started c) d)
         | (Inl errs, d) \<Rightarrow>
             (let (all, d) = rollbackReload undo prev (core_activePath c) (lg_filter (core_logger c)) (gatesOf c) (core_started c) errs d
              in (Inl all, emit [PubReloadFailed path (summarize all)] d)))"
    by (simp add: out_def switchTo_def e_def Let_def)
  show ?thesis
  proof (cases "graphOf env s path")
    case (Inr _)
    then obtain r d where d: "buildRuntimeFromSchema env s path (initializeRuntimeGraph (destroyRuntimeGraph e)) = (Inr (), d)"
      "rebuilt e d (Graph r)" "coreReach s r" using built by auto
    show ?thesis using commit_settled[OF d(2,3), where env = env and path = path and running = "core_started c"] id Inr by (simp add: out d(1) identity_def)
  next
    case (Inl errs)
    then obtain d where d: "buildRuntimeFromSchema env s path (initializeRuntimeGraph (destroyRuntimeGraph e)) = (Inl errs, d)"
      "rebuilt e d Abandoned" using built by auto
    obtain all d' where rb: "rollbackReload undo prev (core_activePath c) (lg_filter (core_logger c)) (gatesOf c) (core_started c) errs d = (all, d')"
      by fastforce
    note rolled = rollback_settled[OF valid(2), where env = undo and path = "core_activePath c" and flt = "lg_filter (core_logger c)"
        and gates = "gatesOf c" and running = "core_started c" and errs = errs and c = d, unfolded rb]
    have same: "core_generation d = core_generation c" "core_reloading d = core_reloading c" using d(2) id by (simp_all add: rebuilt_def identity_def)
    show ?thesis
    proof (cases "graphOf undo prev (core_activePath c)")
      case bk: (Inl errs')
      then show ?thesis using rolled Inl same by (simp add: out d(1) rb) (simp add: dead_def)
    next
      case bk: (Inr _)
      then show ?thesis using rolled Inl same by (simp add: out d(1) rb applyLogLevel_filter)
    qed
  qed
qed

lemma reload_outcome:
  fixes c :: Core and path :: qstring and pre env undo :: LifeEnv
  assumes inv: "core_inv c" and prev: "core_configLoaded c" "core_activeSchema c = Some prev"
  defines "full \<equiv> life_absoluteFilePath pre path" and "out \<equiv> reloadConfig pre env undo path c"
  shows "\<not> core_reloading (snd out) \<and> (case preflight pre full of
      Inl errs \<Rightarrow> out = (Inl errs, c\<lparr>core_trace := core_trace c @ [PubReloadStarted full, PubReloadFailed full (summarize errs)]\<rparr>)
    | Inr s \<Rightarrow>
       (case graphOf env s full of
          Inr _ \<Rightarrow> fst out = Inr () \<and> (\<exists>r. settled s full (core_started c) (snd out) r
              \<and> (\<forall>tc \<in> set (cs_transports s). tp_kind tc = ModbusTcpServer \<longrightarrow> \<not> serverForwardEnabled r (tp_id tc)))
            \<and> core_generation (snd out) = core_generation c + 1
        | Inl errs \<Rightarrow>
           (case graphOf undo prev (core_activePath c) of
              Inr _ \<Rightarrow> fst out = Inl errs \<and> (\<exists>r. settled prev (core_activePath c) (core_started c) (snd out) r \<and> run_forward r = gatesOf c)
                \<and> core_generation (snd out) = core_generation c
                \<and> lg_filter (core_logger (snd out)) = lg_filter (applyLogLevel (cs_meta prev) (core_logger c))
            | Inl errs' \<Rightarrow> fst out = Inl (errs @ map (\<lambda>e. e\<lparr>ve_section := ''rollback.'' @ ve_section e\<rparr>) errs') \<and> dead (snd out))))"
proof -
  define d where "d = emit [PubReloadStarted full] (c\<lparr>core_reloading := True\<rparr>)"
  have idle: "\<not> core_reloading c" using inv by (simp add: core_inv_def)
  have d: "core_started d = core_started c" "core_activePath d = core_activePath c" "core_logger d = core_logger c" "gatesOf d = gatesOf c"
    "core_generation d = core_generation c"
    by (simp_all add: d_def emit_def gatesOf_def)
  have out: "out = (let (res, c') = (case loadConfig pre full (newCore False) of
      (Inl errs, _) \<Rightarrow> (Inl errs, emit [PubReloadFailed full (summarize errs)] d)
    | (Inr _, candidate) \<Rightarrow> switchTo env undo full (the (core_activeSchema candidate)) prev d) in (res, c'\<lparr>core_reloading := False\<rparr>))"
    unfolding d_def full_def out_def using idle prev by (simp add: reloadConfig_def reloadBody_def Let_def)
  show ?thesis
  proof (cases "preflight pre full")
    case (Inl errs)
    then have "fst (loadConfig pre full (newCore False)) = Inl errs" using preflight_load[of pre full False] by simp
    then have "out = (Inl errs, (emit [PubReloadFailed full (summarize errs)] d)\<lparr>core_reloading := False\<rparr>)" by (auto simp: out split: prod.splits)
    then show ?thesis using Inl idle by (simp add: d_def emit_def)
  next
    case (Inr s)
    obtain lenv where v: "validate lenv prev = []"
      using inv prev coreReach_valid by (auto simp: core_inv_def holds_def)
    have pre: "fst (loadConfig pre full (newCore False)) = Inr ()" "core_activeSchema (snd (loadConfig pre full (newCore False))) = Some s"
      "validate (life_loader pre) s = []" using preflight_load[of pre full False] Inr by simp_all
    then have o: "out = (fst (switchTo env undo full s prev d), (snd (switchTo env undo full s prev d))\<lparr>core_reloading := False\<rparr>)"
      by (auto simp: out case_prod_beta split: prod.splits)
    show ?thesis using switchTo_outcome[OF pre(3) v, where env = env and path = full and undo = undo and c = d] Inr unfolding o d by (auto split: sum.splits)
  qed
qed

lemma reload_inv: assumes inv: "core_inv c" shows "core_inv (snd (reloadConfig pre env undo path c))"
proof (cases "core_configLoaded c")
  case True
  then obtain prev where prev: "core_activeSchema c = Some prev" using inv by (auto simp: core_inv_def holds_def)
  note out = reload_outcome[OF inv True prev, where pre = pre and env = env and undo = undo and path = path]
  show ?thesis using out inv by (auto split: sum.splits intro: settled_inv dead_inv)
next
  case False
  then show ?thesis using inv by (simp add: reloadConfig_def)
qed

lemma life_inv: "coreLife c \<Longrightarrow> core_inv c"
proof (induction rule: coreLife.induct)
  case (created b)
  have "core_graph (newCore b) = Graph (withGates Map.empty initialRuntime)" using fresh_graph by (simp add: newCore_def)
  then show ?case by (auto simp: core_inv_def newCore_def quiet_def)
next
  case (stats c env)
  have "core_inv (fold (publishSchedulerStats env) ids d) \<longleftrightarrow> core_inv d" for ids d
    by (induction ids arbitrary: d) (simp_all add: publishSchedulerStats_def Let_def)
  then show ?case using stats.IH by (simp add: publishSchedulerStatsOnce_def)
next
  case (stepped c r r')
  then show ?case by (auto simp: core_inv_def holds_def quiet_def intro: coreReach.stepped)
qed (simp_all add: load_inv reload_inv start_inv stop_inv subscribers_inv forward_inv coreForwardEnabled_def setSchedulerStatsIntervalMs_def connectFailed_def)

subsection \<open>Theorems\<close>

definition demoLife :: LifeEnv where
  "demoLife = CoreEnv.extend demoCoreEnv (LifeEnv.fields demoLoader strictConv (\<lambda>_. Document demoRoot) id id
     (\<lambda>i. statusTracker 0 i ModbusTcpClient \<lparr>ep_address = [], ep_port = 0\<rparr> \<lparr>ep_address = [], ep_port = 0\<rparr>) (\<lambda>_. []) (\<lambda>_. fst (stats 0 (serialScheduler defaultSchedulerConfig))))"

definition demoCore :: Core where
  "demoCore = start demoLife (snd (loadConfig demoLife [] (newCore False)))"

lemma demo_graph: "\<exists>r. graphOf demoLife demoParsed [] = Inr r"
proof -
  have v: "validate demoLoader demoParsed = []" using demo_load by (simp add: loadFromToml_def split: prod.splits if_splits)
  have "registerCustomCodecs env dir demoParsed reg = (reg, [])" "loadPluginLibraries env dir demoParsed pluginRegistry = (pluginRegistry, [])" for env dir reg
    by (simp_all add: registerCustomCodecs_def loadPluginLibraries_def demoParsed_def emptySchema_def)
  moreover obtain r where "wireFromSchema (coreEnv demoLife) demoParsed (preparedRuntime (loadBuiltins Map.empty) pluginRegistry) = Inr r"
    using wire_ok[OF v builtin_loaded no_plugins] by blast
  ultimately show ?thesis by (simp add: graphOf_def)
qed

lemma demo_preflight: "preflight demoLife [] = Inr demoParsed"
  using demo_load demo_graph by (auto simp: preflight_def loadSchema_def demoLife_def CoreEnv.defs LifeEnv.defs demoCoreEnv_def)

lemma demo_life: "coreLife demoCore" "core_started demoCore" "core_configLoaded demoCore"
proof -
  let ?c = "snd (loadConfig demoLife [] (newCore False))"
  have life: "coreLife ?c" by (intro coreLife.created coreLife.loaded)
  then show "coreLife demoCore" by (simp add: demoCore_def coreLife.started)
  have new: "core_graph (newCore False) = Graph (withGates Map.empty initialRuntime)" using fresh_graph by (simp add: newCore_def)
  have "core_configLoaded ?c"
    using demo_preflight demo_graph build_result[OF new, of demoLife demoParsed "[]"]
    by (auto simp: preflight_def loadConfig_def newCore_def emit_def refreshSnapshotCache_def Let_def split: sum.splits)
  moreover obtain r where "core_graph ?c = Graph r" using life_inv[OF life] calculation by (auto simp: core_inv_def holds_def)
  ultimately show "core_started demoCore" "core_configLoaded demoCore"
    using start_effect(1)[of ?c r demoLife] identity_start[of demoLife ?c] by (simp_all add: demoCore_def identity_def)
qed

text \<open>C26: the life of a core.  Whatever the application calls and whatever events arrive, in whatever
  order: a core runs only with a loaded configuration and its subscriptions in place; while it does
  not run there is no timer and no connection thread; a loaded core has a graph reached from the
  active, validated schema; and a core whose graph could not be built refuses to start, to load and
  to reload, and stays as it is but for a log record.\<close>

theorem lifecycle_invariant:
  assumes "coreLife c"
  shows "(core_started c \<longrightarrow> core_configLoaded c \<and> core_wired c)
    \<and> (\<not> core_started c \<longrightarrow> core_mirrorTimer c = None \<and> core_statsTimer c = None \<and> core_connects c = [])
    \<and> (core_configLoaded c \<longrightarrow> \<not> core_poisoned c \<and> (\<exists>s r. core_activeSchema c = Some s \<and> core_graph c = Graph r \<and> coreReach s r))
    \<and> (core_poisoned c \<longrightarrow> start env c = emit [Logf ErrorLevel ''core'' ''ICore'' ''start rejected: no valid configuration is loaded''] c
        \<and> loadConfig env path c = (refuse ''loadConfig'' ''a previous runtime graph build failed; create a new Core instance'', c)
        \<and> reloadConfig pre env undo path c = (refuse ''reloadConfig'' ''no active configuration to reload'', c))"
proof -
  note inv = life_inv[OF assms]
  have "start env c = emit [Logf ErrorLevel ''core'' ''ICore'' ''start rejected: no valid configuration is loaded''] c
      \<and> loadConfig env path c = (refuse ''loadConfig'' ''a previous runtime graph build failed; create a new Core instance'', c)
      \<and> reloadConfig pre env undo path c = (refuse ''reloadConfig'' ''no active configuration to reload'', c)" if "core_poisoned c"
    using inv that by (auto simp: core_inv_def start_def loadConfig_def reloadConfig_def split: if_splits)
  then show ?thesis using inv by (auto simp: core_inv_def holds_def quiet_def split: if_splits)
qed

theorem lifecycle_invariant_witness: "core_started demoCore \<and> core_wired demoCore \<and> \<not> core_poisoned demoCore"
  using lifecycle_invariant[OF demo_life(1)] demo_life(2,3) by blast

text \<open>C27: reloading is a transaction.  In every history of a core with a loaded configuration, the
  outcome of a reload is decided by three builds.  If the file does not load or its graph does not
  build in isolation, the errors are returned and nothing has changed but the two published events.
  Otherwise, if the graph builds again, the core holds the new configuration, runs iff it ran
  before, has forwarding closed for every Modbus server and the next model generation.  If it does
  not, and the previous graph can be rebuilt, the core holds the previous configuration as before,
  with the previous forwarding gates and generation and the log filter the previous configuration
  gives.  If even that fails, the errors of both are returned and the core is dead.\<close>

theorem reload_transactional:
  fixes c :: Core and path :: qstring and pre env undo :: LifeEnv
  assumes "coreLife c" "core_configLoaded c"
  defines "full \<equiv> life_absoluteFilePath pre path" and "out \<equiv> reloadConfig pre env undo path c"
  shows "\<exists>prev r0. core_activeSchema c = Some prev \<and> core_graph c = Graph r0 \<and> coreReach prev r0 \<and> (case preflight pre full of
      Inl errs \<Rightarrow> out = (Inl errs, c\<lparr>core_trace := core_trace c @ [PubReloadStarted full, PubReloadFailed full (summarize errs)]\<rparr>)
    | Inr s \<Rightarrow>
       (case graphOf env s full of
          Inr _ \<Rightarrow> fst out = Inr () \<and> (\<exists>r. settled s full (core_started c) (snd out) r
              \<and> (\<forall>tc \<in> set (cs_transports s). tp_kind tc = ModbusTcpServer \<longrightarrow> \<not> serverForwardEnabled r (tp_id tc)))
            \<and> core_generation (snd out) = core_generation c + 1
        | Inl errs \<Rightarrow>
           (case graphOf undo prev (core_activePath c) of
              Inr _ \<Rightarrow> fst out = Inl errs \<and> (\<exists>r. settled prev (core_activePath c) (core_started c) (snd out) r \<and> run_forward r = run_forward r0)
                \<and> core_generation (snd out) = core_generation c
                \<and> lg_filter (core_logger (snd out)) = lg_filter (applyLogLevel (cs_meta prev) (core_logger c))
            | Inl errs' \<Rightarrow> fst out = Inl (errs @ map (\<lambda>e. e\<lparr>ve_section := ''rollback.'' @ ve_section e\<rparr>) errs') \<and> dead (snd out))))"
proof -
  note inv = life_inv[OF assms(1)]
  obtain prev r0 where c: "core_activeSchema c = Some prev" "core_graph c = Graph r0" "coreReach prev r0"
    using inv assms(2) by (auto simp: core_inv_def holds_def)
  have gates: "gatesOf c = run_forward r0" using c(2) by (simp add: gatesOf_def)
  show ?thesis using reload_outcome[OF inv assms(2) c(1), where pre = pre and env = env and undo = undo and path = path] c
    unfolding full_def[symmetric] out_def[symmetric] gates by blast
qed

theorem reload_transactional_witness:
  "fst (reloadConfig demoLife demoLife demoLife [] demoCore) = Inr ()
   \<and> core_generation (snd (reloadConfig demoLife demoLife demoLife [] demoCore)) = core_generation demoCore + 1"
proof -
  have "life_absoluteFilePath demoLife [] = []" by (simp add: demoLife_def CoreEnv.defs LifeEnv.defs)
  then show ?thesis
    using reload_transactional[OF demo_life(1,3), where pre = demoLife and env = demoLife and undo = demoLife and path = "[]"] demo_preflight demo_graph by auto
qed

end
