(* ===== verification/Core_Mirror.thy ===== *)
theory Core_Mirror
  imports Core_Command
begin

text \<open>
  Mirroring polled registers back to a server transport as an interleaved system: polls arrive on
  the bus, \<open>scheduleBridgeMirror\<close> captures a snapshot and submits it, and the scheduler completes,
  rejects or fails the write, on any thread and in any order.  The system follows one bridge \<open>i\<close>
  with the \<open>AfterPoll\<close> policy in a running core.
\<close>

text \<open>
  \<open>mir_due\<close> counts the calls of \<open>scheduleBridgeMirror i\<close> under way that have not taken the lock,
  \<open>mir_open\<close> holds the version captured by the write that is neither completed nor given up.  The
  last four fields only observe: whether the last write was rejected or threw, its batch, the number
  of images taken and the latest one.
\<close>

record MirrorSystem =
  mir_run :: Runtime
  mir_due :: nat
  mir_open :: "u64 option"
  mir_failed :: bool
  mir_last :: "WriteBatch option"
  mir_images :: nat
  mir_seen :: "u16 list"

definition startMirror :: "Runtime \<Rightarrow> MirrorSystem" where
  "startMirror r = \<lparr>mir_run = r, mir_due = 0, mir_open = None, mir_failed = False, mir_last = None, mir_images = 0, mir_seen = []\<rparr>"

definition mirrorPoll :: "nat \<Rightarrow> PollRangeCompleted \<Rightarrow> MirrorSystem \<Rightarrow> MirrorSystem" where
  "mirrorPoll i e x =
     (let (due, r) = onPollRangeCompleted e (mir_run x); n = count_list due i in
      x\<lparr>mir_run := r, mir_due := mir_due x + n, mir_images := mir_images x + n,
        mir_seen := (if prc_table e = HoldingRegisters
           then (case mirrorImage e (run_bridges (mir_run x) ! i) of None \<Rightarrow> mir_seen x | Some vals \<Rightarrow> vals) else mir_seen x)\<rparr>)"

definition mirrorSchedule :: "nat \<Rightarrow> MirrorSystem \<Rightarrow> MirrorSystem" where
  "mirrorSchedule i x =
     (let x = x\<lparr>mir_due := mir_due x - 1\<rparr> in
      case mirrorCapture i (mir_run x) of
        (None, r) \<Rightarrow> x\<lparr>mir_run := r\<rparr>
      | (Some (tag, batch, version), r) \<Rightarrow> x\<lparr>mir_run := r, mir_open := Some version, mir_failed := False, mir_last := Some batch\<rparr>)"

definition mirrorComplete :: "nat \<Rightarrow> u64 \<Rightarrow> MirrorSystem \<Rightarrow> MirrorSystem" where
  "mirrorComplete i v x =
     (let (again, r) = mirrorDone True i v (mir_run x) in
      x\<lparr>mir_run := r, mir_open := None, mir_due := mir_due x + (if again then 1 else 0)\<rparr>)"

definition mirrorGiveUp :: "(Runtime \<Rightarrow> Runtime) \<Rightarrow> MirrorSystem \<Rightarrow> MirrorSystem" where
  "mirrorGiveUp f x = x\<lparr>mir_run := f (mir_run x), mir_open := None, mir_failed := True\<rparr>"

inductive mirrorStep :: "nat \<Rightarrow> MirrorSystem \<Rightarrow> MirrorSystem \<Rightarrow> bool" for i where
  polled: "mirrorStep i x (mirrorPoll i e x)"
| schedule: "0 < mir_due x \<Longrightarrow> mirrorStep i x (mirrorSchedule i x)"
| accepted: "mirrorStep i x (x\<lparr>mir_run := mirrorSubmitted env i True (mir_run x)\<rparr>)"
| rejected: "mir_open x = Some v \<Longrightarrow> mirrorStep i x (mirrorGiveUp (mirrorSubmitted env i False) x)"
| threw: "mir_open x = Some v \<Longrightarrow> mirrorStep i x (mirrorGiveUp (mirrorThrew i) x)"
| complete: "mir_open x = Some v \<Longrightarrow> mirrorStep i x (mirrorComplete i v x)"
| other: "coreStep (mir_run x) r \<Longrightarrow> run_mirrors r ! i = run_mirrors (mir_run x) ! i \<Longrightarrow> mirrorStep i x (x\<lparr>mir_run := r\<rparr>)"

inductive_cases mirrorStepE: "mirrorStep i x y"

subsection \<open>What a poll does to one bridge\<close>

lemma takeImage_other: "j \<noteq> i \<Longrightarrow> run_mirrors (snd (takeImage e (j, b) (due, r))) ! i = run_mirrors r ! i \<and> count_list (fst (takeImage e (j, b) (due, r))) i = count_list due i"
  by (auto simp: takeImage_def mirrorAt_def split: option.splits)

lemma takeImages_other:
  "i \<notin> fst ` set ibs \<Longrightarrow> run_mirrors (snd (fold (takeImage e) ibs (due, r))) ! i = run_mirrors r ! i
     \<and> count_list (fst (fold (takeImage e) ibs (due, r))) i = count_list due i"
proof (induction ibs arbitrary: due r)
  case (Cons ib ibs)
  obtain due' r' where t: "takeImage e ib (due, r) = (due', r')" by fastforce
  then have "run_mirrors r' ! i = run_mirrors r ! i" "count_list due' i = count_list due i"
    using takeImage_other[of "fst ib" i e "snd ib" due r] Cons.prems by auto
  then show ?case using Cons.IH[of due' r'] Cons.prems t by simp
qed simp

definition afterImage :: "PollRangeCompleted \<Rightarrow> BridgeConfig \<Rightarrow> BridgeMirrorState \<Rightarrow> BridgeMirrorState" where
  "afterImage e b m = (case mirrorImage e b of None \<Rightarrow> m | Some vals \<Rightarrow> m\<lparr>bm_values := vals, bm_version := bm_version m + 1\<rparr>)"

lemma takeImage_own:
  assumes "i < length (run_mirrors r)"
  shows "run_mirrors (snd (takeImage e (i, b) (due, r))) ! i = afterImage e b (run_mirrors r ! i)"
    "count_list (fst (takeImage e (i, b) (due, r))) i = count_list due i + (if mirrorImage e b \<noteq> None \<and> br_mirrorPolicy b = AfterPoll then 1 else 0)"
  using assms by (auto simp: takeImage_def afterImage_def mirrorAt_def split: option.splits)

lemma length_takeImage: "length (run_mirrors (snd (takeImage e ib st))) = length (run_mirrors (snd st))"
  by (auto simp: takeImage_def mirrorAt_def case_prod_beta Let_def split: option.splits)

lemma length_takeImages [simp]: "length (run_mirrors (snd (fold (takeImage e) ibs st))) = length (run_mirrors (snd st))"
  by (induction ibs arbitrary: st) (simp_all add: length_takeImage)

lemma poll_effect:
  fixes e :: PollRangeCompleted
  assumes "i < length (run_bridges r)" "length (run_mirrors r) = length (run_bridges r)"
  defines "b \<equiv> run_bridges r ! i" and "hit \<equiv> prc_table e = HoldingRegisters \<and> mirrorImage e (run_bridges r ! i) \<noteq> None"
  shows "run_mirrors (snd (onPollRangeCompleted e r)) ! i = (if hit then afterImage e b (run_mirrors r ! i) else run_mirrors r ! i)"
    "count_list (fst (onPollRangeCompleted e r)) i = (if hit \<and> br_mirrorPolicy b = AfterPoll then 1 else 0)"
proof -
  define pre post where "pre = take i (run_bridges r)" and "post = drop (Suc i) (run_bridges r)"
  have split: "enumerate 0 (run_bridges r) = enumerate 0 pre @ (i, b) # enumerate (Suc i) post"
  proof -
    have "run_bridges r = pre @ b # post" using assms(1) by (simp add: pre_def post_def b_def id_take_nth_drop)
    moreover have "length pre = i" using assms(1) by (simp add: pre_def)
    ultimately show ?thesis by (metis (no_types) add_0 enumerate_append_eq enumerate_simps(2))
  qed
  define st1 where "st1 = fold (takeImage e) (enumerate 0 pre) ([], r)"
  have "i \<notin> fst ` set (enumerate 0 pre)" "i \<notin> fst ` set (enumerate (Suc i) post)"
    using assms(1) by (auto simp: in_set_enumerate_eq pre_def)
  note outer = takeImages_other[OF this(1), of e "[]" r, folded st1_def] takeImages_other[OF this(2), of e]
  have len: "i < length (run_mirrors (snd st1))" using assms(1,2) by (simp add: st1_def)
  obtain due1 r1 where s1: "st1 = (due1, r1)" by fastforce
  obtain due2 r2 where s2: "takeImage e (i, b) (due1, r1) = (due2, r2)" by fastforce
  have all: "fold (takeImage e) (enumerate 0 (run_bridges r)) ([], r) = fold (takeImage e) (enumerate (Suc i) post) (due2, r2)"
    unfolding split using s1 s2 by (simp add: st1_def)
  note own = takeImage_own[of i r1 e b due1] outer(1) outer(2)[of due2 r2]
  show "run_mirrors (snd (onPollRangeCompleted e r)) ! i = (if hit then afterImage e b (run_mirrors r ! i) else run_mirrors r ! i)"
    "count_list (fst (onPollRangeCompleted e r)) i = (if hit \<and> br_mirrorPolicy b = AfterPoll then 1 else 0)"
    using own len s1 s2 by (auto simp: onPollRangeCompleted_def all hit_def b_def[symmetric] afterImage_def split: option.splits)
qed

subsection \<open>The invariant\<close>

text \<open>The mirrored bridge: its range is not empty, it follows every poll and its server exists.\<close>

definition mirrored :: "nat \<Rightarrow> Runtime \<Rightarrow> bool" where
  "mirrored i r \<longleftrightarrow> i < length (run_bridges r) \<and> length (run_mirrors r) = length (run_bridges r) \<and> 0 < br_mirrorCount (run_bridges r ! i)
     \<and> br_mirrorPolicy (run_bridges r ! i) = AfterPoll \<and> hasTransport r (br_server (run_bridges r ! i))"

definition mirrorBatch :: "BridgeConfig \<Rightarrow> BridgeMirrorState \<Rightarrow> WriteBatch" where
  "mirrorBatch b m = \<lparr>wr_table = HoldingRegisters, wr_startAddress = br_mirrorStart b + br_offset b, wr_values = bm_values m\<rparr>"

text \<open>Up to the wrap-around of the version counter.\<close>

definition mirror_inv :: "nat \<Rightarrow> MirrorSystem \<Rightarrow> bool" where
  "mirror_inv i x \<longleftrightarrow> mirrored i (mir_run x) \<and> (mir_images x < 2 ^ 64 \<longrightarrow>
     (let b = run_bridges (mir_run x) ! i; m = run_mirrors (mir_run x) ! i in
        bm_version m = of_nat (mir_images x) \<and> bm_values m = mir_seen x \<and> (bm_inFlight m \<longleftrightarrow> mir_open x \<noteq> None)
      \<and> (0 < mir_images x \<longrightarrow> int (length (bm_values m)) = br_mirrorCount b)
      \<and> (mir_due x = 0 \<or> 0 < mir_images x)
      \<and> (case mir_open x of
           None \<Rightarrow> 0 < mir_images x \<and> mir_due x = 0 \<and> \<not> mir_failed x \<longrightarrow> mir_last x = Some (mirrorBatch b m)
         | Some v \<Rightarrow> unat v \<le> mir_images x \<and> (unat v = mir_images x \<longrightarrow> mir_last x = Some (mirrorBatch b m)))))"

lemma mirrored_skeleton: "mirrored i r \<longleftrightarrow> i < length (sk_bridges (skeleton r)) \<and> sk_mirrors (skeleton r) = length (sk_bridges (skeleton r))
    \<and> 0 < br_mirrorCount (sk_bridges (skeleton r) ! i) \<and> br_mirrorPolicy (sk_bridges (skeleton r) ! i) = AfterPoll
    \<and> map_of (sk_transports (skeleton r)) (br_server (sk_bridges (skeleton r) ! i)) \<noteq> None"
  by (simp add: mirrored_def skeleton_def hasTransport_def)

lemma mirrored_keep: "skeleton r' = skeleton r \<Longrightarrow> mirrored i r \<Longrightarrow> mirrored i r' \<and> run_bridges r' = run_bridges r"
proof -
  assume sk: "skeleton r' = skeleton r"
  have "run_bridges r' = run_bridges r" using arg_cong[OF sk, of sk_bridges] by (simp add: skeleton_def)
  then show "mirrored i r \<Longrightarrow> mirrored i r' \<and> run_bridges r' = run_bridges r" using sk by (simp add: mirrored_skeleton)
qed

lemma mirrorAt_own: "i < length (run_mirrors r) \<Longrightarrow> run_mirrors (mirrorAt i f r) ! i = f (run_mirrors r ! i)"
  by (simp add: mirrorAt_def)

lemma unat_version: "n < 2 ^ 64 \<Longrightarrow> unat (of_nat n :: u64) = n"
  by (simp add: unat_of_nat take_bit_nat_eq_self)

lemma poll_inv: "mirror_inv i x \<Longrightarrow> mirror_inv i (mirrorPoll i e x)"
proof -
  assume inv: "mirror_inv i x"
  let ?r = "mir_run x" and ?r' = "snd (onPollRangeCompleted e (mir_run x))"
  have mir: "mirrored i ?r" using inv by (simp add: mirror_inv_def)
  have sk: "skeleton ?r' = skeleton ?r" by (rule skeleton_coreStep[OF coreStep.polled])
  note keep = mirrored_keep[OF sk mir]
  have "i < length (run_bridges ?r)" "length (run_mirrors ?r) = length (run_bridges ?r)" "br_mirrorPolicy (run_bridges ?r ! i) = AfterPoll"
    using mir by (simp_all add: mirrored_def)
  note effect = poll_effect[OF this(1,2), of e] this(3)
  have len: "int (length vals) = br_mirrorCount b" if "mirrorImage e b = Some vals" for vals b
    using that by (auto simp: mirrorImage_def mid_def Let_def split: if_splits)
  show ?thesis
    using inv keep effect
    by (auto simp: mirror_inv_def mirrorPoll_def case_prod_beta Let_def afterImage_def len split: option.splits if_splits)
qed

lemma schedule_inv: "mirror_inv i x \<Longrightarrow> 0 < mir_due x \<Longrightarrow> mirror_inv i (mirrorSchedule i x)"
proof -
  assume inv: "mirror_inv i x" and due: "0 < mir_due x"
  let ?r = "mir_run x" and ?r' = "snd (mirrorCapture i (mir_run x))"
  have mir: "mirrored i ?r" using inv by (simp add: mirror_inv_def)
  have sk: "skeleton ?r' = skeleton ?r" by (rule skeleton_coreStep[OF coreStep.capture])
  note keep = mirrored_keep[OF sk mir]
  have i: "i < length (run_bridges ?r)" "i < length (run_mirrors ?r)" "0 < br_mirrorCount (run_bridges ?r ! i)" "hasTransport ?r (br_server (run_bridges ?r ! i))"
    using mir by (simp_all add: mirrored_def)
  let ?m = "run_mirrors ?r ! i"
  show ?thesis
  proof (cases "bm_inFlight ?m \<or> int (length (bm_values ?m)) \<noteq> br_mirrorCount (run_bridges ?r ! i)")
    case True
    then show ?thesis using inv due i by (auto simp: mirror_inv_def mirrorSchedule_def mirrorCapture_def Let_def split: option.splits)
  next
    case False
    then show ?thesis using inv due i keep
      by (auto simp: mirror_inv_def mirrorSchedule_def mirrorCapture_def mirrorAt_own mirrorBatch_def unat_version Let_def split: option.splits)
  qed
qed

lemma flag_inv:
  assumes "mirror_inv i x"
  shows "mirror_inv i (x\<lparr>mir_run := mirrorSubmitted env i True (mir_run x)\<rparr>)"
    "mir_open x = Some v \<Longrightarrow> mirror_inv i (mirrorGiveUp (mirrorSubmitted env i False) x)"
    "mir_open x = Some v \<Longrightarrow> mirror_inv i (mirrorGiveUp (mirrorThrew i) x)"
    "mir_open x = Some v \<Longrightarrow> mirror_inv i (mirrorComplete i v x)"
proof -
  have mir: "mirrored i (mir_run x)" using assms by (simp add: mirror_inv_def)
  then have i: "i < length (run_mirrors (mir_run x))" "i < length (run_bridges (mir_run x))" "br_mirrorPolicy (run_bridges (mir_run x) ! i) = AfterPoll"
    by (simp_all add: mirrored_def)
  have keep: "mirrored i (mirrorAt i f (mir_run x)) \<and> run_bridges (mirrorAt i f (mir_run x)) = run_bridges (mir_run x)" for f
    by (rule mirrored_keep[OF skeleton_mirrorAt mir])
  note defs = mirror_inv_def mirrorSubmitted_def mirrorGiveUp_def mirrorThrew_def mirrorComplete_def mirrorDone_def mirrorAt_own[OF i(1)] keep Let_def mirrorBatch_def
  show "mirror_inv i (x\<lparr>mir_run := mirrorSubmitted env i True (mir_run x)\<rparr>)" using assms by (auto simp: defs split: option.splits)
  show "mir_open x = Some v \<Longrightarrow> mirror_inv i (mirrorGiveUp (mirrorSubmitted env i False) x)" using assms by (auto simp: defs)
  show "mir_open x = Some v \<Longrightarrow> mirror_inv i (mirrorGiveUp (mirrorThrew i) x)" using assms by (auto simp: defs)
  show "mir_open x = Some v \<Longrightarrow> mirror_inv i (mirrorComplete i v x)"
    using assms i by (auto simp: defs word_less_nat_alt unat_version)
qed

lemma other_inv:
  assumes "mirror_inv i x" "coreStep (mir_run x) r" "run_mirrors r ! i = run_mirrors (mir_run x) ! i"
  shows "mirror_inv i (x\<lparr>mir_run := r\<rparr>)"
  using assms(1,3) mirrored_keep[OF skeleton_coreStep[OF assms(2)], of i] by (auto simp: mirror_inv_def Let_def split: option.splits)

lemma mirror_reach_inv: "(mirrorStep i)\<^sup>*\<^sup>* x y \<Longrightarrow> mirror_inv i x \<Longrightarrow> mirror_inv i y"
proof (induction rule: rtranclp_induct)
  case (step y z)
  then show ?case by (auto elim!: mirrorStepE intro: poll_inv schedule_inv flag_inv other_inv)
qed

lemma mirror_skeleton: "(mirrorStep i)\<^sup>*\<^sup>* x y \<Longrightarrow> skeleton (mir_run y) = skeleton (mir_run x)"
proof (induction rule: rtranclp_induct)
  case (step y z)
  have "skeleton (mir_run z) = skeleton (mir_run y)" using step.hyps(2)
    by (cases rule: mirrorStep.cases)
       (auto simp: mirrorPoll_def mirrorSchedule_def mirrorGiveUp_def mirrorComplete_def case_prod_beta Let_def coreStep.intros intro!: skeleton_coreStep split: option.splits)
  then show ?case using step.IH by simp
qed simp

lemma mirror_start: "mirrored i r \<Longrightarrow> run_mirrors r ! i = newMirrorState \<Longrightarrow> mirror_inv i (startMirror r)"
  by (simp add: mirror_inv_def startMirror_def newMirrorState_def)

subsection \<open>No poll is lost\<close>

lemma mirrored_built:
  assumes "validate lenv s = []" "graph_ok s r" "i < length (cs_bridges s)" "0 < br_mirrorCount (cs_bridges s ! i)"
    "br_mirrorPolicy (cs_bridges s ! i) = AfterPoll" "br_server (cs_bridges s ! i) \<noteq> []"
  shows "mirrored i r"
proof -
  let ?b = "cs_bridges s ! i"
  have "bridgeResolved s ?b" using bridge_resolved validate_parts[OF assms(1)] assms(3) nth_mem by blast
  then obtain t where "transportById s (br_server ?b) = Some t" using assms(6) by (auto simp: bridgeResolved_def)
  then have "br_server ?b \<in> set (transportIds s)" by (force simp: transportById_def transportIds_def dest!: find_SomeD)
  then have "map_of (sk_transports (skeleton r)) (br_server ?b) \<noteq> None"
    using assms(2) by (auto simp: graph_ok_def skeleton_ok_def map_of_eq_None_iff)
  then show ?thesis using assms by (simp add: mirrored_skeleton graph_ok_def skeleton_ok_def)
qed

text \<open>C24: the mirror catches up.  Take a core built from a validated configuration and started, a
  bridge that mirrors after each poll, and any interleaving of polls, of the calls of
  \<open>scheduleBridgeMirror\<close>, of acceptances, rejections, exceptions and completions of its writes, and of
  other operations of the core.  At most one write is outstanding, and whenever none is and no call
  is under way, the server was last sent exactly the latest polled image, at the mapped address,
  unless that last write was rejected or threw.  Fewer than 2 to the 64 images is what the version counter can
  tell apart.\<close>

theorem mirror_no_lost_update:
  assumes "validate lenv s = []" "registerCustomCodecs env dir s (loadBuiltins Map.empty) = (codecs, [])"
    "wireFromSchema env s (preparedRuntime codecs ps) = Inr r" "i < length (cs_bridges s)" "b = cs_bridges s ! i"
    "0 < br_mirrorCount b" "br_mirrorPolicy b = AfterPoll" "br_server b \<noteq> []"
    "(mirrorStep i)\<^sup>*\<^sup>* (startMirror (startModules env r)) x" "mir_images x < 2 ^ 64"
  shows "(bm_inFlight (run_mirrors (mir_run x) ! i) \<longleftrightarrow> mir_open x \<noteq> None)
    \<and> (mir_open x = None \<and> mir_due x = 0 \<and> 0 < mir_images x \<and> \<not> mir_failed x
        \<longrightarrow> mir_last x = Some \<lparr>wr_table = HoldingRegisters, wr_startAddress = br_mirrorStart b + br_offset b, wr_values = mir_seen x\<rparr>
          \<and> int (length (mir_seen x)) = br_mirrorCount b)"
proof -
  have codecs: "builtin_codecs codecs" using custom_codecs_ok[OF assms(1), of env dir] assms(2) by simp
  note graph = wire_result[OF assms(1) codecs assms(3)]
  have sk: "skeleton (startModules env r) = skeleton r" by simp
  have mir: "mirrored i r" using mirrored_built[OF assms(1) graph assms(4)] assms(5-8) by blast
  have "run_mirrors (startModules env r) ! i = newMirrorState"
    using wire_mirrors[OF assms(1) codecs assms(3)] assms(4) by (simp add: startModules_def)
  then have inv: "mirror_inv i x" using mirror_reach_inv[OF assms(9)] mirror_start mirrored_keep[OF sk mir] by blast
  have "skeleton (mir_run x) = skeleton (startModules env r)" using mirror_skeleton[OF assms(9)] by (simp add: startMirror_def)
  then have "run_bridges (mir_run x) ! i = b"
    using graph assms(5) arg_cong[of "skeleton (mir_run x)" "skeleton r" sk_bridges] by (simp add: graph_ok_def skeleton_ok_def) (simp add: skeleton_def)
  then show ?thesis using inv assms(10) by (auto simp: mirror_inv_def mirrorBatch_def Let_def split: option.splits)
qed

subsection \<open>The mirror comes to rest\<close>

text \<open>The steps that serve the mirror, with no further poll.\<close>

inductive serveStep :: "nat \<Rightarrow> MirrorSystem \<Rightarrow> MirrorSystem \<Rightarrow> bool" for i where
  schedule: "0 < mir_due x \<Longrightarrow> serveStep i x (mirrorSchedule i x)"
| rejected: "mir_open x = Some v \<Longrightarrow> serveStep i x (mirrorGiveUp (mirrorSubmitted env i False) x)"
| threw: "mir_open x = Some v \<Longrightarrow> serveStep i x (mirrorGiveUp (mirrorThrew i) x)"
| complete: "mir_open x = Some v \<Longrightarrow> serveStep i x (mirrorComplete i v x)"

definition workLeft :: "MirrorSystem \<Rightarrow> nat" where
  "workLeft x = 2 * mir_due x + (case mir_open x of None \<Rightarrow> 0 | Some v \<Rightarrow> if unat v < mir_images x then 3 else 1)"

lemma serve_mirror: "serveStep i x y \<Longrightarrow> mirrorStep i x y"
  by (induction rule: serveStep.induct) (auto intro: mirrorStep.intros)

lemma serve_images: "serveStep i x y \<Longrightarrow> mir_images y = mir_images x"
  by (induction rule: serveStep.induct)
     (auto simp: mirrorSchedule_def mirrorGiveUp_def mirrorComplete_def Let_def split: prod.splits option.splits)

lemma serve_less:
  assumes "serveStep i x y" "mirror_inv i x" "mir_images x < 2 ^ 64"
  shows "workLeft y < workLeft x"
  using assms(1)
proof cases
  case schedule
  then show ?thesis using assms(2,3)
    by (auto simp: workLeft_def mirrorSchedule_def mirrorCapture_def mirror_inv_def unat_version Let_def split: option.splits)
next
  case (complete v)
  then show ?thesis using assms(2,3)
    by (auto simp: workLeft_def mirrorComplete_def mirrorDone_def mirror_inv_def word_less_nat_alt unat_version Let_def)
qed (auto simp: workLeft_def mirrorGiveUp_def split: option.splits)

lemma serve_bounded:
  "(serveStep i ^^ n) x y \<Longrightarrow> mirror_inv i x \<Longrightarrow> mir_images x < 2 ^ 64 \<Longrightarrow> n + workLeft y \<le> workLeft x"
proof (induction n arbitrary: x)
  case (Suc n)
  then obtain z where z: "serveStep i x z" "(serveStep i ^^ n) z y" by (blast elim: relpowp_Suc_E2)
  have "mirror_inv i z" using mirror_reach_inv[of i x z] serve_mirror[OF z(1)] Suc.prems(2) by blast
  then have "n + workLeft y \<le> workLeft z" using Suc.IH[OF z(2)] serve_images[OF z(1)] Suc.prems(3) by simp
  then show ?case using serve_less[OF z(1) Suc.prems(2,3)] by simp
qed simp

text \<open>C25: the mirror comes to rest.  From any reachable state, calls of \<open>scheduleBridgeMirror\<close> and
  completions, rejections or exceptions of its writes can follow each other only a bounded number of
  times without a further poll, twice the calls under way and three more at most: a completion
  that schedules again does so once.  And as long as a call is under way or a write outstanding,
  there is a step to take.\<close>

theorem mirror_settles:
  assumes "mirrored i r" "run_mirrors r ! i = newMirrorState" "(mirrorStep i)\<^sup>*\<^sup>* (startMirror r) x" "mir_images x < 2 ^ 64"
  shows "((serveStep i ^^ n) x y \<longrightarrow> n \<le> 2 * mir_due x + 3) \<and> ((\<exists>y. serveStep i x y) \<longleftrightarrow> 0 < mir_due x \<or> mir_open x \<noteq> None)"
proof -
  have inv: "mirror_inv i x" using mirror_reach_inv[OF assms(3)] mirror_start[OF assms(1,2)] by blast
  have "workLeft x \<le> 2 * mir_due x + 3" by (simp add: workLeft_def split: option.splits)
  then have "n \<le> 2 * mir_due x + 3" if "(serveStep i ^^ n) x y" using serve_bounded[OF that inv assms(4)] by simp
  moreover have "(\<exists>y. serveStep i x y) \<longleftrightarrow> 0 < mir_due x \<or> mir_open x \<noteq> None"
    by (auto elim: serveStep.cases intro: serveStep.schedule serveStep.threw)
  ultimately show ?thesis by blast
qed

definition demoImage :: PollRangeCompleted where
  "demoImage = \<lparr>prc_moduleId = ''p'', prc_transportId = ''plc'', prc_table = HoldingRegisters, prc_startAddress = 0, prc_count = 20,
     prc_values = replicate 20 7\<rparr>"

lemma demo_built: "wireFromSchema demoCoreEnv demoSchema (preparedRuntime (loadBuiltins Map.empty) pluginRegistry) = Inr demoRuntime"
proof -
  obtain r where "wireFromSchema demoCoreEnv demoSchema (preparedRuntime (loadBuiltins Map.empty) pluginRegistry) = Inr r"
    using wire_ok[OF demo_valid builtin_loaded no_plugins] by blast
  then show ?thesis by (simp add: demoRuntime_def)
qed

definition demoMirror :: MirrorSystem where
  "demoMirror = mirrorComplete 0 1 (mirrorSchedule 0 (mirrorPoll 0 demoImage (startMirror (startModules demoCoreEnv demoRuntime))))"

lemma demo_mirror:
  "mir_open demoMirror = None" "mir_due demoMirror = 0" "mir_images demoMirror = 1" "\<not> mir_failed demoMirror" "mir_seen demoMirror = replicate 10 7"
  "(mirrorStep 0)\<^sup>*\<^sup>* (startMirror (startModules demoCoreEnv demoRuntime)) demoMirror"
proof -
  let ?r = "startModules demoCoreEnv demoRuntime"
  define x1 where "x1 = mirrorPoll 0 demoImage (startMirror ?r)"
  define x2 where "x2 = mirrorSchedule 0 x1"
  note graph = wire_result[OF demo_valid builtin_loaded demo_built]
  have b: "run_bridges ?r = cs_bridges demoSchema" using graph skeleton_startModules[of demoCoreEnv demoRuntime]
    by (simp add: graph_ok_def skeleton_ok_def skeleton_def)
  have mir: "mirrored 0 ?r"
    using mirrored_built[OF demo_valid, of ?r 0] graph by (simp add: graph_ok_def demo_unfolds)
  have "run_mirrors ?r ! 0 = newMirrorState"
    using wire_mirrors[OF demo_valid builtin_loaded demo_built] by (simp add: startModules_def demo_unfolds)
  note inv0 = mirror_start[OF mir this]
  have hit: "mirrorImage demoImage (cs_bridges demoSchema ! 0) = Some (replicate 10 7)"
    by (simp add: mirrorImage_def demoImage_def demo_unfolds mid_def)
  have "count_list (fst (onPollRangeCompleted demoImage ?r)) 0 = 1"
    using poll_effect(2)[of 0 ?r demoImage] mir hit b by (simp add: mirrored_def demoImage_def)
  then have x1: "mir_due x1 = 1" "mir_images x1 = 1" "mir_open x1 = None" "mir_seen x1 = replicate 10 7"
    using hit b by (simp_all add: x1_def mirrorPoll_def startMirror_def case_prod_beta Let_def demoImage_def)
  have inv1: "mirror_inv 0 x1" unfolding x1_def by (rule poll_inv[OF inv0])
  then have x2: "mir_due x2 = 0" "mir_images x2 = 1" "mir_open x2 = Some 1" "mir_seen x2 = replicate 10 7" "\<not> mir_failed x2"
    using x1 by (auto simp: x2_def mirrorSchedule_def mirrorCapture_def mirror_inv_def mirrored_def Let_def)
  have "mirror_inv 0 x2" unfolding x2_def using schedule_inv[OF inv1] x1(1) by simp
  then have "bm_version (run_mirrors (mir_run x2) ! 0) = 1" using x2 by (simp add: mirror_inv_def Let_def)
  then show "mir_open demoMirror = None" "mir_due demoMirror = 0" "mir_images demoMirror = 1" "\<not> mir_failed demoMirror" "mir_seen demoMirror = replicate 10 7"
    using x2 by (simp_all add: demoMirror_def x1_def[symmetric] x2_def[symmetric] mirrorComplete_def mirrorDone_def Let_def)
  have "mirrorStep 0 (startMirror ?r) x1" "mirrorStep 0 x1 x2" "mirrorStep 0 x2 demoMirror"
    using mirrorStep.schedule[of x1 0] mirrorStep.complete[of x2 1 0] x1(1) x2(3)
    by (simp_all add: x1_def x2_def demoMirror_def mirrorStep.polled)
  then show "(mirrorStep 0)\<^sup>*\<^sup>* (startMirror ?r) demoMirror" by (meson rtranclp.rtrancl_refl rtranclp.rtrancl_into_rtrancl)
qed

theorem mirror_no_lost_update_witness:
  "mir_last demoMirror = Some \<lparr>wr_table = HoldingRegisters, wr_startAddress = 100, wr_values = replicate 10 7\<rparr>"
proof -
  have codecs: "registerCustomCodecs demoCoreEnv [] demoSchema (loadBuiltins Map.empty) = (loadBuiltins Map.empty, [])"
    by (simp add: registerCustomCodecs_def demo_unfolds)
  have b: "0 < length (cs_bridges demoSchema)" "0 < br_mirrorCount (cs_bridges demoSchema ! 0)" "br_mirrorPolicy (cs_bridges demoSchema ! 0) = AfterPoll"
    "br_server (cs_bridges demoSchema ! 0) \<noteq> []" "br_mirrorStart (cs_bridges demoSchema ! 0) + br_offset (cs_bridges demoSchema ! 0) = 100"
    by (simp_all add: demo_unfolds)
  show ?thesis
    using mirror_no_lost_update[OF demo_valid codecs demo_built b(1) refl b(2-4) demo_mirror(6)] demo_mirror(1-5) b(5) by simp
qed

theorem mirror_settles_witness: "\<not> (\<exists>y. serveStep 0 demoMirror y)"
proof -
  let ?r = "startModules demoCoreEnv demoRuntime"
  note graph = wire_result[OF demo_valid builtin_loaded demo_built]
  have mir: "mirrored 0 ?r" using mirrored_built[OF demo_valid, of ?r 0] graph by (simp add: graph_ok_def demo_unfolds)
  have new: "run_mirrors ?r ! 0 = newMirrorState"
    using wire_mirrors[OF demo_valid builtin_loaded demo_built] by (simp add: startModules_def demo_unfolds)
  have few: "mir_images demoMirror < 2 ^ 64" using demo_mirror(3) by simp
  show ?thesis using mirror_settles[OF mir new demo_mirror(6) few] demo_mirror(1,2) by simp
qed

end
