(* ===== verification/Transport_Connection.thy ===== *)
theory Transport_Connection
  imports Transport_Types
begin

text \<open>
  Connection control of the Modbus transports (\<open>src/ModbusTcpClientTransport.cpp\<close>,
  \<open>src/ModbusRtuTransport.cpp\<close>, \<open>src/ModbusTcpServerTransport.cpp\<close>): the state the transport reports,
  the last error, the reconnect timer and the status tracker.  The Qt device is outside: its signals
  \<open>stateChanged\<close> and \<open>errorOccurred\<close> arrive as events on the device's thread, and what
  \<open>connectDevice\<close> answers is an argument.  \<open>connect\<close> and \<open>disconnect\<close> run on another thread and are
  cut at the calls that wait for the device's thread, at every look at the state, and between storing
  the state and updating the status tracker: such an operation stores the state and gives the update
  to make, so that the other thread can act between the two.  The writes of \<open>lastError\<close> and \<open>state\<close>
  that stand next to each other are one step.
\<close>

datatype QModbusState = UnconnectedState | ConnectingState | ConnectedState | ClosingState

datatype QModbusError = NoError | ReadError | WriteError | ConnectionError | ConfigurationError | TimeoutError | ProtocolError
  | ReplyAbortedError | UnknownError

datatype DeviceClass = TcpClientDevice | RtuDevice | TcpServerDevice

record Connection =
  con_state :: ConnectionState
  con_lastError :: qstring
  con_autoReconnect :: bool
  con_timer :: "bool option"
  con_reconnectIntervalMs :: int
  con_status :: TransportStatus
  con_published :: "(TransportStatus \<times> TransportStatus) list"

definition newConnection :: "int \<Rightarrow> TransportStatus \<Rightarrow> Connection" where
  "newConnection reconnectIntervalMs status = \<lparr>con_state = Disconnected, con_lastError = [], con_autoReconnect = False, con_timer = None,
     con_reconnectIntervalMs = reconnectIntervalMs, con_status = status, con_published = []\<rparr>"

definition stateFromQt :: "QModbusState \<Rightarrow> ConnectionState" where
  "stateFromQt s = (case s of UnconnectedState \<Rightarrow> Disconnected | ConnectingState \<Rightarrow> Connecting | ConnectedState \<Rightarrow> Connected | ClosingState \<Rightarrow> Disconnected)"

definition errorStringFor :: "QModbusError \<Rightarrow> qstring" where
  "errorStringFor e = (case e of NoError \<Rightarrow> ''no error'' | ReadError \<Rightarrow> ''read error'' | WriteError \<Rightarrow> ''write error''
     | ConnectionError \<Rightarrow> ''connection error'' | ConfigurationError \<Rightarrow> ''configuration error'' | TimeoutError \<Rightarrow> ''timeout''
     | ProtocolError \<Rightarrow> ''protocol error'' | ReplyAbortedError \<Rightarrow> ''reply aborted'' | UnknownError \<Rightarrow> ''unknown error'')"

text \<open>\<open>statusTracker.update\<close>.\<close>

type_synonym StatusUpdate = "ConnectionState \<times> qstring"

definition publishStatus :: "int \<Rightarrow> StatusUpdate \<Rightarrow> Connection \<Rightarrow> Connection" where
  "publishStatus now u c =
     (let (change, status) = updateStatus now (fst u) (snd u) (con_status c) in
      c\<lparr>con_status := status, con_published := con_published c @ (case change of None \<Rightarrow> [] | Some e \<Rightarrow> [e])\<rparr>)"

subsection \<open>Signals of the device\<close>

definition deviceStateChanged :: "QModbusState \<Rightarrow> Connection \<Rightarrow> StatusUpdate \<times> Connection" where
  "deviceStateChanged s c =
     (let cur = stateFromQt s;
          c = (if cur = Connected then c\<lparr>con_lastError := []\<rparr> else c);
          effective = (if cur = Disconnected \<and> con_lastError c \<noteq> [] then ConnError else cur)
      in ((effective, if effective = ConnError then con_lastError c else []), c\<lparr>con_state := effective\<rparr>))"

definition deviceFailed :: "qstring \<Rightarrow> Connection \<Rightarrow> StatusUpdate option \<times> Connection" where
  "deviceFailed message c = (Some (ConnError, message), c\<lparr>con_lastError := message, con_state := ConnError\<rparr>)"

definition deviceErrorOccurred :: "DeviceClass \<Rightarrow> QModbusError \<Rightarrow> qstring \<Rightarrow> Connection \<Rightarrow> StatusUpdate option \<times> Connection" where
  "deviceErrorOccurred cls e message c =
     (case cls of
        TcpClientDevice \<Rightarrow> if e = NoError then (None, c) else deviceFailed (if message = [] then errorStringFor e else message) c
      | RtuDevice \<Rightarrow> if e = NoError then (None, c) else deviceFailed message c
      | TcpServerDevice \<Rightarrow> deviceFailed message c)"

subsection \<open>Connecting and disconnecting\<close>

definition armReconnectIfConfigured :: "Connection \<Rightarrow> Connection" where
  "armReconnectIfConfigured c = (if con_reconnectIntervalMs c \<le> 0 then c else if con_autoReconnect c then c
     else c\<lparr>con_autoReconnect := True, con_timer := Some True\<rparr>)"

text \<open>
  The steps of \<open>connect\<close>: its return value, unless it goes on, and the update of the tracker.  A client
  refuses the call on its own worker thread, where waiting would block the device.
\<close>

type_synonym CallStep = "(qstring + unit) option \<times> StatusUpdate option \<times> Connection"

definition workerRefusal :: "DeviceClass \<Rightarrow> bool \<Rightarrow> qstring option" where
  "workerRefusal cls onWorker = (case cls of
     TcpClientDevice \<Rightarrow> if onWorker then Some ''connect() cannot block the Modbus TCP worker thread'' else None
   | RtuDevice \<Rightarrow> if onWorker then Some ''connect() cannot block the Modbus RTU worker thread'' else None
   | TcpServerDevice \<Rightarrow> None)"

definition connectBegin :: "qstring option \<Rightarrow> Connection \<Rightarrow> CallStep" where
  "connectBegin refusal c =
     (if refusal \<noteq> None then (Some (Inl (the refusal)), None, c)
      else if con_state c = Connected then (Some (Inr ()), None, armReconnectIfConfigured c)
      else (None, Some (Connecting, []), c\<lparr>con_lastError := [], con_state := Connecting\<rparr>))"

definition connectFailure :: "qstring \<Rightarrow> Connection \<Rightarrow> CallStep" where
  "connectFailure fallback c =
     (let c = armReconnectIfConfigured c;
          message = (if con_lastError c = [] then fallback else con_lastError c)
      in (Some (Inl message), Some (ConnError, message), c\<lparr>con_state := ConnError\<rparr>))"

definition connectKicked :: "bool \<Rightarrow> qstring \<Rightarrow> Connection \<Rightarrow> CallStep" where
  "connectKicked accepted errorString c =
     (if accepted then (None, None, c) else connectFailure ''connectDevice() returned false'' (c\<lparr>con_lastError := errorString\<rparr>))"

definition connectPoll :: "Connection \<Rightarrow> CallStep" where
  "connectPoll c = (if con_state c = Connected then (Some (Inr ()), None, armReconnectIfConfigured c)
     else if con_state c = ConnError then (Some (Inl (con_lastError c)), None, armReconnectIfConfigured c) else (None, None, c))"

definition timeoutMessage :: "DeviceClass \<Rightarrow> qstring" where
  "timeoutMessage cls = (case cls of TcpServerDevice \<Rightarrow> ''listen timeout'' | _ \<Rightarrow> ''connect timeout'')"

definition disconnectBegin :: "Connection \<Rightarrow> Connection" where
  "disconnectBegin c = c\<lparr>con_autoReconnect := False, con_lastError := [], con_timer := map_option (\<lambda>_. False) (con_timer c)\<rparr>"

definition disconnectEnd :: "Connection \<Rightarrow> StatusUpdate \<times> Connection" where
  "disconnectEnd c = ((Disconnected, []), c\<lparr>con_state := Disconnected\<rparr>)"

text \<open>The timer: whether it closes and reopens the device.\<close>

definition reconnects :: "Connection \<Rightarrow> bool" where
  "reconnects c = (con_timer c = Some True \<and> con_autoReconnect c \<and> con_state c \<noteq> Connected \<and> con_state c \<noteq> Connecting)"

text \<open>A transport that is not built in: S7, and MQTT or OPC UA without their libraries.\<close>

definition stubConnect :: "int \<Rightarrow> qstring \<Rightarrow> Connection \<Rightarrow> (qstring + unit) \<times> Connection" where
  "stubConnect now message c = (Inl message, publishStatus now (ConnError, message) (c\<lparr>con_state := ConnError\<rparr>))"

definition stubDisconnect :: "int \<Rightarrow> Connection \<Rightarrow> Connection" where
  "stubDisconnect now c = publishStatus now (Disconnected, []) (c\<lparr>con_state := Disconnected\<rparr>)"

subsection \<open>The interleaved system\<close>

text \<open>
  One thread calls \<open>connect\<close> and \<open>disconnect\<close>, the device acts on its own thread; each may have an
  update of the tracker to make.  \<open>cxn_wanted\<close> observes the last call that came into effect: a
  \<open>connect\<close> that returned, whatever its result, or a \<open>disconnect\<close>; \<open>cxn_device\<close> the last state the
  device signalled.
\<close>

datatype CallPc = CallIdle | CallKicking | CallWaiting | CallClosing

record ConnectionSystem =
  cxn_con :: Connection
  cxn_pc :: CallPc
  cxn_callUpdate :: "StatusUpdate option"
  cxn_deviceUpdate :: "StatusUpdate option"
  cxn_wanted :: bool
  cxn_device :: QModbusState

definition startConnection :: "int \<Rightarrow> TransportStatus \<Rightarrow> ConnectionSystem" where
  "startConnection ms status = \<lparr>cxn_con = newConnection ms status, cxn_pc = CallIdle, cxn_callUpdate = None, cxn_deviceUpdate = None,
     cxn_wanted = False, cxn_device = UnconnectedState\<rparr>"

definition afterCall :: "CallPc \<Rightarrow> CallStep \<Rightarrow> ConnectionSystem \<Rightarrow> ConnectionSystem" where
  "afterCall next out x = (case out of (result, u, c) \<Rightarrow>
     x\<lparr>cxn_con := c, cxn_callUpdate := u, cxn_pc := (if result = None then next else CallIdle), cxn_wanted := (cxn_wanted x \<or> result \<noteq> None)\<rparr>)"

datatype ConnectionEvent = StateSignal QModbusState | ErrorSignal QModbusError qstring | DevicePublish int
  | CallConnect | Kicked bool qstring | Waited | TimedOut | CallDisconnect | Closed | CallPublish int

fun connectionEvent :: "DeviceClass \<Rightarrow> ConnectionEvent \<Rightarrow> ConnectionSystem \<Rightarrow> ConnectionSystem option" where
  "connectionEvent cls (StateSignal s) x =
     (if cxn_deviceUpdate x \<noteq> None then None
      else let (u, c) = deviceStateChanged s (cxn_con x) in Some (x\<lparr>cxn_con := c, cxn_deviceUpdate := Some u, cxn_device := s\<rparr>))"
| "connectionEvent cls (ErrorSignal e message) x =
     (if cxn_deviceUpdate x \<noteq> None then None
      else let (u, c) = deviceErrorOccurred cls e message (cxn_con x) in Some (x\<lparr>cxn_con := c, cxn_deviceUpdate := u\<rparr>))"
| "connectionEvent cls (DevicePublish now) x =
     (case cxn_deviceUpdate x of None \<Rightarrow> None
      | Some u \<Rightarrow> Some (x\<lparr>cxn_con := publishStatus now u (cxn_con x), cxn_deviceUpdate := None\<rparr>))"
| "connectionEvent cls (CallPublish now) x =
     (case cxn_callUpdate x of None \<Rightarrow> None
      | Some u \<Rightarrow> Some (x\<lparr>cxn_con := publishStatus now u (cxn_con x), cxn_callUpdate := None\<rparr>))"
| "connectionEvent cls CallConnect x =
     (if cxn_callUpdate x = None \<and> cxn_pc x = CallIdle then Some (afterCall CallKicking (connectBegin (workerRefusal cls False) (cxn_con x)) x) else None)"
| "connectionEvent cls (Kicked accepted err) x =
     (if cxn_callUpdate x = None \<and> cxn_pc x = CallKicking then Some (afterCall CallWaiting (connectKicked accepted err (cxn_con x)) x) else None)"
| "connectionEvent cls Waited x =
     (if cxn_callUpdate x = None \<and> cxn_pc x = CallWaiting then Some (afterCall CallWaiting (connectPoll (cxn_con x)) x) else None)"
| "connectionEvent cls TimedOut x =
     (if cxn_callUpdate x = None \<and> cxn_pc x = CallWaiting then Some (afterCall CallIdle (connectFailure (timeoutMessage cls) (cxn_con x)) x) else None)"
| "connectionEvent cls CallDisconnect x =
     (if cxn_callUpdate x = None \<and> cxn_pc x = CallIdle
      then Some (x\<lparr>cxn_con := disconnectBegin (cxn_con x), cxn_pc := CallClosing, cxn_wanted := False\<rparr>) else None)"
| "connectionEvent cls Closed x =
     (if cxn_callUpdate x = None \<and> cxn_pc x = CallClosing
      then let (u, c) = disconnectEnd (cxn_con x) in Some (x\<lparr>cxn_con := c, cxn_callUpdate := Some u, cxn_pc := CallIdle\<rparr>) else None)"

text \<open>The same events for the serial client and the server.\<close>

definition rtuEvent :: "ConnectionEvent \<Rightarrow> ConnectionSystem \<Rightarrow> ConnectionSystem option" where
  "rtuEvent = connectionEvent RtuDevice"

definition serverEvent :: "ConnectionEvent \<Rightarrow> ConnectionSystem \<Rightarrow> ConnectionSystem option" where
  "serverEvent = connectionEvent TcpServerDevice"

inductive connectionStep :: "DeviceClass \<Rightarrow> ConnectionSystem \<Rightarrow> ConnectionSystem \<Rightarrow> bool" for cls where
  "connectionEvent cls ev x = Some y \<Longrightarrow> connectionStep cls x y"

subsection \<open>The published history\<close>

text \<open>Statuses follow each other: each change starts from the last one, differs from it and has the next revision.\<close>

fun statusChain :: "TransportStatus \<Rightarrow> (TransportStatus \<times> TransportStatus) list \<Rightarrow> TransportStatus \<Rightarrow> bool" where
  "statusChain s [] t = (s = t)"
| "statusChain s ((before, after) # es) t = (before = s \<and> ts_revision after = ts_revision before + 1
     \<and> (ts_state after, ts_errorMessage after) \<noteq> (ts_state before, ts_errorMessage before)
     \<and> ts_transportId after = ts_transportId before \<and> ts_kind after = ts_kind before \<and> statusChain after es t)"

lemma statusChain_append: "statusChain s (es @ es') u \<longleftrightarrow> (\<exists>t. statusChain s es t \<and> statusChain t es' u)"
  by (induction es arbitrary: s) auto

lemma statusChain_revision: "statusChain s es t \<Longrightarrow> ts_revision t = ts_revision s + of_nat (length es)"
  by (induction es arbitrary: s) auto

definition update_ok :: "StatusUpdate option \<Rightarrow> bool" where
  "update_ok u \<longleftrightarrow> (case u of None \<Rightarrow> True | Some (st, message) \<Rightarrow> message \<noteq> [] \<longrightarrow> st = ConnError)"

definition connection_inv :: "int \<Rightarrow> TransportStatus \<Rightarrow> ConnectionSystem \<Rightarrow> bool" where
  "connection_inv ms s0 x \<longleftrightarrow> (let c = cxn_con x in
     statusChain s0 (con_published c) (con_status c) \<and> update_ok (cxn_callUpdate x) \<and> update_ok (cxn_deviceUpdate x)
   \<and> (ts_errorMessage (con_status c) \<noteq> [] \<longrightarrow> ts_state (con_status c) = ConnError)
   \<and> con_reconnectIntervalMs c = ms \<and> (con_autoReconnect c \<longleftrightarrow> cxn_wanted x \<and> 0 < ms)
   \<and> (con_timer c = Some True \<longleftrightarrow> con_autoReconnect c))"

lemma publishStatus_keeps [simp]:
  "con_reconnectIntervalMs (publishStatus now u c) = con_reconnectIntervalMs c" "con_autoReconnect (publishStatus now u c) = con_autoReconnect c"
  "con_timer (publishStatus now u c) = con_timer c" "con_state (publishStatus now u c) = con_state c"
  by (simp_all add: publishStatus_def case_prod_beta Let_def)

lemma publishStatus_chain:
  assumes "statusChain s0 (con_published c) (con_status c)" "ts_errorMessage (con_status c) \<noteq> [] \<longrightarrow> ts_state (con_status c) = ConnError"
    "update_ok (Some u)"
  shows "statusChain s0 (con_published (publishStatus now u c)) (con_status (publishStatus now u c))"
    "ts_errorMessage (con_status (publishStatus now u c)) \<noteq> [] \<longrightarrow> ts_state (con_status (publishStatus now u c)) = ConnError"
  using assms by (auto simp: publishStatus_def updateStatus_def update_ok_def statusChain_append Let_def split: prod.splits)

lemma arm_effect [simp]:
  "con_published (armReconnectIfConfigured c) = con_published c" "con_status (armReconnectIfConfigured c) = con_status c"
  "con_state (armReconnectIfConfigured c) = con_state c" "con_lastError (armReconnectIfConfigured c) = con_lastError c"
  "con_reconnectIntervalMs (armReconnectIfConfigured c) = con_reconnectIntervalMs c"
  "con_autoReconnect (armReconnectIfConfigured c) \<longleftrightarrow> con_autoReconnect c \<or> 0 < con_reconnectIntervalMs c"
  "con_timer (armReconnectIfConfigured c) = (if con_autoReconnect c \<or> con_reconnectIntervalMs c \<le> 0 then con_timer c else Some True)"
  by (simp_all add: armReconnectIfConfigured_def)

lemmas call_defs = afterCall_def connectBegin_def connectKicked_def connectFailure_def connectPoll_def disconnectBegin_def disconnectEnd_def
  deviceStateChanged_def deviceErrorOccurred_def deviceFailed_def

lemma inv_keep:
  assumes "connection_inv ms s0 x" "con_published (cxn_con y) = con_published (cxn_con x)" "con_status (cxn_con y) = con_status (cxn_con x)"
    "con_reconnectIntervalMs (cxn_con y) = con_reconnectIntervalMs (cxn_con x)" "update_ok (cxn_callUpdate y)" "update_ok (cxn_deviceUpdate y)"
    "con_autoReconnect (cxn_con y) \<longleftrightarrow> cxn_wanted y \<and> 0 < con_reconnectIntervalMs (cxn_con x)"
    "con_timer (cxn_con y) = Some True \<longleftrightarrow> con_autoReconnect (cxn_con y)"
  shows "connection_inv ms s0 y"
  using assms by (simp add: connection_inv_def Let_def)

lemma inv_fields:
  assumes "connection_inv ms s0 x"
  shows "con_autoReconnect (cxn_con x) \<longleftrightarrow> cxn_wanted x \<and> 0 < con_reconnectIntervalMs (cxn_con x)"
    "con_timer (cxn_con x) = Some True \<longleftrightarrow> con_autoReconnect (cxn_con x)" "update_ok (cxn_callUpdate x)" "update_ok (cxn_deviceUpdate x)"
  using assms by (simp_all add: connection_inv_def Let_def)

lemma update_ok_simps [simp]: "update_ok None" "update_ok (Some (ConnError, m))" "update_ok (Some (st, []))"
  by (simp_all add: update_ok_def)

lemma signal_inv:
  assumes "connection_inv ms s0 x"
  shows "connectionEvent cls (StateSignal s) x = Some y \<Longrightarrow> connection_inv ms s0 y"
    "connectionEvent cls (ErrorSignal e message) x = Some y \<Longrightarrow> connection_inv ms s0 y"
  using inv_fields[OF assms]
  by (auto simp: deviceStateChanged_def deviceErrorOccurred_def deviceFailed_def Let_def split: if_splits DeviceClass.splits intro!: inv_keep[OF assms])

lemma publish_inv:
  assumes "connection_inv ms s0 x"
  shows "connectionEvent cls (DevicePublish now) x = Some y \<Longrightarrow> connection_inv ms s0 y"
    "connectionEvent cls (CallPublish now) x = Some y \<Longrightarrow> connection_inv ms s0 y"
  using assms publishStatus_chain[of s0 "cxn_con x" _ now] by (auto simp: connection_inv_def Let_def split: option.splits)

lemma afterCall_inv:
  assumes "connection_inv ms s0 x" "out = (result, u, c)" "con_published c = con_published (cxn_con x)" "con_status c = con_status (cxn_con x)"
    "con_reconnectIntervalMs c = con_reconnectIntervalMs (cxn_con x)" "update_ok u" "con_timer c = Some True \<longleftrightarrow> con_autoReconnect c"
    "con_autoReconnect c \<longleftrightarrow> (cxn_wanted x \<or> result \<noteq> None) \<and> 0 < con_reconnectIntervalMs (cxn_con x)"
  shows "connection_inv ms s0 (afterCall pc out x)"
  using assms(2-8) inv_fields(4)[OF assms(1)] by (auto simp: afterCall_def intro!: inv_keep[OF assms(1)])

lemma worker_free: "workerRefusal cls False = None"
  by (cases cls) (simp_all add: workerRefusal_def)

lemma call_inv:
  assumes inv: "connection_inv ms s0 x"
  shows "connection_inv ms s0 (afterCall pc (connectBegin (workerRefusal cls False) (cxn_con x)) x)"
    "connection_inv ms s0 (afterCall pc (connectKicked accepted err (cxn_con x)) x)"
    "connection_inv ms s0 (afterCall pc (connectPoll (cxn_con x)) x)"
    "connection_inv ms s0 (afterCall pc (connectFailure message (cxn_con x)) x)"
  using inv_fields[OF inv]
  by (auto simp: connectBegin_def worker_free connectKicked_def connectFailure_def connectPoll_def Let_def intro!: afterCall_inv[OF inv refl] split: if_splits)

lemma disconnect_inv:
  assumes "connection_inv ms s0 x"
  shows "connectionEvent cls CallDisconnect x = Some y \<Longrightarrow> connection_inv ms s0 y"
    "connectionEvent cls Closed x = Some y \<Longrightarrow> connection_inv ms s0 y"
  using inv_fields[OF assms]
  by (auto simp: disconnectBegin_def disconnectEnd_def split: if_splits intro!: inv_keep[OF assms])

lemma connectionStep_inv: "connection_inv ms s0 x \<Longrightarrow> connectionStep cls x y \<Longrightarrow> connection_inv ms s0 y"
proof (erule connectionStep.cases)
  fix ev x' y' assume inv: "connection_inv ms s0 x" and xy: "x = x'" "y = y'" and ev: "connectionEvent cls ev x' = Some y'"
  then show ?thesis
    by (cases ev) (auto simp del: connectionEvent.simps(1-4,9,10) simp: call_inv split: if_splits dest: signal_inv publish_inv disconnect_inv)
qed

lemma connection_reach_inv:
  assumes "ts_errorMessage s0 = []" "reach (\<lambda>x. x = startConnection ms s0) (connectionStep cls) x"
  shows "connection_inv ms s0 x"
  using assms(2)
proof (induction rule: reach.induct)
  case (reach_init x)
  then show ?case using assms(1) by (simp add: connection_inv_def startConnection_def newConnection_def)
qed (blast intro: connectionStep_inv)

fun connectionEvents :: "DeviceClass \<Rightarrow> ConnectionEvent list \<Rightarrow> ConnectionSystem \<Rightarrow> ConnectionSystem option" where
  "connectionEvents cls [] x = Some x"
| "connectionEvents cls (ev # evs) x = (case connectionEvent cls ev x of None \<Rightarrow> None | Some y \<Rightarrow> connectionEvents cls evs y)"

lemma connectionEvents_reach:
  "connectionEvents cls evs x = Some y \<Longrightarrow> reach init (connectionStep cls) x \<Longrightarrow> reach init (connectionStep cls) y"
proof (induction evs arbitrary: x)
  case (Cons ev evs)
  then obtain z where z: "connectionEvent cls ev x = Some z" "connectionEvents cls evs z = Some y" by (auto split: option.splits)
  show ?case by (rule Cons.IH[OF z(2) reach_step[OF Cons.prems(2) connectionStep.intros[OF z(1)]]])
qed simp

lemma connectionEvents_run:
  assumes "connectionEvents cls evs (startConnection ms s0) \<noteq> None"
  shows "reach (\<lambda>x. x = startConnection ms s0) (connectionStep cls) (the (connectionEvents cls evs (startConnection ms s0)))"
proof -
  obtain y where "connectionEvents cls evs (startConnection ms s0) = Some y" using assms by blast
  then show ?thesis using connectionEvents_reach reach_init[of "\<lambda>x. x = startConnection ms s0" "startConnection ms s0"] by fastforce
qed

subsection \<open>Theorems\<close>


text \<open>C32: reconnecting is on exactly while it is wanted.  Once \<open>connect\<close> has returned, successfully or
  not, with a positive interval, and until the next \<open>disconnect\<close>, every tick of the timer reopens
  the device unless it is connected or connecting; from the call of \<open>disconnect\<close> on, until the next
  \<open>connect\<close> returns, and always without an interval, no tick does.\<close>

theorem reconnect_exactly_when_wanted:
  assumes "ts_errorMessage s0 = []" "reach (\<lambda>x. x = startConnection ms s0) (connectionStep cls) x"
  shows "reconnects (cxn_con x) \<longleftrightarrow> cxn_wanted x \<and> 0 < ms \<and> con_state (cxn_con x) \<notin> {Connected, Connecting}"
  using connection_reach_inv[OF assms] by (auto simp: connection_inv_def reconnects_def Let_def)

definition demoStatus :: TransportStatus where
  "demoStatus = statusTracker 0 ''plc'' ModbusTcpClient \<lparr>ep_address = [], ep_port = 0\<rparr> \<lparr>ep_address = ''h'', ep_port = 502\<rparr>"

definition demoConnection :: ConnectionSystem where
  "demoConnection = the (connectionEvents TcpClientDevice [CallConnect, CallPublish 1, StateSignal ConnectingState, DevicePublish 2, Kicked True [],
     StateSignal UnconnectedState, TimedOut, DevicePublish 3, CallPublish 4] (startConnection 500 demoStatus))"

lemma demo_connection:
  "ts_errorMessage demoStatus = []" "reach (\<lambda>x. x = startConnection 500 demoStatus) (connectionStep TcpClientDevice) demoConnection"
proof -
  show "ts_errorMessage demoStatus = []" by (simp add: demoStatus_def statusTracker_def)
  have "connectionEvents TcpClientDevice [CallConnect, CallPublish 1, StateSignal ConnectingState, DevicePublish 2, Kicked True [],
     StateSignal UnconnectedState, TimedOut, DevicePublish 3, CallPublish 4] (startConnection 500 demoStatus) \<noteq> None" by code_simp
  then show "reach (\<lambda>x. x = startConnection 500 demoStatus) (connectionStep TcpClientDevice) demoConnection"
    unfolding demoConnection_def by (rule connectionEvents_run)
qed


theorem reconnect_exactly_when_wanted_witness: "reconnects (cxn_con demoConnection)"
proof -
  have "cxn_wanted demoConnection" "con_state (cxn_con demoConnection) = ConnError" by code_simp+
  then show ?thesis using reconnect_exactly_when_wanted[OF demo_connection] by simp
qed


end
