(* ===== verification/Modbus_Client.thy ===== *)
theory Modbus_Client
  imports Transport_Connection
begin

text \<open>
  Requests of the Modbus client transports (\<open>src/ModbusTcpClientTransport.cpp\<close>,
  \<open>src/ModbusRtuTransport.cpp\<close>, \<open>src/ModbusReplyAsync.h\<close>).  The Qt client is outside: what it answers
  to \<open>sendReadRequest\<close> and \<open>sendWriteRequest\<close> is an argument, given as a function of the data unit, so
  that the theorems see which request is put on the wire.
\<close>

record QModbusDataUnit =
  unit_table :: RegisterType
  unit_startAddress :: int
  unit_values :: "u16 list"

text \<open>\<open>QModbusDataUnit(table, address, count)\<close> has \<open>count\<close> registers of value 0; \<open>setValue\<close> changes one.\<close>

definition newUnit :: "RegisterType \<Rightarrow> int \<Rightarrow> nat \<Rightarrow> QModbusDataUnit" where
  "newUnit table start n = \<lparr>unit_table = table, unit_startAddress = start, unit_values = replicate n 0\<rparr>"

definition setUnitValue :: "nat \<Rightarrow> u16 \<Rightarrow> QModbusDataUnit \<Rightarrow> QModbusDataUnit" where
  "setUnitValue i v u = u\<lparr>unit_values := (unit_values u)[i := v]\<rparr>"

definition writeUnit :: "WriteBatch \<Rightarrow> QModbusDataUnit" where
  "writeUnit b = fold (\<lambda>i. setUnitValue i (wr_values b ! i)) [0..<length (wr_values b)]
     (newUnit (wr_table b) (wr_startAddress b) (length (wr_values b)))"

definition readUnit :: "ReadRequest \<Rightarrow> QModbusDataUnit" where
  "readUnit req = newUnit (rd_table req) (rd_startAddress req) (nat (rd_count req))"

subsection \<open>Replies\<close>

record QModbusReply =
  reply_error :: QModbusError
  reply_errorString :: qstring
  reply_values :: "u16 list"

text \<open>
  What becomes of a request: it is not sent, with the error text of the client; its reply is finished
  when \<open>send\<close> returns; it finishes later; or it does not finish while the caller waits.
\<close>

datatype SendOutcome = NotSent qstring | FinishedAtOnce QModbusReply | FinishedLater QModbusReply | Unfinished

definition noRead :: "int \<Rightarrow> qstring \<Rightarrow> ReadResult" where
  "noRead start message = \<lparr>rr_ok = False, rr_values = [], rr_startAddress = start, rr_errorMessage = message\<rparr>"

definition refusedWrite :: "qstring \<Rightarrow> WriteResult" where
  "refusedWrite message = \<lparr>wres_ok = False, wres_errorMessage = message\<rparr>"

definition acceptedWrite :: WriteResult where
  "acceptedWrite = \<lparr>wres_ok = True, wres_errorMessage = []\<rparr>"

definition orElse :: "qstring \<Rightarrow> qstring \<Rightarrow> qstring" where
  "orElse message fallback = (if message = [] then fallback else message)"

definition finishRead :: "int \<Rightarrow> QModbusReply \<Rightarrow> ReadResult" where
  "finishRead start reply = (if reply_error reply \<noteq> NoError then noRead start (reply_errorString reply)
     else \<lparr>rr_ok = True, rr_values = reply_values reply, rr_startAddress = start, rr_errorMessage = []\<rparr>)"

definition finishWrite :: "QModbusReply \<Rightarrow> WriteResult" where
  "finishWrite reply = (if reply_error reply \<noteq> NoError then refusedWrite (reply_errorString reply) else acceptedWrite)"

subsection \<open>The asynchronous calls\<close>

text \<open>The results \<open>done\<close> is called with, in order.\<close>

definition modbusReadAsync :: "(QModbusDataUnit \<Rightarrow> SendOutcome) \<Rightarrow> ReadRequest \<Rightarrow> ReadResult list" where
  "modbusReadAsync send req = (case send (readUnit req) of
     NotSent message \<Rightarrow> [noRead (rd_startAddress req) (orElse message ''sendReadRequest failed'')]
   | FinishedAtOnce reply \<Rightarrow> [finishRead (rd_startAddress req) reply]
   | FinishedLater reply \<Rightarrow> [finishRead (rd_startAddress req) reply]
   | Unfinished \<Rightarrow> [])"

definition modbusWriteAsync :: "(QModbusDataUnit \<Rightarrow> SendOutcome) \<Rightarrow> WriteBatch \<Rightarrow> WriteResult list" where
  "modbusWriteAsync send b = (if wr_values b = [] then [acceptedWrite] else case send (writeUnit b) of
     NotSent message \<Rightarrow> [refusedWrite (orElse message ''sendWriteRequest failed'')]
   | FinishedAtOnce reply \<Rightarrow> [finishWrite reply]
   | FinishedLater reply \<Rightarrow> [finishWrite reply]
   | Unfinished \<Rightarrow> [])"

definition clientReadAsync :: "(QModbusDataUnit \<Rightarrow> SendOutcome) \<Rightarrow> ReadRequest \<Rightarrow> Connection \<Rightarrow> ReadResult list" where
  "clientReadAsync send req c = (if con_state c \<noteq> Connected then [noRead (rd_startAddress req) ''not connected''] else modbusReadAsync send req)"

definition clientWriteAsync :: "(QModbusDataUnit \<Rightarrow> SendOutcome) \<Rightarrow> WriteBatch \<Rightarrow> Connection \<Rightarrow> WriteResult list" where
  "clientWriteAsync send b c = (if con_state c \<noteq> Connected then [refusedWrite ''not connected''] else modbusWriteAsync send b)"

subsection \<open>The blocking calls\<close>

text \<open>
  \<open>PendingRead\<close> and \<open>PendingWrite\<close>: the result the client's thread fills in before it releases the
  semaphore, and \<open>None\<close> while it has not; the caller waits for it, and gives up after twice the
  request time-out and half a second.
\<close>

definition pendingRead :: "(QModbusDataUnit \<Rightarrow> SendOutcome) \<Rightarrow> ReadRequest \<Rightarrow> ReadResult option" where
  "pendingRead send req =
     (let empty = noRead (rd_startAddress req) []; filled = (\<lambda>reply. if reply_error reply \<noteq> NoError
            then empty\<lparr>rr_errorMessage := reply_errorString reply\<rparr> else empty\<lparr>rr_ok := True, rr_values := reply_values reply\<rparr>)
      in case send (readUnit req) of
           NotSent message \<Rightarrow> Some (empty\<lparr>rr_errorMessage := orElse message ''sendReadRequest failed''\<rparr>)
         | FinishedAtOnce reply \<Rightarrow> Some (filled reply)
         | FinishedLater reply \<Rightarrow> Some (filled reply)
         | Unfinished \<Rightarrow> None)"

definition pendingWrite :: "(QModbusDataUnit \<Rightarrow> SendOutcome) \<Rightarrow> WriteBatch \<Rightarrow> WriteResult option" where
  "pendingWrite send b =
     (let empty = refusedWrite []; filled = (\<lambda>reply. if reply_error reply \<noteq> NoError
            then empty\<lparr>wres_errorMessage := reply_errorString reply\<rparr> else empty\<lparr>wres_ok := True\<rparr>)
      in case send (writeUnit b) of
           NotSent message \<Rightarrow> Some (empty\<lparr>wres_errorMessage := orElse message ''sendWriteRequest failed''\<rparr>)
         | FinishedAtOnce reply \<Rightarrow> Some (filled reply)
         | FinishedLater reply \<Rightarrow> Some (filled reply)
         | Unfinished \<Rightarrow> None)"

definition busText :: "DeviceClass \<Rightarrow> qstring" where
  "busText cls = (case cls of RtuDevice \<Rightarrow> ''RTU'' | _ \<Rightarrow> ''TCP'')"

definition clientRead :: "DeviceClass \<Rightarrow> bool \<Rightarrow> (QModbusDataUnit \<Rightarrow> SendOutcome) \<Rightarrow> ReadRequest \<Rightarrow> Connection \<Rightarrow> ReadResult" where
  "clientRead cls onWorker send req c =
     (if onWorker then noRead (rd_startAddress req) (''synchronous read cannot run on the Modbus '' @ busText cls @ '' worker thread'')
      else if con_state c \<noteq> Connected then noRead (rd_startAddress req) ''not connected''
      else case pendingRead send req of None \<Rightarrow> noRead (rd_startAddress req) ''read timeout'' | Some r \<Rightarrow> r)"

definition clientWriteBatch :: "DeviceClass \<Rightarrow> bool \<Rightarrow> (QModbusDataUnit \<Rightarrow> SendOutcome) \<Rightarrow> WriteBatch \<Rightarrow> Connection \<Rightarrow> WriteResult" where
  "clientWriteBatch cls onWorker send b c =
     (if onWorker then refusedWrite (''synchronous write cannot run on the Modbus '' @ busText cls @ '' worker thread'')
      else if con_state c \<noteq> Connected then refusedWrite ''not connected''
      else if wr_values b = [] then acceptedWrite
      else case pendingWrite send b of None \<Rightarrow> refusedWrite ''write timeout'' | Some r \<Rightarrow> r)"

text \<open>The calls of the serial client.\<close>

definition rtuRead :: "bool \<Rightarrow> (QModbusDataUnit \<Rightarrow> SendOutcome) \<Rightarrow> ReadRequest \<Rightarrow> Connection \<Rightarrow> ReadResult" where
  "rtuRead = clientRead RtuDevice"

definition rtuWriteBatch :: "bool \<Rightarrow> (QModbusDataUnit \<Rightarrow> SendOutcome) \<Rightarrow> WriteBatch \<Rightarrow> Connection \<Rightarrow> WriteResult" where
  "rtuWriteBatch = clientWriteBatch RtuDevice"

subsection \<open>What is put on the wire\<close>

lemma fold_setUnitValue:
  "m \<le> length (unit_values u) \<Longrightarrow> m \<le> length vs \<Longrightarrow>
   fold (\<lambda>i. setUnitValue i (vs ! i)) [0..<m] u = u\<lparr>unit_values := take m vs @ drop m (unit_values u)\<rparr>"
proof (induction m)
  case (Suc m)
  then have "(take m vs @ drop m (unit_values u))[m := vs ! m] = take (Suc m) vs @ drop (Suc m) (unit_values u)"
    by (simp add: list_update_append take_Suc_conv_app_nth Cons_nth_drop_Suc[symmetric])
  with Suc show ?case by (simp add: setUnitValue_def)
qed simp

lemma writeUnit_values: "writeUnit b = \<lparr>unit_table = wr_table b, unit_startAddress = wr_startAddress b, unit_values = wr_values b\<rparr>"
  unfolding writeUnit_def by (subst fold_setUnitValue) (simp_all add: newUnit_def)

lemmas request_defs = clientRead_def clientWriteBatch_def clientReadAsync_def clientWriteAsync_def modbusReadAsync_def modbusWriteAsync_def
  pendingRead_def pendingWrite_def finishRead_def finishWrite_def noRead_def refusedWrite_def acceptedWrite_def

subsection \<open>Theorems\<close>


end
