(* ===== verification/Modbus_Server.thy ===== *)
theory Modbus_Server
  imports Modbus_Client Core_Runtime
begin

text \<open>
  The Modbus server transport (\<open>src/ModbusTcpServerTransport.cpp\<close>): the registers it offers to
  operator boxes, the requests it observes and turns into \<open>ServerWriteEvent\<close>s, its own reads and
  writes, and the sessions of its peers, which the core keeps a copy of.  The Qt server is outside:
  its register file is a type \<open>'d\<close> with \<open>data\<close> and \<open>setData\<close> as arguments, its request handling a
  function on it.  \<open>data\<close> and \<open>setData\<close> take a 16-bit address, to which the \<open>int\<close> of the caller is cut.
\<close>

type_synonym 'd ServerData = "'d \<Rightarrow> RegisterType \<Rightarrow> u16 \<Rightarrow> u16 option"
type_synonym 'd ServerSetData = "RegisterType \<Rightarrow> u16 \<Rightarrow> u16 \<Rightarrow> 'd \<Rightarrow> 'd option"

subsection \<open>The register map\<close>

text \<open>\<open>applyListenConfig\<close>: one unit per table, from the lowest to the highest configured register.\<close>

definition widen :: "WatchRange \<Rightarrow> (RegisterType \<rightharpoonup> int \<times> int) \<Rightarrow> RegisterType \<rightharpoonup> int \<times> int" where
  "widen r bounds =
     (let start = wt_startAddress r; en = wt_startAddress r + wt_size r - 1 in
      case bounds (wt_table r) of
        Some (lo, hi) \<Rightarrow> bounds(wt_table r \<mapsto> (min lo start, max hi en))
      | None \<Rightarrow> bounds(wt_table r \<mapsto> (start, en)))"

definition listenBounds :: "WatchRange list \<Rightarrow> RegisterType \<rightharpoonup> int \<times> int" where
  "listenBounds ranges = fold widen ranges Map.empty"

definition listenUnit :: "RegisterType \<Rightarrow> int \<times> int \<Rightarrow> QModbusDataUnit" where
  "listenUnit table b = newUnit table (fst b) (nat (snd b - fst b + 1))"

definition listenMap :: "WatchRange list \<Rightarrow> RegisterType \<rightharpoonup> QModbusDataUnit" where
  "listenMap ranges table = map_option (listenUnit table) (listenBounds ranges table)"

definition inUnit :: "QModbusDataUnit \<Rightarrow> int \<Rightarrow> bool" where
  "inUnit u a \<longleftrightarrow> unit_startAddress u \<le> a \<and> a < unit_startAddress u + int (length (unit_values u))"

subsection \<open>Reads and writes of the register file\<close>

fun deviceRead :: "'d ServerData \<Rightarrow> 'd \<Rightarrow> RegisterType \<Rightarrow> int \<Rightarrow> nat \<Rightarrow> u16 list option" where
  "deviceRead dat d table a 0 = Some []"
| "deviceRead dat d table a (Suc n) =
     (case dat d table (word_of_int a) of None \<Rightarrow> None | Some v \<Rightarrow> map_option ((#) v) (deviceRead dat d table (a + 1) n))"

fun deviceWrite :: "'d ServerSetData \<Rightarrow> RegisterType \<Rightarrow> int \<Rightarrow> u16 list \<Rightarrow> 'd \<Rightarrow> bool \<times> 'd" where
  "deviceWrite store table a [] d = (True, d)"
| "deviceWrite store table a (v # vs) d =
     (case store table (word_of_int a) v d of None \<Rightarrow> (False, d) | Some d' \<Rightarrow> deviceWrite store table (a + 1) vs d')"

definition serverRead :: "'d ServerData \<Rightarrow> ReadRequest \<Rightarrow> 'd \<Rightarrow> ReadResult" where
  "serverRead dat req d = (case deviceRead dat d (rd_table req) (rd_startAddress req) (nat (rd_count req)) of
     None \<Rightarrow> noRead (rd_startAddress req) ''address out of range''
   | Some vs \<Rightarrow> \<lparr>rr_ok = True, rr_values = vs, rr_startAddress = rd_startAddress req, rr_errorMessage = []\<rparr>)"

definition serverWriteBatch :: "'d ServerSetData \<Rightarrow> WriteBatch \<Rightarrow> 'd \<Rightarrow> WriteResult \<times> 'd" where
  "serverWriteBatch store b d = (let (ok, d') = deviceWrite store (wr_table b) (wr_startAddress b) (wr_values b) d in
     (if ok then acceptedWrite else refusedWrite ''setData refused'', d'))"

text \<open>
  The asynchronous calls: refused without a connection, otherwise run later on the register file they
  find.  A failed read keeps the values read before the missing register in its result.
\<close>

fun deviceReadSome :: "'d ServerData \<Rightarrow> 'd \<Rightarrow> RegisterType \<Rightarrow> int \<Rightarrow> nat \<Rightarrow> u16 list" where
  "deviceReadSome dat d table a 0 = []"
| "deviceReadSome dat d table a (Suc n) =
     (case dat d table (word_of_int a) of None \<Rightarrow> [] | Some v \<Rightarrow> v # deviceReadSome dat d table (a + 1) n)"

definition serverReadAsync :: "'d ServerData \<Rightarrow> ReadRequest \<Rightarrow> Connection \<Rightarrow> 'd \<Rightarrow> ReadResult" where
  "serverReadAsync dat req c later =
     (if con_state c \<noteq> Connected then noRead (rd_startAddress req) ''not connected''
      else let vs = deviceReadSome dat later (rd_table req) (rd_startAddress req) (nat (rd_count req)); ok = (length vs = nat (rd_count req))
           in \<lparr>rr_ok = ok, rr_values = vs, rr_startAddress = rd_startAddress req, rr_errorMessage = (if ok then [] else ''address out of range'')\<rparr>)"

definition serverWriteAsync :: "'d ServerSetData \<Rightarrow> WriteBatch \<Rightarrow> Connection \<Rightarrow> 'd \<Rightarrow> WriteResult \<times> 'd" where
  "serverWriteAsync store b c later = (if con_state c \<noteq> Connected then (refusedWrite ''not connected'', later) else serverWriteBatch store b later)"

subsection \<open>Requests of operator boxes\<close>

datatype FunctionCode = WriteSingleCoil | WriteMultipleCoils | WriteSingleRegister | WriteMultipleRegisters
  | MaskWriteRegister | ReadWriteMultipleRegisters | OtherFunction

record QModbusRequest =
  pdu_function :: FunctionCode
  pdu_data :: "u8 list"

record QModbusResponse =
  resp_valid :: bool
  resp_exception :: bool

definition fromBigEndian :: "u8 list \<Rightarrow> nat \<Rightarrow> u16" where
  "fromBigEndian bytes i = word_of_int (256 * uint (bytes ! i) + uint (bytes ! (i + 1)))"

text \<open>Table, offset of the address in the payload, and whether a count follows.\<close>

definition writeLayout :: "FunctionCode \<Rightarrow> (RegisterType \<times> nat \<times> bool) option" where
  "writeLayout f = (case f of WriteSingleCoil \<Rightarrow> Some (Coils, 0, False) | WriteMultipleCoils \<Rightarrow> Some (Coils, 0, True)
     | WriteMultipleRegisters \<Rightarrow> Some (HoldingRegisters, 0, True) | ReadWriteMultipleRegisters \<Rightarrow> Some (HoldingRegisters, 4, True)
     | WriteSingleRegister \<Rightarrow> Some (HoldingRegisters, 0, False) | MaskWriteRegister \<Rightarrow> Some (HoldingRegisters, 0, False) | OtherFunction \<Rightarrow> None)"

definition observeWrite :: "QModbusRequest \<Rightarrow> QModbusResponse \<Rightarrow> (RegisterType \<times> int \<times> int) option" where
  "observeWrite request response =
     (if \<not> resp_valid response \<or> resp_exception response then None
      else case writeLayout (pdu_function request) of None \<Rightarrow> None
      | Some (table, offset, multiple) \<Rightarrow>
          if length (pdu_data request) < offset + (if multiple then 4 else 2) then None
          else Some (table, uint (fromBigEndian (pdu_data request) offset),
                     if multiple then uint (fromBigEndian (pdu_data request) (offset + 2)) else 1))"

definition clientWrote :: "'d ServerData \<Rightarrow> qstring \<Rightarrow> RegisterType \<Rightarrow> int \<Rightarrow> int \<Rightarrow> 'd \<Rightarrow> ServerWriteEvent" where
  "clientWrote dat i table a n d = \<lparr>se_transportId = i, se_table = table, se_startAddress = a,
     se_values = map (\<lambda>k. case dat d table (word_of_int (a + int k)) of None \<Rightarrow> 0 | Some v \<Rightarrow> v) [0..<nat n]\<rparr>"

definition processRequest ::
  "(QModbusRequest \<Rightarrow> 'd \<Rightarrow> QModbusResponse \<times> 'd) \<Rightarrow> 'd ServerData \<Rightarrow> qstring \<Rightarrow> QModbusRequest \<Rightarrow> 'd \<Rightarrow> QModbusResponse \<times> ServerWriteEvent option \<times> 'd" where
  "processRequest handle dat i request d =
     (let (response, d') = handle request d in
      (response, (case observeWrite request response of None \<Rightarrow> None | Some (table, a, n) \<Rightarrow> Some (clientWrote dat i table a n d')), d'))"

subsection \<open>Peers\<close>

text \<open>
  The hash of peers by socket, as a list of pairs; the order in which it is traversed is not
  specified.  The generated session id, the end points and the time are arguments.
\<close>

record ServerTransport =
  srv_id :: qstring
  srv_con :: Connection
  srv_peers :: "(nat \<times> PeerSession) list"

type_synonym PeerEvent = "PeerSessionChangeKind \<times> PeerSession \<times> qstring"

definition addPeer :: "nat option \<Rightarrow> qstring \<Rightarrow> EndpointInfo \<Rightarrow> EndpointInfo \<Rightarrow> int \<Rightarrow> ServerTransport \<Rightarrow> PeerEvent list \<times> ServerTransport" where
  "addPeer socket sessionId local remote now s =
     (case socket of None \<Rightarrow> ([], s)
      | Some k \<Rightarrow>
          let session = \<lparr>ps_transportId = srv_id s, ps_sessionId = sessionId, ps_localEndpoint = local, ps_remoteEndpoint = remote, ps_connectedAt = now\<rparr>
          in ([(PeerConnected, session, [])], s\<lparr>srv_peers := filter (\<lambda>p. fst p \<noteq> k) (srv_peers s) @ [(k, session)]\<rparr>))"

definition removePeer :: "nat \<Rightarrow> qstring \<Rightarrow> ServerTransport \<Rightarrow> PeerEvent list \<times> ServerTransport" where
  "removePeer k reason s =
     (case map_of (srv_peers s) k of None \<Rightarrow> ([], s)
      | Some session \<Rightarrow> ([(PeerDisconnected, session, reason)], s\<lparr>srv_peers := filter (\<lambda>p. fst p \<noteq> k) (srv_peers s)\<rparr>))"

definition drainPeers :: "qstring \<Rightarrow> ServerTransport \<Rightarrow> PeerEvent list \<times> ServerTransport" where
  "drainPeers reason s = (map (\<lambda>p. (PeerDisconnected, snd p, reason)) (srv_peers s), s\<lparr>srv_peers := []\<rparr>)"

definition peerSnapshot :: "ServerTransport \<Rightarrow> PeerSession list" where
  "peerSnapshot s = map snd (srv_peers s)"

text \<open>What happens on the server's thread.\<close>

datatype ServerOp = PeerAccepted "nat option" qstring EndpointInfo EndpointInfo int | PeerGone nat
  | ServerState QModbusState | ServerError QModbusError qstring | ServerClosing

definition onCon :: "('u \<times> Connection) \<Rightarrow> ServerTransport \<Rightarrow> ServerTransport" where
  "onCon out s = s\<lparr>srv_con := snd out\<rparr>"

fun serverOp :: "ServerOp \<Rightarrow> ServerTransport \<Rightarrow> PeerEvent list \<times> ServerTransport" where
  "serverOp (PeerAccepted socket sessionId local remote now) s = addPeer socket sessionId local remote now s"
| "serverOp (PeerGone k) s = removePeer k ''peer disconnected'' s"
| "serverOp (ServerState st) s =
     apsnd (\<lambda>s. onCon (deviceStateChanged st (srv_con s)) s)
       (if stateFromQt st = Disconnected then drainPeers ''server stopped'' s else ([], s))"
| "serverOp (ServerError e message) s =
     apsnd (\<lambda>s. onCon (deviceErrorOccurred TcpServerDevice e message (srv_con s)) s) (drainPeers message s)"
| "serverOp ServerClosing s = drainPeers ''server stopped'' (s\<lparr>srv_con := disconnectBegin (srv_con s)\<rparr>)"

definition newServer :: "qstring \<Rightarrow> Connection \<Rightarrow> ServerTransport" where
  "newServer i c = \<lparr>srv_id = i, srv_con = c, srv_peers = []\<rparr>"

text \<open>The core's subscriber runs inside \<open>publish\<close>, on the server's thread.\<close>

type_synonym PeerCache = "qstring \<Rightarrow> PeerSession list"

definition deliverPeer :: "PeerEvent \<Rightarrow> PeerCache \<Rightarrow> PeerCache" where
  "deliverPeer e cache = onPeerSession (fst e) (fst (snd e)) cache"

subsection \<open>The register map covers the ranges\<close>

lemma listenBounds_snoc: "listenBounds (rs @ [r]) = widen r (listenBounds rs)"
  by (simp add: listenBounds_def)

lemma listenBounds_eq:
  "listenBounds rs t = (let xs = filter (\<lambda>r. wt_table r = t) rs in if xs = [] then None
     else Some (Min (wt_startAddress ` set xs), Max ((\<lambda>r. wt_startAddress r + wt_size r - 1) ` set xs)))"
proof (induction rs rule: rev_induct)
  case (snoc r rs)
  show ?case
  proof (cases "wt_table r = t \<and> filter (\<lambda>r. wt_table r = t) rs \<noteq> []")
    case True
    then have "set (filter (\<lambda>r. wt_table r = t) rs) \<noteq> {}" by (auto simp: filter_empty_conv)
    then show ?thesis using True snoc
      by (simp add: listenBounds_snoc widen_def Let_def min.commute max.commute del: set_filter)
  next
    case False
    then show ?thesis using snoc by (auto simp: listenBounds_snoc widen_def Let_def simp del: set_filter split: option.splits)
  qed
qed (simp add: listenBounds_def)

lemma listenBounds_some:
  assumes "r \<in> set ranges"
  obtains lo hi where "listenBounds ranges (wt_table r) = Some (lo, hi)" "lo \<le> wt_startAddress r" "wt_startAddress r + wt_size r - 1 \<le> hi"
proof -
  let ?xs = "filter (\<lambda>r'. wt_table r' = wt_table r) ranges"
  have r: "r \<in> set ?xs" using assms by simp
  then have "?xs \<noteq> []" by (metis empty_iff list.set(1))
  then have "listenBounds ranges (wt_table r) = Some (Min (wt_startAddress ` set ?xs), Max ((\<lambda>r. wt_startAddress r + wt_size r - 1) ` set ?xs))"
    by (simp add: listenBounds_eq Let_def)
  then show thesis using r by (intro that) (auto intro!: Min_le Max_ge)
qed

lemma listenBounds_tight:
  assumes "listenBounds ranges t = Some (lo, hi)"
  obtains r r' where "r \<in> set ranges" "r' \<in> set ranges" "wt_table r = t" "wt_table r' = t" "lo = wt_startAddress r" "hi = wt_startAddress r' + wt_size r' - 1"
proof -
  let ?X = "{r \<in> set ranges. wt_table r = t}"
  have ne: "?X \<noteq> {}" and eq: "lo = Min (wt_startAddress ` ?X)" "hi = Max ((\<lambda>r. wt_startAddress r + wt_size r - 1) ` ?X)"
    using assms by (auto simp: listenBounds_eq Let_def filter_empty_conv split: if_splits)
  have "lo \<in> wt_startAddress ` ?X" "hi \<in> (\<lambda>r. wt_startAddress r + wt_size r - 1) ` ?X" using ne by (auto simp: eq intro!: Min_in Max_in)
  then show thesis using that by blast
qed

text \<open>The server offers every configured register.  Each register of a listen range lies in the one unit its table has, and
  the unit begins at the start of a range and ends at the end of a range of that table.\<close>

theorem listen_map_covers:
  assumes "\<forall>r \<in> set ranges. 0 < wt_size r"
  shows "(\<forall>r \<in> set ranges. \<exists>u. listenMap ranges (wt_table r) = Some u
            \<and> (\<forall>a. wt_startAddress r \<le> a \<and> a < wt_startAddress r + wt_size r \<longrightarrow> inUnit u a))
    \<and> (\<forall>table u. listenMap ranges table = Some u \<longrightarrow> (\<exists>r \<in> set ranges. \<exists>r' \<in> set ranges. wt_table r = table \<and> wt_table r' = table
          \<and> unit_startAddress u = wt_startAddress r \<and> unit_startAddress u + int (length (unit_values u)) = wt_startAddress r' + wt_size r'))"
proof (intro conjI ballI allI impI)
  fix r assume "r \<in> set ranges"
  then obtain lo hi where b: "listenBounds ranges (wt_table r) = Some (lo, hi)" "lo \<le> wt_startAddress r" "wt_startAddress r + wt_size r - 1 \<le> hi"
    by (rule listenBounds_some)
  then show "\<exists>u. listenMap ranges (wt_table r) = Some u \<and> (\<forall>a. wt_startAddress r \<le> a \<and> a < wt_startAddress r + wt_size r \<longrightarrow> inUnit u a)"
    by (auto simp: listenMap_def listenUnit_def newUnit_def inUnit_def)
next
  fix table u assume "listenMap ranges table = Some u"
  then obtain lo hi where b: "listenBounds ranges table = Some (lo, hi)" and u: "u = listenUnit table (lo, hi)" by (auto simp: listenMap_def)
  obtain r r' where r: "r \<in> set ranges" "r' \<in> set ranges" "wt_table r = table" "wt_table r' = table" "lo = wt_startAddress r" "hi = wt_startAddress r' + wt_size r' - 1"
    using listenBounds_tight[OF b] .
  obtain lo' hi' where "listenBounds ranges (wt_table r) = Some (lo', hi')" "wt_startAddress r + wt_size r - 1 \<le> hi'"
    using listenBounds_some[OF r(1)] by metis
  then have "lo \<le> hi" using b r assms by fastforce
  then show "\<exists>r \<in> set ranges. \<exists>r' \<in> set ranges. wt_table r = table \<and> wt_table r' = table \<and> unit_startAddress u = wt_startAddress r
      \<and> unit_startAddress u + int (length (unit_values u)) = wt_startAddress r' + wt_size r'"
    using r u by (auto simp: listenUnit_def newUnit_def)
qed

subsection \<open>Writing and reading the register file\<close>

text \<open>What the transport relies on for a table: \<open>setData\<close> refuses exactly the addresses \<open>data\<close> refuses, and stores one register.\<close>

definition deviceLaws :: "'d ServerData \<Rightarrow> 'd ServerSetData \<Rightarrow> RegisterType \<Rightarrow> bool" where
  "deviceLaws dat store table \<longleftrightarrow> (\<forall>a v d. (store table a v d = None \<longleftrightarrow> dat d table a = None)
     \<and> (\<forall>d'. store table a v d = Some d' \<longrightarrow> (\<forall>t x. dat d' t x = (if t = table \<and> x = a then Some v else dat d t x))))"

lemma store_cases:
  assumes "deviceLaws dat store table"
  obtains "store table a v d = None" "dat d table a = None"
    | d' where "store table a v d = Some d'" "dat d table a \<noteq> None" "\<And>t x. dat d' t x = (if t = table \<and> x = a then Some v else dat d t x)"
  using assms unfolding deviceLaws_def by (metis option.exhaust)

lemma word_of_int_next: "(word_of_int a :: u16) \<noteq> word_of_int (a + 1 + int j)" if "j < 65535"
proof
  assume "(word_of_int a :: u16) = word_of_int (a + 1 + int j)"
  then have "uint (word_of_int a :: u16) = uint (word_of_int (a + 1 + int j) :: u16)" by (rule arg_cong)
  then have "a mod 65536 = (a + 1 + int j) mod 65536" unfolding uint_word_of_int by simp
  then have "(1 + int j) mod 65536 = 0" by (metis add.assoc add_diff_cancel_left' diff_self mod_0 mod_diff_cong)
  with that show False by simp
qed

lemma deviceWrite_outside:
  assumes "deviceLaws dat store table" "deviceWrite store table a vs d = (ok, d')" "\<And>i. t = table \<Longrightarrow> i < length vs \<Longrightarrow> x \<noteq> word_of_int (a + int i)"
  shows "dat d' t x = dat d t x"
  using assms(2,3)
proof (induction vs arbitrary: a d)
  case (Cons v vs)
  from store_cases[OF assms(1), of "word_of_int a" v d] show ?case
  proof cases
    case (2 d1)
    have "dat d' t x = dat d1 t x"
    proof (rule Cons.IH)
      show "x \<noteq> word_of_int (a + 1 + int i)" if "t = table" "i < length vs" for i using Cons.prems(2)[of "Suc i"] that by (simp add: add.assoc)
    qed (use 2 Cons.prems(1) in simp)
    then show ?thesis using 2 Cons.prems(2)[of 0] by auto
  qed (use Cons.prems in simp)
qed simp

lemma deviceWrite_ok:
  assumes "deviceLaws dat store table" "deviceWrite store table a vs d = (ok, d')" "length vs \<le> 65536"
  shows "ok \<longleftrightarrow> (\<forall>i < length vs. dat d table (word_of_int (a + int i)) \<noteq> None)"
    and "\<exists>k \<le> length vs. (ok \<longleftrightarrow> k = length vs) \<and> (\<forall>i < k. dat d' table (word_of_int (a + int i)) = Some (vs ! i))
       \<and> (\<forall>i. k \<le> i \<and> i < length vs \<longrightarrow> dat d' table (word_of_int (a + int i)) = dat d table (word_of_int (a + int i)))"
proof -
  have "(ok \<longleftrightarrow> (\<forall>i < length vs. dat d table (word_of_int (a + int i)) \<noteq> None))
     \<and> (\<exists>k \<le> length vs. (ok \<longleftrightarrow> k = length vs) \<and> (\<forall>i < k. dat d' table (word_of_int (a + int i)) = Some (vs ! i))
       \<and> (\<forall>i. k \<le> i \<and> i < length vs \<longrightarrow> dat d' table (word_of_int (a + int i)) = dat d table (word_of_int (a + int i))))"
    using assms(2,3)
  proof (induction vs arbitrary: a d)
    case (Cons v vs)
    from store_cases[OF assms(1), of "word_of_int a" v d] show ?case
    proof cases
      case (2 d1)
      then have w: "deviceWrite store table (a + 1) vs d1 = (ok, d')" using Cons.prems(1) by simp
      have d1: "dat d1 table (word_of_int (a + 1 + int i)) = dat d table (word_of_int (a + 1 + int i))" if "i < length vs" for i
        using 2(3) word_of_int_next[of i a] that Cons.prems(2) by auto
      have head: "dat d' table (word_of_int a) = Some v"
        using deviceWrite_outside[OF assms(1) w, of table "word_of_int a"] word_of_int_next[of _ a] Cons.prems(2) 2(3) by auto
      obtain k where k: "k \<le> length vs" "ok \<longleftrightarrow> k = length vs" "\<forall>i < k. dat d' table (word_of_int (a + 1 + int i)) = Some (vs ! i)"
        "\<forall>i. k \<le> i \<and> i < length vs \<longrightarrow> dat d' table (word_of_int (a + 1 + int i)) = dat d1 table (word_of_int (a + 1 + int i))"
        and okI: "ok \<longleftrightarrow> (\<forall>i < length vs. dat d1 table (word_of_int (a + 1 + int i)) \<noteq> None)"
        using Cons.IH[OF w] Cons.prems(2) by auto
      have all: "(\<forall>i < Suc n. P (a + int i)) \<longleftrightarrow> P a \<and> (\<forall>i < n. P (a + 1 + int i))" for P n
        by (simp add: All_less_Suc2 add.assoc)
      show ?thesis
      proof (intro conjI exI[of _ "Suc k"])
        show "ok \<longleftrightarrow> (\<forall>i < length (v # vs). dat d table (word_of_int (a + int i)) \<noteq> None)"
          using okI d1 2(2) by (simp add: all[where P = "\<lambda>x. dat d table (word_of_int x) \<noteq> None", simplified])
        show "\<forall>i < Suc k. dat d' table (word_of_int (a + int i)) = Some ((v # vs) ! i)"
          using head k(3) by (simp add: All_less_Suc2 add.assoc)
        show "\<forall>i. Suc k \<le> i \<and> i < length (v # vs) \<longrightarrow> dat d' table (word_of_int (a + int i)) = dat d table (word_of_int (a + int i))"
        proof (intro allI impI)
          fix i assume "Suc k \<le> i \<and> i < length (v # vs)"
          then obtain j where "i = Suc j" "k \<le> j" "j < length vs" by (cases i) auto
          then show "dat d' table (word_of_int (a + int i)) = dat d table (word_of_int (a + int i))"
            using k(4) d1 by (simp add: add.assoc)
        qed
      qed (use k in auto)
    qed (use Cons.prems in \<open>auto simp: exI[of _ 0]\<close>)
  qed simp
  then show "ok \<longleftrightarrow> (\<forall>i < length vs. dat d table (word_of_int (a + int i)) \<noteq> None)"
    and "\<exists>k \<le> length vs. (ok \<longleftrightarrow> k = length vs) \<and> (\<forall>i < k. dat d' table (word_of_int (a + int i)) = Some (vs ! i))
       \<and> (\<forall>i. k \<le> i \<and> i < length vs \<longrightarrow> dat d' table (word_of_int (a + int i)) = dat d table (word_of_int (a + int i)))" by blast+
qed

lemma deviceRead_eq:
  "deviceRead dat d table a n = (if \<forall>i < n. dat d table (word_of_int (a + int i)) \<noteq> None
     then Some (map (\<lambda>i. the (dat d table (word_of_int (a + int i)))) [0..<n]) else None)"
proof (induction n arbitrary: a)
  case (Suc n)
  have "map (\<lambda>i. the (dat d table (word_of_int (a + int i)))) [0..<Suc n] = the (dat d table (word_of_int a)) # map (\<lambda>i. the (dat d table (word_of_int (a + 1 + int i)))) [0..<n]"
    by (simp add: upt_conv_Cons map_Suc_upt[symmetric] add.assoc del: upt_Suc)
  then show ?case using Suc[of "a + 1"] by (auto simp: All_less_Suc2 add.assoc split: option.splits)
qed simp

lemma deviceReadSome_complete:
  "deviceRead dat d table a n = (let vs = deviceReadSome dat d table a n in if length vs = n then Some vs else None)"
  by (induction n arbitrary: a) (auto simp: Let_def split: option.splits)

lemma serverRead_async_agree:
  "con_state c = Connected \<Longrightarrow> rr_ok (serverRead dat req d) \<or> rr_ok (serverReadAsync dat req c d) \<Longrightarrow> serverReadAsync dat req c d = serverRead dat req d"
  by (auto simp: serverReadAsync_def serverRead_def noRead_def deviceReadSome_complete Let_def split: if_splits)

text \<open>What a write stores is what a read gives.  A batch of at most 65536 values succeeds exactly
  if the register file has every register of it; then reading the same range gives the values back.
  A refused write has stored the values before the first register that is missing and nothing from
  there on.  No other register changes.\<close>

theorem server_write_read:
  assumes "deviceLaws dat store (wr_table b)" "length (wr_values b) \<le> 65536" "serverWriteBatch store b d = (res, d')"
  shows "(wres_ok res \<longleftrightarrow> (\<forall>i < length (wr_values b). dat d (wr_table b) (word_of_int (wr_startAddress b + int i)) \<noteq> None))
    \<and> (wres_ok res \<longrightarrow> serverRead dat \<lparr>rd_table = wr_table b, rd_startAddress = wr_startAddress b, rd_count = int (length (wr_values b))\<rparr> d'
          = \<lparr>rr_ok = True, rr_values = wr_values b, rr_startAddress = wr_startAddress b, rr_errorMessage = []\<rparr>)
    \<and> (\<not> wres_ok res \<longrightarrow> (\<exists>k < length (wr_values b). \<forall>i < length (wr_values b). dat d' (wr_table b) (word_of_int (wr_startAddress b + int i))
          = (if i < k then Some (wr_values b ! i) else dat d (wr_table b) (word_of_int (wr_startAddress b + int i)))))
    \<and> (\<forall>t x. t \<noteq> wr_table b \<or> (\<forall>i < length (wr_values b). x \<noteq> word_of_int (wr_startAddress b + int i)) \<longrightarrow> dat d' t x = dat d t x)"
proof -
  obtain ok where w: "deviceWrite store (wr_table b) (wr_startAddress b) (wr_values b) d = (ok, d')" and ok: "wres_ok res \<longleftrightarrow> ok"
    using assms(3) by (auto simp: serverWriteBatch_def acceptedWrite_def refusedWrite_def split: prod.splits if_splits)
  obtain k where k: "k \<le> length (wr_values b)" "ok \<longleftrightarrow> k = length (wr_values b)"
    "\<forall>i < k. dat d' (wr_table b) (word_of_int (wr_startAddress b + int i)) = Some (wr_values b ! i)"
    "\<forall>i. k \<le> i \<and> i < length (wr_values b) \<longrightarrow> dat d' (wr_table b) (word_of_int (wr_startAddress b + int i)) = dat d (wr_table b) (word_of_int (wr_startAddress b + int i))"
    using deviceWrite_ok(2)[OF assms(1) w assms(2)] by blast
  have "map (\<lambda>i. the (dat d' (wr_table b) (word_of_int (wr_startAddress b + int i)))) [0..<length (wr_values b)] = wr_values b" if ok
    using k(2,3) that by (intro nth_equalityI) auto
  then have "ok \<Longrightarrow> deviceRead dat d' (wr_table b) (wr_startAddress b) (length (wr_values b)) = Some (wr_values b)" using k(2,3) by (simp add: deviceRead_eq)
  moreover have "\<exists>k < length (wr_values b). \<forall>i < length (wr_values b). dat d' (wr_table b) (word_of_int (wr_startAddress b + int i))
      = (if i < k then Some (wr_values b ! i) else dat d (wr_table b) (word_of_int (wr_startAddress b + int i)))" if "\<not> ok"
    using k that by (intro exI[of _ k]) (simp add: le_neq_implies_less)
  moreover have "dat d' t x = dat d t x" if "t \<noteq> wr_table b \<or> (\<forall>i < length (wr_values b). x \<noteq> word_of_int (wr_startAddress b + int i))" for t x
    using deviceWrite_outside[OF assms(1) w, of t x] that by blast
  ultimately show ?thesis using deviceWrite_ok(1)[OF assms(1) w assms(2)] ok by (simp add: serverRead_def)
qed

text \<open>A register file as Qt keeps it: one unit per table.\<close>

definition fileData :: "(RegisterType \<Rightarrow> u16 \<Rightarrow> u16 option) ServerData" where
  "fileData d table a = d table a"

definition fileSetData :: "(RegisterType \<Rightarrow> u16 \<Rightarrow> u16 option) ServerSetData" where
  "fileSetData table a v d = (case d table a of None \<Rightarrow> None | Some _ \<Rightarrow> Some (d(table := (d table)(a \<mapsto> v))))"

lemma file_laws: "deviceLaws fileData fileSetData table"
  by (auto simp: deviceLaws_def fileData_def fileSetData_def split: option.splits)

definition demoFile :: "RegisterType \<Rightarrow> u16 \<Rightarrow> u16 option" where
  "demoFile table a = (if table = HoldingRegisters \<and> 10 \<le> a \<and> a < 14 then Some 0 else None)"

definition demoBatch :: WriteBatch where
  "demoBatch = \<lparr>wr_table = HoldingRegisters, wr_startAddress = 12, wr_values = [7, 8, 9]\<rparr>"

theorem server_write_read_witness:
  "\<exists>res d'. serverWriteBatch fileSetData demoBatch demoFile = (res, d') \<and> \<not> wres_ok res \<and> fileData d' HoldingRegisters 12 = Some 7
     \<and> fileData d' HoldingRegisters 13 = Some 8 \<and> fileData d' HoldingRegisters 14 = None \<and> fileData d' HoldingRegisters 10 = Some 0"
proof -
  obtain res d' where w: "serverWriteBatch fileSetData demoBatch demoFile = (res, d')" by (cases "serverWriteBatch fileSetData demoBatch demoFile")
  note p = server_write_read[OF file_laws _ w]
  have len: "length (wr_values demoBatch) \<le> 65536" by (simp add: demoBatch_def)
  have "fst (serverWriteBatch fileSetData demoBatch demoFile) = refusedWrite ''setData refused''"
    "map (snd (serverWriteBatch fileSetData demoBatch demoFile) HoldingRegisters) [12, 13, 14] = [Some 7, Some 8, None]" by code_simp+
  then have "\<not> wres_ok res" "d' HoldingRegisters 12 = Some 7" "d' HoldingRegisters 13 = Some 8" "d' HoldingRegisters 14 = None"
    by (auto simp: w refusedWrite_def)
  moreover have "fileData d' HoldingRegisters 10 = fileData demoFile HoldingRegisters 10"
    using p[OF len] by (simp add: demoBatch_def numeral_3_eq_3 All_less_Suc)
  ultimately show ?thesis using w by (auto simp: fileData_def demoFile_def)
qed

definition demoRanges :: "WatchRange list" where
  "demoRanges = [\<lparr>wt_table = HoldingRegisters, wt_startAddress = 100, wt_size = 10\<rparr>, \<lparr>wt_table = Coils, wt_startAddress = 0, wt_size = 8\<rparr>,
     \<lparr>wt_table = HoldingRegisters, wt_startAddress = 20, wt_size = 4\<rparr>]"

theorem listen_map_covers_witness: "\<exists>u. listenMap demoRanges HoldingRegisters = Some u \<and> inUnit u 109"
proof -
  have "\<forall>r \<in> set demoRanges. 0 < wt_size r" by (simp add: demoRanges_def)
  from conjunct1[OF listen_map_covers[OF this]] have "\<exists>u. listenMap demoRanges HoldingRegisters = Some u \<and> (\<forall>a. 100 \<le> a \<and> a < 110 \<longrightarrow> inUnit u a)"
    by (simp add: demoRanges_def)
  then show ?thesis by force
qed

subsection \<open>Observed writes\<close>

text \<open>The write requests of the Modbus application protocol, as operator boxes send them.\<close>

datatype OperatorWrite = CoilWrite u16 u16 | CoilsWrite u16 u16 "u8 list" | RegisterWrite u16 u16 | RegistersWrite u16 "u16 list"
  | MaskWrite u16 u16 u16 | ReadWrite u16 u16 u16 "u16 list"

definition bigEndian :: "u16 \<Rightarrow> u8 list" where
  "bigEndian v = [word_of_int (uint v div 256), word_of_int (uint v)]"

definition registerBytes :: "u16 list \<Rightarrow> u8 list" where
  "registerBytes vs = bigEndian (of_nat (length vs)) @ [of_nat (2 * length vs)] @ concat (map bigEndian vs)"

fun encodeWrite :: "OperatorWrite \<Rightarrow> QModbusRequest" where
  "encodeWrite (CoilWrite a v) = \<lparr>pdu_function = WriteSingleCoil, pdu_data = bigEndian a @ bigEndian v\<rparr>"
| "encodeWrite (CoilsWrite a n bytes) = \<lparr>pdu_function = WriteMultipleCoils, pdu_data = bigEndian a @ bigEndian n @ [of_nat (length bytes)] @ bytes\<rparr>"
| "encodeWrite (RegisterWrite a v) = \<lparr>pdu_function = WriteSingleRegister, pdu_data = bigEndian a @ bigEndian v\<rparr>"
| "encodeWrite (RegistersWrite a vs) = \<lparr>pdu_function = WriteMultipleRegisters, pdu_data = bigEndian a @ registerBytes vs\<rparr>"
| "encodeWrite (MaskWrite a x y) = \<lparr>pdu_function = MaskWriteRegister, pdu_data = bigEndian a @ bigEndian x @ bigEndian y\<rparr>"
| "encodeWrite (ReadWrite a n a' vs) = \<lparr>pdu_function = ReadWriteMultipleRegisters, pdu_data = bigEndian a @ bigEndian n @ bigEndian a' @ registerBytes vs\<rparr>"

text \<open>The table, the first address and the number of registers a write is about.\<close>

fun writeTarget :: "OperatorWrite \<Rightarrow> RegisterType \<times> u16 \<times> nat" where
  "writeTarget (CoilWrite a v) = (Coils, a, 1)"
| "writeTarget (CoilsWrite a n bytes) = (Coils, a, unat n)"
| "writeTarget (RegisterWrite a v) = (HoldingRegisters, a, 1)"
| "writeTarget (RegistersWrite a vs) = (HoldingRegisters, a, length vs)"
| "writeTarget (MaskWrite a x y) = (HoldingRegisters, a, 1)"
| "writeTarget (ReadWrite a n a' vs) = (HoldingRegisters, a', length vs)"

lemma length_bigEndian [simp]: "length (bigEndian v) = 2"
  by (simp add: bigEndian_def)

lemma fromBigEndian_at: "fromBigEndian (pre @ bigEndian v @ suf) (length pre) = v"
proof -
  have "0 \<le> uint v div 256" "uint v div 256 < 256" using uint_bounded[of v] by (simp_all add: div_int_pos_iff)
  then have "uint (word_of_int (uint v div 256) :: u8) = uint v div 256" "uint (word_of_int (uint v) :: u8) = uint v mod 256"
    unfolding uint_word_of_int by simp_all
  then show ?thesis by (simp add: fromBigEndian_def bigEndian_def nth_append)
qed

lemma fromBigEndian_first: "fromBigEndian (bigEndian v @ suf) 0 = v" "fromBigEndian (bigEndian u @ bigEndian v @ suf) 2 = v"
  "fromBigEndian (bigEndian u @ bigEndian u' @ bigEndian v @ suf) 4 = v" "fromBigEndian (bigEndian u @ bigEndian u' @ bigEndian u'' @ bigEndian v @ suf) 6 = v"
  using fromBigEndian_at[of "[]" v suf] fromBigEndian_at[of "bigEndian u" v suf] fromBigEndian_at[of "bigEndian u @ bigEndian u'" v suf]
    fromBigEndian_at[of "bigEndian u @ bigEndian u' @ bigEndian u''" v suf]
  by simp_all

lemma observe_encode:
  assumes "resp_valid response" "\<not> resp_exception response" "writeTarget w = (table, a, n)" "n < 65536"
  shows "observeWrite (encodeWrite w) response = Some (table, uint a, int n)"
  using assms fromBigEndian_first(1)[of a "bigEndian v" for v]
  by (cases w) (auto simp: observeWrite_def writeLayout_def registerBytes_def fromBigEndian_first fromBigEndian_first(2)[unfolded numeral_2_eq_2] unsigned_of_nat take_bit_nat_eq_self uint_nat[symmetric]
    split: if_splits)

text \<open>C28: every accepted write of an operator box is reported.  For each write function of the protocol,
  a request the Qt server accepts gives one event with the server's id, the table and the first
  address the box wrote to, and the values the register file now has at exactly the written
  addresses; a request it answers with an exception gives none.\<close>

theorem operator_write_observed:
  assumes "writeTarget w = (table, a, n)" "n < 65536" "handle (encodeWrite w) d = (response, d')" "resp_valid response"
  shows "processRequest handle dat i (encodeWrite w) d =
     (response, (if resp_exception response then None
        else Some \<lparr>se_transportId = i, se_table = table, se_startAddress = uint a,
                   se_values = map (\<lambda>k. case dat d' table (a + of_nat k) of None \<Rightarrow> 0 | Some v \<Rightarrow> v) [0..<n]\<rparr>), d')"
proof (cases "resp_exception response")
  case True
  then show ?thesis using assms(3) by (simp add: processRequest_def observeWrite_def)
next
  case False
  then show ?thesis using assms(3) observe_encode[OF assms(4) False assms(1,2)] by (simp add: processRequest_def clientWrote_def)
qed

definition demoHandle :: "QModbusRequest \<Rightarrow> (RegisterType \<Rightarrow> u16 \<Rightarrow> u16 option) \<Rightarrow> QModbusResponse \<times> (RegisterType \<Rightarrow> u16 \<Rightarrow> u16 option)" where
  "demoHandle request d = (\<lparr>resp_valid = True, resp_exception = False\<rparr>, the (fileSetData HoldingRegisters 11 515 d))"

theorem operator_write_observed_witness:
  "fst (snd (processRequest demoHandle fileData ''box'' (encodeWrite (RegisterWrite 11 515)) demoFile))
     = Some \<lparr>se_transportId = ''box'', se_table = HoldingRegisters, se_startAddress = 11, se_values = [515]\<rparr>"
proof -
  have "writeTarget (RegisterWrite 11 515) = (HoldingRegisters, 11, 1)" by simp
  note p = operator_write_observed[OF this, of demoHandle demoFile "\<lparr>resp_valid = True, resp_exception = False\<rparr>" "the (fileSetData HoldingRegisters 11 515 demoFile)"]
  have "fileData (the (fileSetData HoldingRegisters 11 515 demoFile)) HoldingRegisters 11 = Some 515" by code_simp
  then show ?thesis using p[of fileData "''box''"] by (simp add: demoHandle_def)
qed

subsection \<open>Peer sessions and the core's copy\<close>

text \<open>
  The server's operations with the core subscribed to its events.  A live socket is one object, and
  generated session ids do not repeat among the peers there are.
\<close>

definition freshPeer :: "ServerOp \<Rightarrow> ServerTransport \<Rightarrow> bool" where
  "freshPeer op s \<longleftrightarrow> (case op of
     PeerAccepted (Some k) sessionId _ _ _ \<Rightarrow> k \<notin> fst ` set (srv_peers s) \<and> sessionId \<notin> ps_sessionId ` set (peerSnapshot s)
   | _ \<Rightarrow> True)"

inductive peerStep :: "ServerTransport \<times> PeerCache \<Rightarrow> ServerTransport \<times> PeerCache \<Rightarrow> bool" where
  "freshPeer op s \<Longrightarrow> serverOp op s = (es, s') \<Longrightarrow> peerStep (s, cache) (s', fold deliverPeer es cache)"

definition peer_inv :: "qstring \<Rightarrow> PeerCache \<Rightarrow> ServerTransport \<times> PeerCache \<Rightarrow> bool" where
  "peer_inv i cache0 x \<longleftrightarrow> (let (s, cache) = x in srv_id s = i \<and> cache = cache0(i := peerSnapshot s)
     \<and> distinct (map fst (srv_peers s)) \<and> distinct (map ps_sessionId (peerSnapshot s)) \<and> (\<forall>p \<in> set (peerSnapshot s). ps_transportId p = i))"

lemma deliver_gone:
  "(\<forall>p \<in> set ps. ps_transportId p = i) \<Longrightarrow>
   fold deliverPeer (map (\<lambda>p. (PeerDisconnected, p, reason)) ps) (cache(i := qs)) = cache(i := filter (\<lambda>q. ps_sessionId q \<notin> ps_sessionId ` set ps) qs)"
  by (induction ps arbitrary: qs) (simp_all add: deliverPeer_def onPeerSession_def Let_def conj_commute)

lemma drain_inv:
  assumes "peer_inv i cache0 (s, cache)" "drainPeers reason s = (es, s')"
  shows "peer_inv i cache0 (s', fold deliverPeer es cache)" "srv_peers s' = []"
proof -
  have es: "es = map (\<lambda>p. (PeerDisconnected, p, reason)) (peerSnapshot s)" and s': "s' = s\<lparr>srv_peers := []\<rparr>"
    using assms(2) by (auto simp: drainPeers_def peerSnapshot_def comp_def)
  have "cache = cache0(i := peerSnapshot s)" "\<forall>p \<in> set (peerSnapshot s). ps_transportId p = i" using assms(1) by (auto simp: peer_inv_def)
  then have "fold deliverPeer es cache = cache0(i := [])" by (simp add: es deliver_gone filter_False)
  then show "peer_inv i cache0 (s', fold deliverPeer es cache)" "srv_peers s' = []" using assms(1) by (auto simp: peer_inv_def s' peerSnapshot_def)
qed

lemma con_inv [simp]: "peer_inv i cache0 (s\<lparr>srv_con := c\<rparr>, cache) \<longleftrightarrow> peer_inv i cache0 (s, cache)"
  by (simp add: peer_inv_def peerSnapshot_def)

lemma add_inv:
  assumes "peer_inv i cache0 (s, cache)" "freshPeer (PeerAccepted socket sessionId local remote now) s" "addPeer socket sessionId local remote now s = (es, s')"
  shows "peer_inv i cache0 (s', fold deliverPeer es cache)"
proof (cases socket)
  case (Some k)
  then have "filter (\<lambda>p. fst p \<noteq> k) (srv_peers s) = srv_peers s" using assms(2) by (auto simp: freshPeer_def filter_id_conv)
  then show ?thesis using assms Some
    by (auto simp: addPeer_def freshPeer_def peer_inv_def peerSnapshot_def deliverPeer_def onPeerSession_def Let_def image_image)
qed (use assms in \<open>simp add: addPeer_def\<close>)

lemma remove_inv:
  assumes "peer_inv i cache0 (s, cache)" "removePeer k reason s = (es, s')"
  shows "peer_inv i cache0 (s', fold deliverPeer es cache)"
proof (cases "map_of (srv_peers s) k")
  case (Some session)
  have d: "distinct (map fst (srv_peers s))" "distinct (map (\<lambda>p. ps_sessionId (snd p)) (srv_peers s))" using assms(1) by (auto simp: peer_inv_def peerSnapshot_def comp_def)
  have "(k, session) \<in> set (srv_peers s)" using Some by (rule map_of_SomeD)
  moreover have "inj_on fst (set (srv_peers s))" "inj_on (\<lambda>p. ps_sessionId (snd p)) (set (srv_peers s))" using d by (simp_all add: distinct_map comp_def comp_inj_on_iff)
  ultimately have same: "ps_sessionId (snd p) \<noteq> ps_sessionId session \<longleftrightarrow> fst p \<noteq> k" if "p \<in> set (srv_peers s)" for p
    using that inj_on_eq_iff[of fst "set (srv_peers s)" p "(k, session)"] inj_on_eq_iff[of "\<lambda>p. ps_sessionId (snd p)" "set (srv_peers s)" p "(k, session)"] by simp
  then have "filter (\<lambda>q. ps_sessionId q \<noteq> ps_sessionId session) (map snd (srv_peers s)) = map snd (filter (\<lambda>p. fst p \<noteq> k) (srv_peers s))"
    by (simp add: filter_map comp_def cong: filter_cong)
  moreover have "distinct (map fst (filter (\<lambda>p. fst p \<noteq> k) (srv_peers s)))" "distinct (map ps_sessionId (map snd (filter (\<lambda>p. fst p \<noteq> k) (srv_peers s))))"
    using d by (simp_all add: distinct_map_filter comp_def)
  moreover have "ps_transportId session = i" "cache = cache0(i := map snd (srv_peers s))" "srv_id s = i" "\<forall>p \<in> set (srv_peers s). ps_transportId (snd p) = i"
    using assms(1) \<open>(k, session) \<in> set (srv_peers s)\<close> by (auto simp: peer_inv_def peerSnapshot_def)
  moreover have "es = [(PeerDisconnected, session, reason)]" "s' = s\<lparr>srv_peers := filter (\<lambda>p. fst p \<noteq> k) (srv_peers s)\<rparr>"
    using assms(2) Some by (auto simp: removePeer_def)
  ultimately show ?thesis by (simp add: peer_inv_def peerSnapshot_def deliverPeer_def onPeerSession_def Let_def)
qed (use assms in \<open>simp add: removePeer_def\<close>)

lemma peerStep_inv: "peer_inv i cache0 x \<Longrightarrow> peerStep x y \<Longrightarrow> peer_inv i cache0 y"
proof (erule peerStep.cases)
  fix op s es s' cache assume inv: "peer_inv i cache0 x" and x: "x = (s, cache)" and y: "y = (s', fold deliverPeer es cache)"
    and fresh: "freshPeer op s" and op: "serverOp op s = (es, s')"
  show "peer_inv i cache0 y" unfolding y
  proof (cases op)
    case (ServerState st)
    then show "peer_inv i cache0 (s', fold deliverPeer es cache)" using op inv x drain_inv(1)[of i cache0 s cache "''server stopped''"]
      by (cases "stateFromQt st = Disconnected") (auto simp: onCon_def drainPeers_def apsnd_def)
  next
    case (ServerError e message)
    then show "peer_inv i cache0 (s', fold deliverPeer es cache)" using op inv x drain_inv(1)[of i cache0 s cache message]
      by (auto simp: onCon_def drainPeers_def)
  next
    case ServerClosing
    then show "peer_inv i cache0 (s', fold deliverPeer es cache)" using op inv x
      by (intro drain_inv(1)[of i cache0 "s\<lparr>srv_con := disconnectBegin (srv_con s)\<rparr>" cache "''server stopped''"]) simp_all
  qed (use op inv x fresh in \<open>auto intro: add_inv remove_inv\<close>)
qed

text \<open>C29: the core's list of peers is the server's.  Whatever boxes connect and disconnect and however
  often the server stops, fails or is closed, the sessions the core answers for the transport are
  the sessions the transport holds, each once, and the lists of other transports are untouched; once
  the server signals that it is disconnected or failed, both are empty.\<close>

theorem peer_cache_refines:
  assumes "reach (\<lambda>x. x = (newServer i c, cache0(i := []))) peerStep (s, cache)"
  shows "cache i = peerSnapshot s \<and> distinct (map ps_sessionId (cache i)) \<and> (\<forall>t. t \<noteq> i \<longrightarrow> cache t = cache0 t)
    \<and> (\<forall>op es s'. op \<in> {ServerState UnconnectedState, ServerState ClosingState, ServerClosing} \<or> (\<exists>e message. op = ServerError e message) \<longrightarrow>
         serverOp op s = (es, s') \<longrightarrow> peerSnapshot s' = [] \<and> fold deliverPeer es cache i = [])"
proof -
  have inv: "peer_inv i cache0 (s, cache)" using assms
  proof (induction rule: reach.induct)
    case (reach_init x)
    then show ?case by (simp add: peer_inv_def newServer_def peerSnapshot_def)
  qed (blast intro: peerStep_inv)
  have "peerSnapshot s' = [] \<and> fold deliverPeer es cache i = []"
    if op: "op \<in> {ServerState UnconnectedState, ServerState ClosingState, ServerClosing} \<or> (\<exists>e message. op = ServerError e message)"
      "serverOp op s = (es, s')" for op es s'
  proof -
    have "peer_inv i cache0 (s', fold deliverPeer es cache)"
      using op by (intro peerStep_inv[OF inv] peerStep.intros[of op]) (auto simp: freshPeer_def)
    moreover have "srv_peers s' = []" using op by (auto simp: drainPeers_def onCon_def stateFromQt_def)
    ultimately show ?thesis by (simp add: peer_inv_def peerSnapshot_def)
  qed
  then show ?thesis using inv by (auto simp: peer_inv_def)
qed

definition demoEndpoint :: EndpointInfo where
  "demoEndpoint = \<lparr>ep_address = ''box'', ep_port = 502\<rparr>"

definition demoPeerOps :: "ServerOp list" where
  "demoPeerOps = [PeerAccepted (Some 1) ''a'' demoEndpoint demoEndpoint 5, PeerAccepted (Some 2) ''b'' demoEndpoint demoEndpoint 6, PeerGone 1]"

text \<open>Runs of operations.\<close>

fun peerRun :: "ServerOp list \<Rightarrow> ServerTransport \<times> PeerCache \<Rightarrow> (ServerTransport \<times> PeerCache) option" where
  "peerRun [] x = Some x"
| "peerRun (op # ops) x = (if freshPeer op (fst x) then peerRun ops (snd (serverOp op (fst x)), fold deliverPeer (fst (serverOp op (fst x))) (snd x)) else None)"

lemma peerRun_reach: "peerRun ops x = Some y \<Longrightarrow> reach init peerStep x \<Longrightarrow> reach init peerStep y"
proof (induction ops arbitrary: x)
  case (Cons op ops)
  obtain s cache where x: "x = (s, cache)" by (cases x)
  have "freshPeer op s" using Cons.prems(1) by (simp add: x split: if_splits)
  then have "peerStep x (snd (serverOp op s), fold deliverPeer (fst (serverOp op s)) cache)" unfolding x by (rule peerStep.intros) simp
  then show ?case using Cons.IH[OF _ reach_step[OF Cons.prems(2)]] Cons.prems(1) by (simp add: x split: if_splits)
qed simp

theorem peer_cache_refines_witness:
  "\<exists>s cache. peerRun demoPeerOps (newServer ''srv'' (newConnection 0 demoStatus), (\<lambda>_. [])(''srv'' := [])) = Some (s, cache)
     \<and> cache ''srv'' = peerSnapshot s \<and> map ps_sessionId (cache ''srv'') = [''b'']"
proof -
  let ?x = "(newServer ''srv'' (newConnection 0 demoStatus), (\<lambda>_. [])(''srv'' := []))"
  have "map_option (\<lambda>y. map ps_sessionId (snd y ''srv'')) (peerRun demoPeerOps ?x) = Some [''b'']"
    by (simp add: demoPeerOps_def freshPeer_def newServer_def addPeer_def removePeer_def peerSnapshot_def deliverPeer_def onPeerSession_def Let_def)
  then obtain s cache where run: "peerRun demoPeerOps ?x = Some (s, cache)" and b: "map ps_sessionId (cache ''srv'') = [''b'']" by auto
  have "reach (\<lambda>x. x = ?x) peerStep (s, cache)" by (rule peerRun_reach[OF run]) (rule reach_init, rule refl)
  from conjunct1[OF peer_cache_refines[OF this]] show ?thesis using run b by (intro exI[of _ s] exI[of _ cache] conjI)
qed

end
