(* ===== verification/Mqtt_Topics.thy ===== *)
theory Mqtt_Topics
  imports Modbus_Client Config_Validate
begin

text \<open>
  The MQTT transports (\<open>src/MqttClientTransport.cpp\<close>, \<open>src/MqttPahoTransport.cpp\<close>) as register files:
  a register is a topic, built from the configured prefix and template, its value the last payload
  received on it.  The broker connection is outside: what \<open>publish\<close> answers is an argument, and
  messages arrive as events.  \<open>QString::toUInt\<close> is an argument as well.
\<close>

subsection \<open>Numbers in texts\<close>

lemma of_digit_char: "d < 10 \<Longrightarrow> (of_char (digit_char d) :: nat) = 48 + d"
  unfolding digit_char_def by (simp add: of_char_of take_bit_nat_eq_self)

lemma digit_char_inj: "m < 10 \<Longrightarrow> n < 10 \<Longrightarrow> digit_char m = digit_char n \<longleftrightarrow> m = n"
  by (metis add_left_imp_eq of_digit_char)

lemma show_nat_nonempty [simp]: "show_nat n \<noteq> []" "[] \<noteq> show_nat n"
  by (subst show_nat.simps, simp)+

lemma show_nat_inj: "show_nat m = show_nat n \<Longrightarrow> m = n"
proof (induction m arbitrary: n rule: less_induct)
  case (less m)
  show ?case
  proof (cases "m < 10 \<or> n < 10")
    case True
    then show ?thesis using less.prems by (auto simp: show_nat.simps[of m] show_nat.simps[of n] digit_char_inj split: if_splits)
  next
    case False
    then have "show_nat (m div 10) = show_nat (n div 10)" "m mod 10 = n mod 10"
      using less.prems by (simp_all add: show_nat.simps[of m] show_nat.simps[of n] digit_char_inj)
    moreover have "m div 10 < m" using False by simp
    ultimately show ?thesis using less.IH by (metis div_mult_mod_eq)
  qed
qed

lemma show_nat_digits: "c \<in> set (show_nat n) \<Longrightarrow> 48 \<le> (of_char c :: nat) \<and> (of_char c :: nat) \<le> 57"
proof (induction n rule: show_nat.induct)
  case (1 n)
  then show ?case by (cases "n < 10") (auto simp: show_nat.simps[of n] of_digit_char intro: order.trans[OF _ less_imp_le])
qed

lemma show_nat_no_minus: "show_nat n \<noteq> CHR ''-'' # r"
  using show_nat_digits[of "CHR ''-''" n] by auto

lemma show_int_inj: "show_int i = show_int j \<Longrightarrow> i = j"
  using show_nat_no_minus show_nat_no_minus[symmetric] by (auto simp: show_int_def dest: show_nat_inj split: if_splits)

lemma show_int_head: "hd (show_int i) \<noteq> CHR ''/''" "show_int i \<noteq> []"
  using show_nat_digits[OF hd_in_set[OF show_nat_nonempty(1)], of "nat i"] by (auto simp: show_int_def)

text \<open>A template is read from the front, character by character or marker by marker.\<close>

lemma template_induct [case_names Nil Char Marker]:
  assumes "P []" "\<And>c t. place_marker (c # t) = None \<Longrightarrow> P t \<Longrightarrow> P (c # t)"
    "\<And>c t n r. place_marker (c # t) = Some (n, r) \<Longrightarrow> P r \<Longrightarrow> P (c # t)"
  shows "P s"
proof (induction s rule: length_induct)
  case (1 s)
  show ?case
  proof (cases s)
    case (Cons c t)
    then show ?thesis using 1 assms(2)[of c t] assms(3)[of c t] place_marker_shorter[of s] by (cases "place_marker (c # t)") auto
  qed (simp add: assms(1))
qed

lemma marker_simps:
  "lowest_marker [] = None" "replace_marker k a [] = []"
  "place_marker (c # t) = None \<Longrightarrow> lowest_marker (c # t) = lowest_marker t"
  "place_marker (c # t) = None \<Longrightarrow> replace_marker k a (c # t) = c # replace_marker k a t"
  "place_marker (c # t) = Some (n, r) \<Longrightarrow> lowest_marker (c # t) = (case lowest_marker r of None \<Rightarrow> Some n | Some m \<Rightarrow> Some (min n m))"
  "place_marker (c # t) = Some (n, r) \<Longrightarrow> replace_marker k a (c # t) = (if n = k then a else take (Suc (length t) - length r) (c # t)) @ replace_marker k a r"
  by (simp_all add: lowest_marker.simps[of "[]"] replace_marker.simps[of k a "[]"] lowest_marker.simps[of "c # t"] replace_marker.simps[of k a "c # t"] del: place_marker.simps)

lemma replace_marker_mono: "length a \<le> length b \<Longrightarrow> length (replace_marker k a s) \<le> length (replace_marker k b s)"
  by (induction s rule: template_induct) (auto simp: marker_simps simp del: place_marker.simps)

lemma replace_marker_strict:
  "length a < length b \<Longrightarrow> lowest_marker s = Some k \<Longrightarrow> length (replace_marker k a s) < length (replace_marker k b s)"
proof (induction s rule: template_induct)
  case (Marker c t n r)
  then show ?case using replace_marker_mono[of a b k r]
    by (auto simp: marker_simps add_less_le_mono simp del: place_marker.simps split: option.splits if_splits)
qed (auto simp: marker_simps simp del: place_marker.simps)

lemma replace_marker_same_length:
  "length a = length b \<Longrightarrow> lowest_marker s = Some k \<Longrightarrow> replace_marker k a s = replace_marker k b s \<Longrightarrow> a = b"
  by (induction s rule: template_induct)
    (auto simp: marker_simps min_def simp del: place_marker.simps split: option.splits if_splits)

lemma qarg_inj:
  assumes "lowest_marker s \<noteq> None" "qarg s a = qarg s b"
  shows "a = b"
proof -
  obtain k where k: "lowest_marker s = Some k" using assms(1) by auto
  then have "replace_marker k a s = replace_marker k b s" using assms(2) by (simp add: qarg_def)
  then show ?thesis using replace_marker_same_length[OF _ k] replace_marker_strict[OF _ k] by (metis linorder_neqE_nat less_irrefl)
qed

lemma marker_inside: "s = u @ ''%1'' @ v \<Longrightarrow> lowest_marker s \<noteq> None"
proof (induction s arbitrary: u rule: template_induct)
  case (Char c t)
  have "place_marker (''%1'' @ v) \<noteq> None" by (cases v) (auto simp: digit_value_def split: option.splits)
  then have "u \<noteq> []" using Char.hyps Char.prems by auto
  then show ?case using Char by (cases u) (auto simp: marker_simps simp del: place_marker.simps)
next
  case (Marker c t n r)
  then show ?case using marker_simps(5)[OF Marker.hyps(1)] by (auto split: option.splits)
qed simp

lemma contains_marker:
  assumes "qcontains ''%1'' s"
  shows "lowest_marker s \<noteq> None"
proof -
  obtain i where "take 2 (drop i s) = ''%1''" using assms by (auto simp: qcontains_def list_ex_iff numeral_2_eq_2)
  then have "s = take i s @ ''%1'' @ drop (2 + i) s" by (metis append_take_drop_id drop_drop)
  then show ?thesis by (rule marker_inside)
qed

lemma qarg_first_char:
  assumes "hd s \<noteq> CHR ''/''" "a \<noteq> []" "hd a \<noteq> CHR ''/''" "s \<noteq> []"
  shows "hd (qarg s a) \<noteq> CHR ''/''"
proof (cases s)
  case (Cons c t)
  show ?thesis
  proof (cases "place_marker (c # t)")
    case (Some nr)
    obtain n r where nr: "nr = (n, r)" by (cases nr)
    then have "Suc (length t) - length r \<noteq> 0" using place_marker_shorter[OF Some[unfolded nr]] by simp
    then obtain l where "Suc (length t) - length r = Suc l" by (cases "Suc (length t) - length r") auto
    then show ?thesis using assms Cons Some nr by (auto simp: qarg_def marker_simps simp del: place_marker.simps split: option.splits)
  qed (use assms Cons in \<open>auto simp: qarg_def marker_simps simp del: place_marker.simps split: option.splits\<close>)
qed (use assms in simp)

lemma qarg_slash: "hd s = CHR ''/'' \<Longrightarrow> s \<noteq> [] \<Longrightarrow> \<exists>r. qarg s a = CHR ''/'' # r"
  by (cases s) (auto simp: qarg_def marker_simps split: option.splits)

subsection \<open>Topics\<close>

definition endsWithSlash :: "qstring \<Rightarrow> bool" where
  "endsWithSlash s \<longleftrightarrow> s \<noteq> [] \<and> last s = CHR ''/''"

definition startsWithSlash :: "qstring \<Rightarrow> bool" where
  "startsWithSlash s \<longleftrightarrow> s \<noteq> [] \<and> hd s = CHR ''/''"

definition joinTopic :: "qstring \<Rightarrow> qstring \<Rightarrow> qstring" where
  "joinTopic pre tail = (if pre = [] then tail else if endsWithSlash pre \<or> startsWithSlash tail then pre @ tail else pre @ ''/'' @ tail)"

definition topicSuffix :: "qstring \<Rightarrow> qstring \<Rightarrow> qstring" where
  "topicSuffix pre full =
     (if pre = [] then full
      else let p = (if endsWithSlash pre then pre else pre @ ''/'') in
           if take (length p) full = p then drop (length p) full else full)"

definition wildcard :: "qstring \<Rightarrow> qstring" where
  "wildcard pre = (if pre = [] then ''#'' else pre @ (if endsWithSlash pre then ''#'' else ''/#''))"

text \<open>The filter \<open>x#\<close> of the protocol matches the topics that start with \<open>x\<close>.\<close>

definition matchesHash :: "qstring \<Rightarrow> qstring \<Rightarrow> bool" where
  "matchesHash filt topic \<longleftrightarrow> filt \<noteq> [] \<and> last filt = CHR ''#'' \<and> take (length filt - 1) topic = butlast filt"

record MqttTransport =
  mq_prefix :: qstring
  mq_template :: qstring
  mq_con :: Connection
  mq_cache :: "qstring \<rightharpoonup> qstring"

definition addressTail :: "MqttTransport \<Rightarrow> int \<Rightarrow> qstring" where
  "addressTail m a = qarg (mq_template m) (show_int a)"

definition topicForAddress :: "MqttTransport \<Rightarrow> int \<Rightarrow> qstring" where
  "topicForAddress m a = joinTopic (mq_prefix m) (addressTail m a)"

subsection \<open>Operations\<close>

definition messageReceived :: "qstring \<times> qstring \<Rightarrow> MqttTransport \<Rightarrow> MqttTransport" where
  "messageReceived msg m = m\<lparr>mq_cache := (mq_cache m)(topicSuffix (mq_prefix m) (fst msg) \<mapsto> snd msg)\<rparr>"

definition clearCache :: "MqttTransport \<Rightarrow> MqttTransport" where
  "clearCache m = m\<lparr>mq_cache := Map.empty\<rparr>"

fun mqttReadLoop :: "(qstring \<Rightarrow> nat option) \<Rightarrow> MqttTransport \<Rightarrow> int \<Rightarrow> nat \<Rightarrow> qstring + u16 list" where
  "mqttReadLoop toUInt m a 0 = Inr []"
| "mqttReadLoop toUInt m a (Suc n) =
     (let suffix = addressTail m a in
      case mq_cache m suffix of
        None \<Rightarrow> Inl (qarg ''MQTT topic has no cached value: %1'' suffix)
      | Some payload \<Rightarrow>
          (case toUInt payload of
             None \<Rightarrow> Inl (qarg ''MQTT topic is not a uint16: %1'' suffix)
           | Some v \<Rightarrow> if 65535 < v then Inl (qarg ''MQTT topic is not a uint16: %1'' suffix)
                       else map_sum id ((#) (of_nat v)) (mqttReadLoop toUInt m (a + 1) n)))"

definition mqttRead :: "(qstring \<Rightarrow> nat option) \<Rightarrow> ReadRequest \<Rightarrow> MqttTransport \<Rightarrow> ReadResult" where
  "mqttRead toUInt req m =
     (if con_state (mq_con m) \<noteq> Connected then noRead (rd_startAddress req) ''not connected''
      else case mqttReadLoop toUInt m (rd_startAddress req) (nat (rd_count req)) of
             Inl message \<Rightarrow> noRead (rd_startAddress req) message
           | Inr vs \<Rightarrow> \<lparr>rr_ok = True, rr_values = vs, rr_startAddress = rd_startAddress req, rr_errorMessage = []\<rparr>)"

definition pahoRead :: "(qstring \<Rightarrow> nat option) \<Rightarrow> ReadRequest \<Rightarrow> MqttTransport \<Rightarrow> ReadResult" where
  "pahoRead = mqttRead"

text \<open>The publishing loops: the messages handed to the client and the result.\<close>

definition payloadOf :: "u16 \<Rightarrow> qstring" where
  "payloadOf v = show_nat (unat v)"

fun mqttPublish :: "(qstring \<times> qstring \<Rightarrow> bool) \<Rightarrow> MqttTransport \<Rightarrow> int \<Rightarrow> u16 list \<Rightarrow> (qstring \<times> qstring) list \<times> WriteResult" where
  "mqttPublish accepts m a [] = ([], acceptedWrite)"
| "mqttPublish accepts m a (v # vs) =
     (let msg = (topicForAddress m a, payloadOf v) in
      if accepts msg then apfst ((#) msg) (mqttPublish accepts m (a + 1) vs)
      else ([], refusedWrite (qarg ''MQTT publish failed @ %1'' (fst msg))))"

definition mqttWriteBatch :: "(qstring \<times> qstring \<Rightarrow> bool) \<Rightarrow> WriteBatch \<Rightarrow> MqttTransport \<Rightarrow> (qstring \<times> qstring) list \<times> WriteResult" where
  "mqttWriteBatch accepts b m =
     (if con_state (mq_con m) \<noteq> Connected then ([], refusedWrite ''not connected'') else mqttPublish accepts m (wr_startAddress b) (wr_values b))"

text \<open>
  Paho's loop looks at the stop flag before each register, and waits for each publication: what the
  flag is and what comes of the publication, by the register's place in the batch.
\<close>

datatype PahoPublish = PahoDelivered | PahoTimeout | PahoThrew qstring

fun pahoPublish :: "(nat \<Rightarrow> bool) \<Rightarrow> (nat \<Rightarrow> PahoPublish) \<Rightarrow> MqttTransport \<Rightarrow> nat \<Rightarrow> int \<Rightarrow> u16 list \<Rightarrow> (qstring \<times> qstring) list \<times> WriteResult" where
  "pahoPublish stopping outcome m i a [] = ([], acceptedWrite)"
| "pahoPublish stopping outcome m i a (v # vs) =
     (if stopping i then ([], refusedWrite ''Paho MQTT transport is stopping'')
      else let msg = (topicForAddress m a, payloadOf v) in
        case outcome i of
          PahoDelivered \<Rightarrow> apfst ((#) msg) (pahoPublish stopping outcome m (Suc i) (a + 1) vs)
        | PahoTimeout \<Rightarrow> ([msg], refusedWrite (qarg ''paho publish timeout @ %1'' (fst msg)))
        | PahoThrew what \<Rightarrow> ([], refusedWrite what))"

definition performWrite :: "(nat \<Rightarrow> bool) \<Rightarrow> (nat \<Rightarrow> PahoPublish) \<Rightarrow> WriteBatch \<Rightarrow> MqttTransport \<Rightarrow> (qstring \<times> qstring) list \<times> WriteResult" where
  "performWrite stopping outcome b m =
     (if con_state (mq_con m) \<noteq> Connected then ([], refusedWrite ''not connected'') else pahoPublish stopping outcome m 0 (wr_startAddress b) (wr_values b))"

subsection \<open>Connection of the Qt client\<close>

datatype MqttClientState = MqttDisconnected | MqttConnecting | MqttConnected

text \<open>
  The handlers are those of the Modbus transports, with the cache and the subscription added: the
  error the client is left with when it cannot subscribe replaces the update.
\<close>

definition mqttDeviceState :: "MqttClientState \<Rightarrow> QModbusState" where
  "mqttDeviceState s = (case s of MqttDisconnected \<Rightarrow> UnconnectedState | MqttConnecting \<Rightarrow> ConnectingState | MqttConnected \<Rightarrow> ConnectedState)"

definition mqttStateChanged :: "bool \<Rightarrow> MqttClientState \<Rightarrow> MqttTransport \<Rightarrow> StatusUpdate \<times> MqttTransport" where
  "mqttStateChanged subscribed s m =
     (let (u, c) = deviceStateChanged (mqttDeviceState s) (mq_con m);
          m = m\<lparr>mq_con := c\<rparr>;
          m = (if s = MqttDisconnected then clearCache m else m) in
      if s = MqttConnected \<and> \<not> subscribed
      then let message = qarg ''MQTT subscribe failed: %1'' (wildcard (mq_prefix m))
           in ((ConnError, message), m\<lparr>mq_con := (mq_con m)\<lparr>con_lastError := message, con_state := ConnError\<rparr>\<rparr>)
      else (u, m))"

definition mqttErrorChanged :: "int \<Rightarrow> MqttTransport \<Rightarrow> StatusUpdate option \<times> MqttTransport" where
  "mqttErrorChanged e m =
     (if e = 0 then (None, m)
      else let (u, c) = deviceFailed (qarg ''MQTT error %1'' (show_int e)) (mq_con m) in (u, (clearCache m)\<lparr>mq_con := c\<rparr>))"

definition mqttWorkerRefusal :: "bool \<Rightarrow> qstring option" where
  "mqttWorkerRefusal onWorker = (if onWorker then Some ''connect() cannot block the MQTT worker thread'' else None)"

definition mqttConnectBegin :: "bool \<Rightarrow> MqttTransport \<Rightarrow> (qstring + unit) option \<times> StatusUpdate option \<times> MqttTransport" where
  "mqttConnectBegin onWorker m =
     (let (result, u, c) = connectBegin (mqttWorkerRefusal onWorker) (mq_con m); m = m\<lparr>mq_con := c\<rparr>
      in (result, u, if result = None then clearCache m else m))"

text \<open>At the time-out, \<open>error\<close> is the last error before the client is told to disconnect.\<close>

definition mqttConnectTimedOut :: "qstring \<Rightarrow> MqttTransport \<Rightarrow> (qstring + unit) \<times> StatusUpdate \<times> MqttTransport" where
  "mqttConnectTimedOut error m =
     (let message = orElse error ''MQTT connect timeout''
      in (Inl message, (ConnError, message), m\<lparr>mq_con := (armReconnectIfConfigured (mq_con m))\<lparr>con_state := ConnError\<rparr>\<rparr>))"

datatype ReconnectAction = NoAction | ConnectToHost | DisconnectFromHost

definition mqttReconnectTick :: "bool \<Rightarrow> MqttClientState \<Rightarrow> MqttTransport \<Rightarrow> ReconnectAction" where
  "mqttReconnectTick stopping actual m =
     (if stopping \<or> \<not> reconnects (mq_con m) then NoAction
      else case actual of MqttDisconnected \<Rightarrow> ConnectToHost | MqttConnected \<Rightarrow> DisconnectFromHost | MqttConnecting \<Rightarrow> NoAction)"

subsection \<open>Connection of the Paho client\<close>

definition pahoStore :: "ConnectionState \<Rightarrow> qstring \<Rightarrow> MqttTransport \<Rightarrow> StatusUpdate \<times> MqttTransport" where
  "pahoStore st message m = ((st, message), m\<lparr>mq_con := (mq_con m)\<lparr>con_state := st\<rparr>\<rparr>)"

definition pahoError :: "qstring \<Rightarrow> MqttTransport \<Rightarrow> (qstring + unit) \<times> StatusUpdate \<times> MqttTransport" where
  "pahoError message m = (Inl message, pahoStore ConnError message (m\<lparr>mq_con := (mq_con m)\<lparr>con_lastError := message\<rparr>\<rparr>))"

definition pahoConnectBegin :: "MqttTransport \<Rightarrow> StatusUpdate \<times> MqttTransport" where
  "pahoConnectBegin m = pahoStore Connecting [] (clearCache (m\<lparr>mq_con := (mq_con m)\<lparr>con_lastError := []\<rparr>\<rparr>))"

definition retrySeconds :: "int \<Rightarrow> int option" where
  "retrySeconds reconnectIntervalMs = (if 0 < reconnectIntervalMs then Some (max 1 ((reconnectIntervalMs + 999) div 1000)) else None)"

datatype PahoConnect = PahoConnectTimeout | PahoSubscribeTimeout | PahoUp | PahoConnectThrew qstring

definition pahoConnectEnd :: "PahoConnect \<Rightarrow> MqttTransport \<Rightarrow> (qstring + unit) \<times> StatusUpdate \<times> MqttTransport" where
  "pahoConnectEnd outcome m = (case outcome of
     PahoConnectTimeout \<Rightarrow> pahoError ''paho MQTT connect timeout'' m
   | PahoSubscribeTimeout \<Rightarrow> pahoError ''paho MQTT subscribe timeout'' m
   | PahoConnectThrew what \<Rightarrow> pahoError what m
   | PahoUp \<Rightarrow> (Inr (), pahoStore Connected [] m))"

definition pahoConnected :: "MqttTransport \<Rightarrow> StatusUpdate \<times> MqttTransport" where
  "pahoConnected m = pahoStore Connected [] m"

definition pahoConnectionLost :: "qstring \<Rightarrow> MqttTransport \<Rightarrow> StatusUpdate \<times> MqttTransport" where
  "pahoConnectionLost cause m = apsnd clearCache (pahoStore Disconnected cause (m\<lparr>mq_con := (mq_con m)\<lparr>con_lastError := cause\<rparr>\<rparr>))"

definition pahoDisconnect :: "MqttTransport \<Rightarrow> StatusUpdate \<times> MqttTransport" where
  "pahoDisconnect m = pahoStore Disconnected [] (clearCache m)"

subsection \<open>What is written can be read\<close>

lemma topicSuffix_join:
  assumes "pre = [] \<or> endsWithSlash pre \<or> \<not> startsWithSlash tail"
  shows "topicSuffix pre (joinTopic pre tail) = tail"
  using assms by (auto simp: topicSuffix_def joinTopic_def endsWithSlash_def startsWithSlash_def Let_def)

lemma wildcard_covers: "matchesHash (wildcard pre) (joinTopic pre tail)"
  by (cases tail) (auto simp: matchesHash_def wildcard_def joinTopic_def startsWithSlash_def butlast_append)

definition readable :: "MqttTransport \<Rightarrow> bool" where
  "readable m \<longleftrightarrow> lowest_marker (mq_template m) \<noteq> None \<and> (mq_prefix m = [] \<or> endsWithSlash (mq_prefix m) \<or> \<not> startsWithSlash (mq_template m))"

lemma addressTail_inj: "readable m \<Longrightarrow> addressTail m a = addressTail m a' \<longleftrightarrow> a = a'"
  unfolding readable_def addressTail_def using qarg_inj show_int_inj by blast

lemma suffix_of_topic:
  assumes "readable m"
  shows "topicSuffix (mq_prefix m) (topicForAddress m a) = addressTail m a"
proof -
  have "\<not> startsWithSlash (addressTail m a)" if "\<not> startsWithSlash (mq_template m)" "lowest_marker (mq_template m) \<noteq> None"
  proof -
    have ne: "mq_template m \<noteq> []" using that(2) by (auto simp: marker_simps)
    then have "hd (mq_template m) \<noteq> CHR ''/''" using that(1) by (simp add: startsWithSlash_def)
    from qarg_first_char[OF this show_int_head(2) show_int_head(1) ne] show ?thesis by (simp add: startsWithSlash_def addressTail_def)
  qed
  then show ?thesis using assms unfolding topicForAddress_def by (intro topicSuffix_join) (auto simp: readable_def)
qed

lemma received_keeps [simp]: "mq_prefix (messageReceived msg m) = mq_prefix m" "mq_template (messageReceived msg m) = mq_template m" "mq_con (messageReceived msg m) = mq_con m"
  "addressTail (messageReceived msg m) = addressTail m" "topicForAddress (messageReceived msg m) = topicForAddress m" "readable (messageReceived msg m) = readable m"
  by (simp_all add: messageReceived_def addressTail_def topicForAddress_def readable_def fun_eq_iff)

lemma fold_received_keeps [simp]: "mq_con (fold messageReceived msgs m) = mq_con m" "addressTail (fold messageReceived msgs m) = addressTail m"
  by (induction msgs arbitrary: m) simp_all

definition messagesFor :: "MqttTransport \<Rightarrow> int \<Rightarrow> u16 list \<Rightarrow> (qstring \<times> qstring) list" where
  "messagesFor m a vs = map (\<lambda>i. (topicForAddress m (a + int i), payloadOf (vs ! i))) [0..<length vs]"

lemma messagesFor_Cons: "messagesFor m a (v # vs) = (topicForAddress m a, payloadOf v) # messagesFor m (a + 1) vs"
  by (simp add: messagesFor_def upt_conv_Cons map_Suc_upt[symmetric] add.assoc del: upt_Suc)

lemma messagesFor_received [simp]: "messagesFor (messageReceived msg m) = messagesFor m"
  by (simp add: messagesFor_def fun_eq_iff)

lemma publish_all: "(\<forall>msg \<in> set (messagesFor m a vs). accepts msg) \<Longrightarrow> mqttPublish accepts m a vs = (messagesFor m a vs, acceptedWrite)"
  by (induction vs arbitrary: a) (simp_all add: messagesFor_Cons, simp add: messagesFor_def)

lemma cache_after:
  assumes "readable m"
  shows "mq_cache (fold messageReceived (messagesFor m a vs) m) (addressTail m x)
     = (if a \<le> x \<and> x < a + int (length vs) then Some (payloadOf (vs ! nat (x - a))) else mq_cache m (addressTail m x))"
  using assms
proof (induction vs arbitrary: a m)
  case (Cons v vs)
  let ?m = "messageReceived (topicForAddress m a, payloadOf v) m"
  have "mq_cache ?m (addressTail m x) = (if x = a then Some (payloadOf v) else mq_cache m (addressTail m x))"
    using Cons.prems by (simp add: messageReceived_def suffix_of_topic addressTail_inj)
  moreover have "nat (x - a) = Suc (nat (x - (a + 1)))" if "a + 1 \<le> x" using that by simp
  ultimately show ?case using Cons.IH[of ?m "a + 1"] Cons.prems by (auto simp: messagesFor_Cons)
qed (auto simp: messagesFor_def)

lemma readLoop_all:
  assumes "\<And>i. i < n \<Longrightarrow> mq_cache m (addressTail m (a + int i)) = Some (payloadOf (f i))" "\<And>v :: u16. toUInt (payloadOf v) = Some (unat v)"
  shows "mqttReadLoop toUInt m a n = Inr (map f [0..<n])"
  using assms(1)
proof (induction n arbitrary: a f)
  case (Suc n)
  have "unat (f 0) \<le> 65535" using unsigned_less[of "f 0", where ?'a = nat] by simp
  moreover have "mqttReadLoop toUInt m (a + 1) n = Inr (map (\<lambda>i. f (Suc i)) [0..<n])"
    using Suc.prems[of "Suc i" for i] by (intro Suc.IH) (simp add: add.assoc)
  moreover have "map f [0..<Suc n] = f 0 # map (\<lambda>i. f (Suc i)) [0..<n]" by (simp add: upt_conv_Cons map_Suc_upt[symmetric] comp_def del: upt_Suc)
  ultimately show ?case using Suc.prems[of 0] assms(2) by (simp add: Let_def)
qed simp

text \<open>C34: an MQTT transport is a register file.  With a template that passes validation, and that
  does not start with a slash unless the prefix is empty or ends with one, writing a batch publishes
  one message per register, on topics the transport is subscribed to; once the broker has sent these
  messages back, whatever was cached before, reading the same range gives the values of the batch.\<close>

theorem mqtt_write_read:
  assumes "validateMqttTail t sec = []" "mq_template m = tp_topicTemplate t"
    "mq_prefix m = [] \<or> endsWithSlash (mq_prefix m) \<or> \<not> startsWithSlash (mq_template m)" "con_state (mq_con m) = Connected"
    "\<forall>v :: u16. toUInt (payloadOf v) = Some (unat v)" "mqttWriteBatch (\<lambda>_. True) b m = (msgs, res)"
  shows "res = acceptedWrite \<and> length msgs = length (wr_values b) \<and> (\<forall>msg \<in> set msgs. matchesHash (wildcard (mq_prefix m)) (fst msg))
    \<and> mqttRead toUInt \<lparr>rd_table = wr_table b, rd_startAddress = wr_startAddress b, rd_count = int (length (wr_values b))\<rparr> (fold messageReceived msgs m)
        = \<lparr>rr_ok = True, rr_values = wr_values b, rr_startAddress = wr_startAddress b, rr_errorMessage = []\<rparr>"
proof -
  have "qcontains ''%1'' (mq_template m)" using assms(1,2) by (auto simp: validateMqttTail_def rejectIf_def split: if_splits)
  then have r: "readable m" using contains_marker assms(3) by (simp add: readable_def)
  have msgs: "msgs = messagesFor m (wr_startAddress b) (wr_values b)" "res = acceptedWrite"
    using assms(4,6) publish_all[of m "wr_startAddress b" "wr_values b" "\<lambda>_. True"] by (auto simp: mqttWriteBatch_def)
  have "mqttReadLoop toUInt (fold messageReceived msgs m) (wr_startAddress b) (length (wr_values b)) = Inr (map (\<lambda>i. wr_values b ! i) [0..<length (wr_values b)])"
    using assms(5) cache_after[OF r] by (intro readLoop_all) (simp_all add: msgs)
  then show ?thesis using assms(4) wildcard_covers by (auto simp: mqttRead_def map_nth msgs messagesFor_def topicForAddress_def)
qed

definition demoMqtt :: "qstring \<Rightarrow> qstring \<Rightarrow> MqttTransport" where
  "demoMqtt pre template = \<lparr>mq_prefix = pre, mq_template = template, mq_con = (newConnection 0 demoStatus)\<lparr>con_state := Connected\<rparr>, mq_cache = Map.empty\<rparr>"

definition demoToUInt :: "qstring \<Rightarrow> nat option" where
  "demoToUInt s = (if s = [] then None else fold (\<lambda>c n. case (n, digit_value c) of (Some n, Some d) \<Rightarrow> Some (10 * n + d) | _ \<Rightarrow> None) s (Some 0))"

lemma demoToUInt_show: "demoToUInt (show_nat n) = Some n"
proof -
  have "fold (\<lambda>c n. case (n, digit_value c) of (Some n, Some d) \<Rightarrow> Some (10 * n + d) | _ \<Rightarrow> None) (show_nat n) (Some 0) = Some n"
  proof (induction n rule: show_nat.induct)
    case (1 n)
    have "digit_value (digit_char d) = Some d" if "d < 10" for d using that by (simp add: digit_value_def of_digit_char Let_def)
    then show ?case using 1 by (cases "n < 10") (simp_all add: show_nat.simps[of n])
  qed
  then show ?thesis by (simp add: demoToUInt_def)
qed

theorem mqtt_write_read_witness:
  "mqttRead demoToUInt \<lparr>rd_table = HoldingRegisters, rd_startAddress = 12, rd_count = 3\<rparr>
     (fold messageReceived (fst (mqttWriteBatch (\<lambda>_. True) \<lparr>wr_table = HoldingRegisters, wr_startAddress = 12, wr_values = [7, 8, 9]\<rparr> (demoMqtt ''plant'' ''reg/%1'')))
       (demoMqtt ''plant'' ''reg/%1'')) = \<lparr>rr_ok = True, rr_values = [7, 8, 9], rr_startAddress = 12, rr_errorMessage = []\<rparr>"
proof -
  let ?t = "defaultTransportConfig\<lparr>tp_topicTemplate := ''reg/%1''\<rparr>" and ?m = "demoMqtt ''plant'' ''reg/%1''"
    and ?b = "\<lparr>wr_table = HoldingRegisters, wr_startAddress = 12, wr_values = [7, 8, 9]\<rparr> :: WriteBatch"
  have "validateMqttTail ?t [] = []" "mq_template ?m = tp_topicTemplate ?t" "\<not> startsWithSlash (mq_template ?m)" "con_state (mq_con ?m) = Connected" by code_simp+
  moreover have "\<forall>v :: u16. demoToUInt (payloadOf v) = Some (unat v)" by (simp add: payloadOf_def demoToUInt_show)
  ultimately show ?thesis
    using mqtt_write_read[of ?t "[]" ?m demoToUInt ?b "fst (mqttWriteBatch (\<lambda>_. True) ?b ?m)" "snd (mqttWriteBatch (\<lambda>_. True) ?b ?m)"] by simp
qed

text \<open>C35: a template that starts with a slash makes a register unreadable.  Validation accepts such a
  template under a prefix that does not end with a slash; the topic is then the prefix and the tail,
  but a received topic is filed without the slash, so that the value written to a register and sent
  back by the broker is not found when the register is read.\<close>

theorem mqtt_leading_slash_unreadable:
  assumes "mq_prefix m \<noteq> []" "\<not> endsWithSlash (mq_prefix m)" "startsWithSlash (mq_template m)" "con_state (mq_con m) = Connected"
    "mq_cache m = Map.empty" "mqttWriteBatch (\<lambda>_. True) \<lparr>wr_table = table, wr_startAddress = a, wr_values = [v]\<rparr> m = (msgs, res)"
  shows "wres_ok res \<and> mqttRead toUInt \<lparr>rd_table = table, rd_startAddress = a, rd_count = 1\<rparr> (fold messageReceived msgs m)
     = noRead a (qarg ''MQTT topic has no cached value: %1'' (addressTail m a))"
proof -
  obtain r where r: "addressTail m a = CHR ''/'' # r" using assms(3) qarg_slash unfolding addressTail_def startsWithSlash_def by blast
  have msgs: "msgs = [(topicForAddress m a, payloadOf v)]" "res = acceptedWrite" using assms(4,6) by (auto simp: mqttWriteBatch_def Let_def)
  have "topicSuffix (mq_prefix m) (topicForAddress m a) = r" using assms(1,2) r by (simp add: topicSuffix_def topicForAddress_def joinTopic_def startsWithSlash_def Let_def)
  then have "mq_cache (fold messageReceived msgs m) (addressTail m a) = None" using assms(5) r by (simp add: msgs messageReceived_def)
  then show ?thesis using assms(4) msgs(2) by (simp add: mqttRead_def acceptedWrite_def Let_def del: fold_simps)
qed

theorem mqtt_leading_slash_unreadable_witness:
  "validateMqttTail (defaultTransportConfig\<lparr>tp_topicTemplate := ''/reg/%1''\<rparr>) [] = []
   \<and> \<not> rr_ok (mqttRead demoToUInt \<lparr>rd_table = HoldingRegisters, rd_startAddress = 12, rd_count = 1\<rparr>
       (fold messageReceived (fst (mqttWriteBatch (\<lambda>_. True) \<lparr>wr_table = HoldingRegisters, wr_startAddress = 12, wr_values = [7]\<rparr> (demoMqtt ''plant'' ''/reg/%1'')))
         (demoMqtt ''plant'' ''/reg/%1'')))"
proof -
  let ?m = "demoMqtt ''plant'' ''/reg/%1''"
  let ?out = "mqttWriteBatch (\<lambda>_. True) \<lparr>wr_table = HoldingRegisters, wr_startAddress = 12, wr_values = [7]\<rparr> ?m"
  have "mq_prefix ?m \<noteq> []" "\<not> endsWithSlash (mq_prefix ?m)" "startsWithSlash (mq_template ?m)" "con_state (mq_con ?m) = Connected"
    "validateMqttTail (defaultTransportConfig\<lparr>tp_topicTemplate := ''/reg/%1''\<rparr>) [] = []" by code_simp+
  moreover have "mq_cache ?m = Map.empty" by (simp add: demoMqtt_def)
  ultimately show ?thesis using mqtt_leading_slash_unreadable[of ?m HoldingRegisters 12 7 "fst ?out" "snd ?out" demoToUInt] by (simp add: noRead_def)
qed

end
