(* ===== verification/Mqtt_Queue.thy ===== *)
theory Mqtt_Queue
  imports Mqtt_Topics "HOL-Library.Multiset"
begin

text \<open>
  Asynchronous writes of the MQTT transports.  Paho (\<open>src/MqttPahoTransport.cpp\<close>) has a bounded queue
  and a worker thread, and its destructor cancels what is queued; Qt (\<open>src/MqttClientTransport.cpp\<close>)
  posts each write to the client's thread and bounds the posted ones with an atomic counter.  A step
  of a model is one critical section or one atomic operation.  Jobs are numbered by their caller.
\<close>

type_synonym Job = "nat \<times> WriteBatch"

subsection \<open>The queue of the Paho transport\<close>

record PahoQueue =
  pq_queue :: "Job list"
  pq_stopping :: bool

definition maxQueuedWrites :: nat where
  "maxQueuedWrites = 1024"

text \<open>\<open>enqueueWrite\<close>: the rejection it calls \<open>done\<close> with, if any.\<close>

definition enqueueWrite :: "Job \<Rightarrow> PahoQueue \<Rightarrow> qstring option \<times> PahoQueue" where
  "enqueueWrite job q =
     (if pq_stopping q then (Some ''Paho MQTT transport is stopping'', q)
      else if maxQueuedWrites \<le> length (pq_queue q) then (Some ''Paho MQTT write queue is full'', q)
      else (None, q\<lparr>pq_queue := pq_queue q @ [job]\<rparr>))"

definition pahoWriteAsync :: "Job \<Rightarrow> Connection \<Rightarrow> PahoQueue \<Rightarrow> WriteResult option \<times> PahoQueue" where
  "pahoWriteAsync job c q =
     (if con_state c \<noteq> Connected then (Some (refusedWrite ''not connected''), q)
      else case enqueueWrite job q of (rejection, q) \<Rightarrow> (map_option refusedWrite rejection, q))"

text \<open>The critical section of \<open>runWriteWorker\<close>, after its wait: the job to perform, unless it returns.\<close>

datatype WorkerMove = WorkerWaits | WorkerReturns | WorkerGets Job

definition workerTake :: "PahoQueue \<Rightarrow> WorkerMove \<times> PahoQueue" where
  "workerTake q =
     (if \<not> pq_stopping q \<and> pq_queue q = [] then (WorkerWaits, q)
      else case pq_queue q of [] \<Rightarrow> (WorkerReturns, q) | job # jobs \<Rightarrow> (WorkerGets job, q\<lparr>pq_queue := jobs\<rparr>))"

text \<open>The critical section of the destructor: the jobs to cancel.\<close>

definition stopWrites :: "PahoQueue \<Rightarrow> Job list \<times> PahoQueue" where
  "stopWrites q = (pq_queue q, q\<lparr>pq_queue := [], pq_stopping := True\<rparr>)"

datatype WorkerPc = WorkerIdle | WorkerBusy Job | WorkerGone

record PahoSystem =
  pas_queue :: PahoQueue
  pas_worker :: WorkerPc
  pas_cancelled :: "Job list"
  pas_done :: "(nat \<times> WriteResult) list"
  pas_submitted :: "nat list"

definition startPaho :: PahoSystem where
  "startPaho = \<lparr>pas_queue = \<lparr>pq_queue = [], pq_stopping = False\<rparr>, pas_worker = WorkerIdle, pas_cancelled = [], pas_done = [], pas_submitted = []\<rparr>"

inductive pahoStep :: "PahoSystem \<Rightarrow> PahoSystem \<Rightarrow> bool" where
  submit: "fst job \<notin> set (pas_submitted x) \<Longrightarrow> pahoWriteAsync job c (pas_queue x) = (answer, q) \<Longrightarrow>
     pahoStep x (x\<lparr>pas_queue := q, pas_submitted := pas_submitted x @ [fst job],
       pas_done := pas_done x @ (case answer of None \<Rightarrow> [] | Some r \<Rightarrow> [(fst job, r)])\<rparr>)"
| get: "pas_worker x = WorkerIdle \<Longrightarrow> workerTake (pas_queue x) = (WorkerGets job, q) \<Longrightarrow>
     pahoStep x (x\<lparr>pas_queue := q, pas_worker := WorkerBusy job\<rparr>)"
| perform: "pas_worker x = WorkerBusy job \<Longrightarrow> performWrite stopping outcome (snd job) m = (msgs, r) \<Longrightarrow>
     pahoStep x (x\<lparr>pas_worker := WorkerIdle, pas_done := pas_done x @ [(fst job, r)]\<rparr>)"
| return: "pas_worker x = WorkerIdle \<Longrightarrow> workerTake (pas_queue x) = (WorkerReturns, q) \<Longrightarrow> pahoStep x (x\<lparr>pas_queue := q, pas_worker := WorkerGone\<rparr>)"
| destroy: "\<not> pq_stopping (pas_queue x) \<Longrightarrow> stopWrites (pas_queue x) = (jobs, q) \<Longrightarrow> pahoStep x (x\<lparr>pas_queue := q, pas_cancelled := jobs\<rparr>)"
| cancel: "pas_cancelled x = job # jobs \<Longrightarrow>
     pahoStep x (x\<lparr>pas_cancelled := jobs, pas_done := pas_done x @ [(fst job, refusedWrite ''Paho MQTT transport is stopping'')]\<rparr>)"

text \<open>The jobs that wait for their answer.\<close>

definition openJobs :: "PahoSystem \<Rightarrow> nat list" where
  "openJobs x = map fst (pq_queue (pas_queue x)) @ (case pas_worker x of WorkerBusy job \<Rightarrow> [fst job] | _ \<Rightarrow> []) @ map fst (pas_cancelled x)"

definition paho_inv :: "PahoSystem \<Rightarrow> bool" where
  "paho_inv x \<longleftrightarrow> mset (map fst (pas_done x)) + mset (openJobs x) = mset (pas_submitted x) \<and> distinct (pas_submitted x)
     \<and> length (pq_queue (pas_queue x)) \<le> maxQueuedWrites \<and> (pq_stopping (pas_queue x) \<longrightarrow> pq_queue (pas_queue x) = [])
     \<and> (\<not> pq_stopping (pas_queue x) \<longrightarrow> pas_cancelled x = [] \<and> pas_worker x \<noteq> WorkerGone)"

lemma pahoStep_inv: "pahoStep x y \<Longrightarrow> paho_inv x \<Longrightarrow> paho_inv y"
proof (induction rule: pahoStep.induct)
  case (submit job x c answer q)
  then show ?case by (auto simp: paho_inv_def openJobs_def pahoWriteAsync_def enqueueWrite_def split: if_splits prod.splits)
next
  case (get x job q)
  then show ?case by (auto simp: paho_inv_def openJobs_def workerTake_def split: if_splits list.splits)
next
  case (perform x job stopping outcome m msgs r)
  then show ?case by (auto simp: paho_inv_def openJobs_def)
next
  case (return x q)
  then show ?case by (auto simp: paho_inv_def openJobs_def workerTake_def split: if_splits list.splits)
next
  case (destroy x jobs q)
  then show ?case by (auto simp: paho_inv_def openJobs_def stopWrites_def ac_simps)
next
  case (cancel x job jobs)
  then show ?case by (auto simp: paho_inv_def openJobs_def)
qed

lemma startPaho_inv: "paho_inv startPaho"
  by (simp add: startPaho_def paho_inv_def openJobs_def)

interpretation paho_queue: transition_system "\<lambda>x. x = startPaho" pahoStep paho_inv
  by unfold_locales (simp_all add: startPaho_inv pahoStep_inv)

text \<open>C40: every asynchronous Paho write is answered once.  However submissions, the worker and the
  destructor interleave, \<open>done\<close> is called at most once for a job, a job that has no answer is queued, being
  performed or about to be cancelled, and the queue holds at most 1024 jobs; when the worker has
  returned and the cancelled jobs are answered, every job that was submitted has its answer.\<close>

theorem paho_answers_once:
  assumes "reach (\<lambda>x. x = startPaho) pahoStep x"
  shows "distinct (map fst (pas_done x)) \<and> set (pas_submitted x) = set (map fst (pas_done x)) \<union> set (openJobs x)
    \<and> set (map fst (pas_done x)) \<inter> set (openJobs x) = {} \<and> length (pq_queue (pas_queue x)) \<le> 1024
    \<and> (pas_worker x = WorkerGone \<and> pas_cancelled x = [] \<longrightarrow> mset (map fst (pas_done x)) = mset (pas_submitted x))"
proof -
  note inv = paho_queue.reach_inv[OF assms, unfolded paho_inv_def]
  have perm: "mset (map fst (pas_done x) @ openJobs x) = mset (pas_submitted x)" using inv by simp
  then have "distinct (map fst (pas_done x) @ openJobs x)" using inv by (metis mset_eq_imp_distinct_iff)
  moreover have "set (map fst (pas_done x) @ openJobs x) = set (pas_submitted x)" using perm by (rule mset_eq_setD)
  moreover have "openJobs x = []" if "pas_worker x = WorkerGone \<and> pas_cancelled x = []" using that inv by (auto simp: openJobs_def)
  ultimately show ?thesis using inv perm by (auto simp: maxQueuedWrites_def)
qed

text \<open>The run of the witness: two writes are submitted, the worker takes the first, the transport is
  destroyed, the second is cancelled, the worker answers the first and returns.\<close>

definition demoJob :: "nat \<Rightarrow> Job" where
  "demoJob n = (n, \<lparr>wr_table = HoldingRegisters, wr_startAddress = int n, wr_values = [7]\<rparr>)"

definition onlineMqtt :: MqttTransport where
  "onlineMqtt = demoMqtt ''plc'' ''r/%1''"

definition pahoAt :: "nat list \<Rightarrow> bool \<Rightarrow> WorkerPc \<Rightarrow> nat list \<Rightarrow> (nat \<times> WriteResult) list \<Rightarrow> nat list \<Rightarrow> PahoSystem" where
  "pahoAt ns b w cs ds ss = \<lparr>pas_queue = \<lparr>pq_queue = map demoJob ns, pq_stopping = b\<rparr>, pas_worker = w,
     pas_cancelled = map demoJob cs, pas_done = ds, pas_submitted = ss\<rparr>"

definition pahoEnd :: PahoSystem where
  "pahoEnd = pahoAt [] True WorkerGone [] [(1, refusedWrite ''Paho MQTT transport is stopping''), (0, acceptedWrite)] [0, 1]"

lemma paho_submit:
  "n \<notin> set ss \<Longrightarrow> length ns < 1024 \<Longrightarrow> pahoStep (pahoAt ns False w cs ds ss) (pahoAt (ns @ [n]) False w cs ds (ss @ [n]))"
  using pahoStep.submit[of "demoJob n" "pahoAt ns False w cs ds ss" "mq_con onlineMqtt" None "\<lparr>pq_queue = map demoJob (ns @ [n]), pq_stopping = False\<rparr>"]
  by (simp add: demoJob_def onlineMqtt_def demoMqtt_def pahoWriteAsync_def enqueueWrite_def pahoAt_def maxQueuedWrites_def)

lemma paho_get: "pahoStep (pahoAt (n # ns) b WorkerIdle cs ds ss) (pahoAt ns b (WorkerBusy (demoJob n)) cs ds ss)"
  using pahoStep.get[of "pahoAt (n # ns) b WorkerIdle cs ds ss" "demoJob n" "\<lparr>pq_queue = map demoJob ns, pq_stopping = b\<rparr>"]
  by (simp add: workerTake_def pahoAt_def)

lemma paho_destroy: "pahoStep (pahoAt ns False w [] ds ss) (pahoAt [] True w ns ds ss)"
  using pahoStep.destroy[of "pahoAt ns False w [] ds ss" "map demoJob ns" "\<lparr>pq_queue = [], pq_stopping = True\<rparr>"]
  by (simp add: stopWrites_def pahoAt_def)

lemma paho_cancel: "pahoStep (pahoAt ns b w (n # cs) ds ss) (pahoAt ns b w cs (ds @ [(n, refusedWrite ''Paho MQTT transport is stopping'')]) ss)"
  using pahoStep.cancel[of "pahoAt ns b w (n # cs) ds ss" "demoJob n" "map demoJob cs"] by (simp add: pahoAt_def demoJob_def)

lemma paho_perform: "pahoStep (pahoAt ns b (WorkerBusy (demoJob n)) cs ds ss) (pahoAt ns b WorkerIdle cs (ds @ [(n, acceptedWrite)]) ss)"
  using pahoStep.perform[of "pahoAt ns b (WorkerBusy (demoJob n)) cs ds ss" "demoJob n" "\<lambda>_. False" "\<lambda>_. PahoDelivered" onlineMqtt]
  by (simp add: pahoAt_def performWrite_def onlineMqtt_def demoMqtt_def demoJob_def)

lemma paho_return: "pahoStep (pahoAt [] True WorkerIdle cs ds ss) (pahoAt [] True WorkerGone cs ds ss)"
  using pahoStep.return[of "pahoAt [] True WorkerIdle cs ds ss" "\<lparr>pq_queue = [], pq_stopping = True\<rparr>"] by (simp add: pahoAt_def workerTake_def)

lemma pahoEnd_reached: "reach (\<lambda>x. x = startPaho) pahoStep pahoEnd"
proof -
  let ?stopped = "(1::nat, refusedWrite ''Paho MQTT transport is stopping'')"
  have s0: "reach (\<lambda>x. x = startPaho) pahoStep (pahoAt [] False WorkerIdle [] [] [])" by (rule reach_init) (simp add: pahoAt_def startPaho_def)
  have s1: "pahoStep (pahoAt [] False WorkerIdle [] [] []) (pahoAt [0] False WorkerIdle [] [] [0])" using paho_submit[of 0 "[]" "[]"] by simp
  have s2: "pahoStep (pahoAt [0] False WorkerIdle [] [] [0]) (pahoAt [0, 1] False WorkerIdle [] [] [0, 1])" using paho_submit[of 1 "[0]" "[0]"] by simp
  have s3: "pahoStep (pahoAt [0, 1] False WorkerIdle [] [] [0, 1]) (pahoAt [1] False (WorkerBusy (demoJob 0)) [] [] [0, 1])" by (rule paho_get)
  have s4: "pahoStep (pahoAt [1] False (WorkerBusy (demoJob 0)) [] [] [0, 1]) (pahoAt [] True (WorkerBusy (demoJob 0)) [1] [] [0, 1])" by (rule paho_destroy)
  have s5: "pahoStep (pahoAt [] True (WorkerBusy (demoJob 0)) [1] [] [0, 1]) (pahoAt [] True (WorkerBusy (demoJob 0)) [] [?stopped] [0, 1])"
    using paho_cancel[of "[]" True _ 1 "[]" "[]"] by simp
  have s6: "pahoStep (pahoAt [] True (WorkerBusy (demoJob 0)) [] [?stopped] [0, 1]) (pahoAt [] True WorkerIdle [] [?stopped, (0, acceptedWrite)] [0, 1])"
    using paho_perform[of "[]" True 0 "[]" "[?stopped]"] by simp
  have s7: "pahoStep (pahoAt [] True WorkerIdle [] [?stopped, (0, acceptedWrite)] [0, 1]) pahoEnd"
    unfolding pahoEnd_def by (rule paho_return)
  note extend = reach_step[where init = "\<lambda>x. x = startPaho" and step = pahoStep]
  note r3 = extend[OF extend[OF extend[OF s0 s1] s2] s3]
  note r6 = extend[OF extend[OF extend[OF r3 s4] s5] s6]
  show ?thesis by (rule extend[OF r6 s7])
qed

theorem paho_answers_once_witness:
  "distinct (map fst (pas_done pahoEnd)) \<and> length (pas_done pahoEnd) = 2 \<and> mset (map fst (pas_done pahoEnd)) = {#0, 1#}"
  using paho_answers_once[OF pahoEnd_reached] by (simp add: pahoEnd_def pahoAt_def)

subsection \<open>The counter of the Qt client\<close>

text \<open>
  \<open>writeAsync\<close> runs on the callers' threads: it answers at once when it is not connected or
  stopping, otherwise it increments the counter and decides by the value it has read (\<open>qt_entering\<close>
  holds the calls between the two).  The lambda it posts runs on the client's thread, in the order posted.
\<close>

record QtQueue =
  qt_counter :: int
  qt_stopping :: bool
  qt_entering :: "(Job \<times> int) list"
  qt_posted :: "Job list"
  qt_done :: "(nat \<times> WriteResult) list"
  qt_submitted :: "nat list"

definition startQt :: QtQueue where
  "startQt = \<lparr>qt_counter = 0, qt_stopping = False, qt_entering = [], qt_posted = [], qt_done = [], qt_submitted = []\<rparr>"

definition qtWriteRefusal :: "Connection \<Rightarrow> QtQueue \<Rightarrow> qstring option" where
  "qtWriteRefusal c q = (if con_state c \<noteq> Connected then Some ''not connected'' else if qt_stopping q then Some ''MQTT transport is stopping'' else None)"

definition qtAnswer :: "Job \<Rightarrow> WriteResult \<Rightarrow> QtQueue \<Rightarrow> QtQueue" where
  "qtAnswer job r q = q\<lparr>qt_done := qt_done q @ [(fst job, r)]\<rparr>"

definition qtEnter :: "Job \<Rightarrow> QtQueue \<Rightarrow> QtQueue" where
  "qtEnter job q = q\<lparr>qt_counter := qt_counter q + 1, qt_entering := qt_entering q @ [(job, qt_counter q)], qt_submitted := qt_submitted q @ [fst job]\<rparr>"

definition qtAdmits :: "int \<Rightarrow> bool" where
  "qtAdmits queued \<longleftrightarrow> queued < int maxQueuedWrites"

definition qtDecide :: "Job \<times> int \<Rightarrow> QtQueue \<Rightarrow> QtQueue" where
  "qtDecide call q =
     (let q = q\<lparr>qt_entering := remove1 call (qt_entering q)\<rparr>
      in if qtAdmits (snd call) then q\<lparr>qt_posted := qt_posted q @ [fst call]\<rparr>
         else qtAnswer (fst call) (refusedWrite ''MQTT write queue is full'') (q\<lparr>qt_counter := qt_counter q - 1\<rparr>))"

definition qtRunPosted :: "(qstring \<times> qstring \<Rightarrow> bool) \<Rightarrow> MqttTransport \<Rightarrow> QtQueue \<Rightarrow> (qstring \<times> qstring) list \<times> QtQueue" where
  "qtRunPosted accepts m q =
     (case qt_posted q of [] \<Rightarrow> ([], q)
      | job # jobs \<Rightarrow>
          let q = q\<lparr>qt_posted := jobs, qt_counter := qt_counter q - 1\<rparr>
          in if qt_stopping q then ([], qtAnswer job (refusedWrite ''MQTT transport is stopping'') q)
             else case mqttPublish accepts m (wr_startAddress (snd job)) (wr_values (snd job)) of (msgs, r) \<Rightarrow> (msgs, qtAnswer job r q))"

inductive qtStep :: "QtQueue \<Rightarrow> QtQueue \<Rightarrow> bool" where
  refuse: "fst job \<notin> set (qt_submitted q) \<Longrightarrow> qtWriteRefusal c q = Some e \<Longrightarrow>
     qtStep q (qtAnswer job (refusedWrite e) (q\<lparr>qt_submitted := qt_submitted q @ [fst job]\<rparr>))"
| enter: "fst job \<notin> set (qt_submitted q) \<Longrightarrow> qtWriteRefusal c q = None \<Longrightarrow> qtStep q (qtEnter job q)"
| decide: "call \<in> set (qt_entering q) \<Longrightarrow> qtStep q (qtDecide call q)"
| run: "qt_posted q \<noteq> [] \<Longrightarrow> qtStep q (snd (qtRunPosted accepts m q))"
| stop: "qtStep q (q\<lparr>qt_stopping := True\<rparr>)"

definition qtAdmitted :: "QtQueue \<Rightarrow> nat" where
  "qtAdmitted q = length (qt_posted q) + length (List.filter (\<lambda>call. qtAdmits (snd call)) (qt_entering q))"

definition qtOpen :: "QtQueue \<Rightarrow> nat multiset" where
  "qtOpen q = image_mset fst (mset (qt_posted q)) + image_mset (fst \<circ> fst) (mset (qt_entering q))"

definition qt_inv :: "QtQueue \<Rightarrow> bool" where
  "qt_inv q \<longleftrightarrow> qt_counter q = int (length (qt_posted q) + length (qt_entering q)) \<and> qtAdmitted q \<le> maxQueuedWrites
     \<and> image_mset fst (mset (qt_done q)) + qtOpen q = mset (qt_submitted q) \<and> distinct (qt_submitted q)"

lemma remove1_call:
  assumes "call \<in> set calls"
  obtains rest where "remove1 call calls = rest" "length calls = Suc (length rest)" "mset calls = add_mset call (mset rest)"
    "length (List.filter P calls) = length (List.filter P rest) + (if P call then 1 else 0)"
proof -
  obtain us vs where "calls = us @ call # vs" "call \<notin> set us" using assms by (meson split_list_first)
  then show thesis using that[of "us @ vs"] by (simp add: remove1_append)
qed

lemma qtStep_inv: "qtStep q q' \<Longrightarrow> qt_inv q \<Longrightarrow> qt_inv q'"
proof (induction rule: qtStep.induct)
  case (refuse job q c e)
  then show ?case by (auto simp: qt_inv_def qtAnswer_def qtAdmitted_def qtOpen_def)
next
  case (enter job q c)
  have "length (List.filter (\<lambda>call. qtAdmits (snd call)) (qt_entering q)) \<le> length (qt_entering q)" by (rule length_filter_le)
  with enter have "qtAdmitted (qtEnter job q) \<le> maxQueuedWrites"
    unfolding qt_inv_def qtEnter_def qtAdmitted_def by (cases "qtAdmits (qt_counter q)") (simp_all add: qtAdmits_def del: length_filter_le)
  with enter show ?case by (auto simp: qt_inv_def qtEnter_def qtOpen_def)
next
  case (decide call q)
  obtain rest where rest: "remove1 call (qt_entering q) = rest" "length (qt_entering q) = Suc (length rest)" "mset (qt_entering q) = add_mset call (mset rest)"
    "length (List.filter (\<lambda>call. qtAdmits (snd call)) (qt_entering q)) = length (List.filter (\<lambda>call. qtAdmits (snd call)) rest) + (if qtAdmits (snd call) then 1 else 0)"
    using remove1_call[OF decide(1), of "\<lambda>call. qtAdmits (snd call)"] by blast
  from decide show ?case
    by (cases "qtAdmits (snd call)") (simp_all add: qt_inv_def qtDecide_def qtAnswer_def qtAdmitted_def qtOpen_def rest)
next
  case (run q accepts m)
  then show ?case
    by (cases "qt_posted q") (auto simp: qt_inv_def qtRunPosted_def qtAnswer_def qtAdmitted_def qtOpen_def Let_def split: prod.splits)
next
  case (stop q)
  then show ?case by (auto simp: qt_inv_def qtAdmitted_def qtOpen_def)
qed

lemma startQt_inv: "qt_inv startQt"
  by (simp add: startQt_def qt_inv_def qtAdmitted_def qtOpen_def)

interpretation qt_queue: transition_system "\<lambda>q. q = startQt" qtStep qt_inv
  by unfold_locales (simp_all add: startQt_inv qtStep_inv)

text \<open>
  The counter bounds the posted lambdas although the test and the increment are one atomic
  operation and the posting another: at most 1024 are posted, and every write that was submitted is
  answered exactly once as soon as nothing is posted and no call is under way.
\<close>

theorem qt_writes_bounded:
  assumes "reach (\<lambda>q. q = startQt) qtStep q"
  shows "length (qt_posted q) \<le> 1024" and "distinct (map fst (qt_done q))"
    and "qt_posted q = [] \<Longrightarrow> qt_entering q = [] \<Longrightarrow> qt_counter q = 0 \<and> mset (map fst (qt_done q)) = mset (qt_submitted q)"
proof -
  note inv = qt_queue.reach_inv[OF assms, unfolded qt_inv_def]
  show "length (qt_posted q) \<le> 1024" using inv by (auto simp: qtAdmitted_def maxQueuedWrites_def)
  obtain waiting where "mset waiting = qtOpen q" using ex_mset by blast
  then have "mset (map fst (qt_done q) @ waiting) = mset (qt_submitted q)" using inv by simp
  then have "distinct (map fst (qt_done q) @ waiting)" using inv by (metis mset_eq_imp_distinct_iff)
  then show "distinct (map fst (qt_done q))" by simp
  show "qt_counter q = 0 \<and> mset (map fst (qt_done q)) = mset (qt_submitted q)" if "qt_posted q = []" "qt_entering q = []"
    using inv that by (simp add: qtOpen_def)
qed

end
