(* ===== verification/Opcua_Transport.thy ===== *)
theory Opcua_Transport
  imports Mqtt_Topics
begin

text \<open>
  The OPC UA client transport (\<open>src/OpcUaClientTransport.cpp\<close>).  One request reads or writes one node
  per register: the synchronous calls wait for each node in turn, the asynchronous ones chain the
  nodes on the client's thread under one safety timeout.  The OPC UA client is outside: what becomes of
  the request for the \<open>i\<close>-th node is an argument.
\<close>

subsection \<open>Connection\<close>

record OpcTransport =
  opc_backend :: qstring
  opc_template :: qstring
  opc_client :: bool
  opc_con :: Connection

datatype OpcClientState = OpcDisconnected | OpcConnecting | OpcConnected | OpcClosing

definition opcDeviceState :: "OpcClientState \<Rightarrow> QModbusState" where
  "opcDeviceState s = (case s of OpcDisconnected \<Rightarrow> UnconnectedState | OpcConnecting \<Rightarrow> ConnectingState
     | OpcConnected \<Rightarrow> ConnectedState | OpcClosing \<Rightarrow> ClosingState)"

text \<open>The constructor: \<open>created\<close> tells whether the provider has made a client.\<close>

definition newOpcTransport :: "bool \<Rightarrow> int \<Rightarrow> OpcTransport \<Rightarrow> OpcTransport" where
  "newOpcTransport created now o' =
     (if created then o'\<lparr>opc_client := True\<rparr>
      else let message = qarg ''provider failed to create '%1' backend'' (opc_backend o')
           in o'\<lparr>opc_client := False, opc_con := publishStatus now (ConnError, message)
                ((opc_con o')\<lparr>con_lastError := message, con_state := ConnError\<rparr>)\<rparr>)"

definition opcStateChanged :: "OpcClientState \<Rightarrow> OpcTransport \<Rightarrow> StatusUpdate \<times> OpcTransport" where
  "opcStateChanged s o' = (let (u, c) = deviceStateChanged (opcDeviceState s) (opc_con o') in (u, o'\<lparr>opc_con := c\<rparr>))"

definition opcErrorChanged :: "int \<Rightarrow> OpcTransport \<Rightarrow> StatusUpdate option \<times> OpcTransport" where
  "opcErrorChanged e o' =
     (if e = 0 then (None, o')
      else let (u, c) = deviceFailed (qarg ''OPC UA error %1'' (show_int e)) (opc_con o') in (u, o'\<lparr>opc_con := c\<rparr>))"

definition opcConnectBegin :: "bool \<Rightarrow> OpcTransport \<Rightarrow> (qstring + unit) option \<times> StatusUpdate option \<times> OpcTransport" where
  "opcConnectBegin onWorker o' =
     (let refusal = (if \<not> opc_client o' then Some (orElse (con_lastError (opc_con o')) ''OPC UA backend not initialised'')
                     else if onWorker then Some ''connect() cannot block the OPC UA worker thread'' else None);
          (result, u, c) = connectBegin refusal (opc_con o')
      in (result, u, o'\<lparr>opc_con := c\<rparr>))"

definition opcConnectPoll :: "OpcTransport \<Rightarrow> (qstring + unit) option \<times> StatusUpdate option \<times> OpcTransport" where
  "opcConnectPoll o' = (let (result, u, c) = connectPoll (opc_con o') in (result, u, o'\<lparr>opc_con := c\<rparr>))"

text \<open>At the time-out, \<open>error\<close> is the last error before the client is told to disconnect.\<close>

definition opcConnectTimedOut :: "qstring \<Rightarrow> OpcTransport \<Rightarrow> (qstring + unit) \<times> StatusUpdate \<times> OpcTransport" where
  "opcConnectTimedOut error o' =
     (let message = orElse error ''OPC UA connect timeout''
      in (Inl message, (ConnError, message), o'\<lparr>opc_con := (armReconnectIfConfigured (opc_con o'))\<lparr>con_state := ConnError\<rparr>\<rparr>))"

definition opcDisconnectBegin :: "OpcTransport \<Rightarrow> OpcTransport" where
  "opcDisconnectBegin o' = (if opc_client o' then o'\<lparr>opc_con := disconnectBegin (opc_con o')\<rparr> else o')"

definition opcDisconnectEnd :: "OpcTransport \<Rightarrow> StatusUpdate option \<times> OpcTransport" where
  "opcDisconnectEnd o' =
     (if opc_client o' then let (u, c) = disconnectEnd (opc_con o') in (Some u, o'\<lparr>opc_con := c\<rparr>) else (None, o'))"

definition opcReconnectTick :: "bool \<Rightarrow> OpcClientState \<Rightarrow> OpcTransport \<Rightarrow> ReconnectAction" where
  "opcReconnectTick stopping actual o' =
     (if stopping \<or> \<not> reconnects (opc_con o') then NoAction
      else case actual of OpcDisconnected \<Rightarrow> ConnectToHost | OpcConnected \<Rightarrow> DisconnectFromHost | _ \<Rightarrow> NoAction)"

subsection \<open>Synchronous requests\<close>

text \<open>
  What becomes of a request for a node: the client has no such node, refuses the request, signals
  the result (the value as unsigned integer, if there is one; whether the status is good), or does not signal in time.
\<close>

datatype 'a NodeOutcome = NoNode | NotIssued | Signalled 'a | Silent

definition nodeIdFor :: "OpcTransport \<Rightarrow> int \<Rightarrow> qstring" where
  "nodeIdFor o' a = qarg (opc_template o') (show_int a)"

definition opcRefusal :: "bool \<Rightarrow> qstring \<Rightarrow> OpcTransport \<Rightarrow> qstring option" where
  "opcRefusal onWorker what o' =
     (if opc_client o' \<and> onWorker then Some (''synchronous '' @ what @ '' cannot run on the OPC UA worker thread'')
      else if con_state (opc_con o') \<noteq> Connected then Some ''not connected'' else None)"

fun opcReadLoop :: "OpcTransport \<Rightarrow> (nat \<Rightarrow> u32 option NodeOutcome) \<Rightarrow> int \<Rightarrow> nat \<Rightarrow> nat \<Rightarrow> qstring + u16 list" where
  "opcReadLoop o' node start i 0 = Inr []"
| "opcReadLoop o' node start i (Suc n) =
     (case node i of
        Silent \<Rightarrow> Inl (qarg ''OPC UA read timeout @ %1'' (nodeIdFor o' (start + int i)))
      | Signalled (Some v) \<Rightarrow> map_sum id ((#) (ucast v)) (opcReadLoop o' node start (Suc i) n)
      | _ \<Rightarrow> Inl (qarg ''OPC UA read failed @ %1'' (nodeIdFor o' (start + int i))))"

definition okRead :: "int \<Rightarrow> u16 list \<Rightarrow> ReadResult" where
  "okRead start vs = \<lparr>rr_ok = True, rr_values = vs, rr_startAddress = start, rr_errorMessage = []\<rparr>"

definition opcRead :: "bool \<Rightarrow> (nat \<Rightarrow> u32 option NodeOutcome) \<Rightarrow> ReadRequest \<Rightarrow> OpcTransport \<Rightarrow> ReadResult" where
  "opcRead onWorker node req o' =
     (case opcRefusal onWorker ''read'' o' of
        Some e \<Rightarrow> noRead (rd_startAddress req) e
      | None \<Rightarrow>
          (case opcReadLoop o' node (rd_startAddress req) 0 (nat (rd_count req)) of
             Inl e \<Rightarrow> noRead (rd_startAddress req) e
           | Inr vs \<Rightarrow> okRead (rd_startAddress req) vs))"

text \<open>The nodes a write was asked of, with the values, and the result.\<close>

fun opcWriteLoop :: "OpcTransport \<Rightarrow> (nat \<Rightarrow> bool NodeOutcome) \<Rightarrow> int \<Rightarrow> nat \<Rightarrow> u16 list \<Rightarrow> (qstring \<times> u16) list \<times> WriteResult" where
  "opcWriteLoop o' node start i [] = ([], acceptedWrite)"
| "opcWriteLoop o' node start i (v # vs) =
     (let nodeId = nodeIdFor o' (start + int i) in
      case node i of
        Silent \<Rightarrow> ([(nodeId, v)], refusedWrite (qarg ''OPC UA write timeout @ %1'' nodeId))
      | Signalled True \<Rightarrow> apfst ((#) (nodeId, v)) (opcWriteLoop o' node start (Suc i) vs)
      | Signalled False \<Rightarrow> ([(nodeId, v)], refusedWrite (qarg ''OPC UA write rejected @ %1'' nodeId))
      | _ \<Rightarrow> ([], refusedWrite (qarg ''OPC UA write rejected @ %1'' nodeId)))"

definition opcWriteBatch :: "bool \<Rightarrow> (nat \<Rightarrow> bool NodeOutcome) \<Rightarrow> WriteBatch \<Rightarrow> OpcTransport \<Rightarrow> (qstring \<times> u16) list \<times> WriteResult" where
  "opcWriteBatch onWorker node b o' =
     (case opcRefusal onWorker ''write'' o' of
        Some e \<Rightarrow> ([], refusedWrite e)
      | None \<Rightarrow> opcWriteLoop o' node (wr_startAddress b) 0 (wr_values b))"

subsection \<open>Asynchronous requests\<close>

text \<open>
  The state of a chain, read or write: \<open>ch_posted\<close> before its lambda has run, \<open>ch_waiting\<close> while a node is to
  signal, \<open>ch_timer\<close> while the safety timer runs, \<open>ch_asked\<close> the writes put to the client, \<open>ch_done\<close> the results \<open>done\<close> was called with.
\<close>

record 'r Chain =
  ch_i :: nat
  ch_out :: "u16 list"
  ch_completed :: bool
  ch_posted :: bool
  ch_waiting :: bool
  ch_timer :: bool
  ch_asked :: "(qstring \<times> u16) list"
  ch_done :: "'r list"

definition finishChain :: "'r \<Rightarrow> 'r Chain \<Rightarrow> 'r Chain" where
  "finishChain r ch = ch\<lparr>ch_completed := True, ch_done := ch_done ch @ [r]\<rparr>"

text \<open>\<open>step\<close> of \<open>readAsync\<close>.\<close>

definition readStep :: "OpcTransport \<Rightarrow> (nat \<Rightarrow> u32 option NodeOutcome) \<Rightarrow> ReadRequest \<Rightarrow> ReadResult Chain \<Rightarrow> ReadResult Chain" where
  "readStep o' node req ch =
     (let start = rd_startAddress req in
      if ch_completed ch then ch
      else if rd_count req \<le> int (ch_i ch) then finishChain (okRead start (ch_out ch)) ch
      else case node (ch_i ch) of
             NoNode \<Rightarrow> finishChain (noRead start (qarg ''OPC UA bad node %1'' (nodeIdFor o' (start + int (ch_i ch))))) ch
           | NotIssued \<Rightarrow> finishChain (noRead start ''OPC UA readAttributes failed'') ch
           | _ \<Rightarrow> ch\<lparr>ch_waiting := True\<rparr>)"

definition readSignal :: "OpcTransport \<Rightarrow> (nat \<Rightarrow> u32 option NodeOutcome) \<Rightarrow> ReadRequest \<Rightarrow> u32 option \<Rightarrow> ReadResult Chain \<Rightarrow> ReadResult Chain" where
  "readSignal o' node req v ch =
     (let ch = ch\<lparr>ch_waiting := False\<rparr> in
      if ch_completed ch then ch
      else case v of
             None \<Rightarrow> finishChain (noRead (rd_startAddress req) ''OPC UA read failed'') ch
           | Some v \<Rightarrow> readStep o' node req (ch\<lparr>ch_out := ch_out ch @ [ucast v], ch_i := Suc (ch_i ch)\<rparr>))"

text \<open>\<open>step\<close> of \<open>writeAsync\<close>.\<close>

definition writeStep :: "OpcTransport \<Rightarrow> (nat \<Rightarrow> bool NodeOutcome) \<Rightarrow> WriteBatch \<Rightarrow> WriteResult Chain \<Rightarrow> WriteResult Chain" where
  "writeStep o' node b ch =
     (let nodeId = nodeIdFor o' (wr_startAddress b + int (ch_i ch)) in
      if ch_completed ch then ch
      else if length (wr_values b) \<le> ch_i ch then finishChain acceptedWrite ch
      else case node (ch_i ch) of
             NoNode \<Rightarrow> finishChain (refusedWrite (qarg ''OPC UA bad node %1'' nodeId)) ch
           | NotIssued \<Rightarrow> finishChain (refusedWrite ''OPC UA writeAttribute failed'') ch
           | _ \<Rightarrow> ch\<lparr>ch_waiting := True, ch_asked := ch_asked ch @ [(nodeId, wr_values b ! ch_i ch)]\<rparr>)"

definition writeSignal :: "OpcTransport \<Rightarrow> (nat \<Rightarrow> bool NodeOutcome) \<Rightarrow> WriteBatch \<Rightarrow> bool \<Rightarrow> WriteResult Chain \<Rightarrow> WriteResult Chain" where
  "writeSignal o' node b good ch =
     (let ch = ch\<lparr>ch_waiting := False\<rparr> in
      if ch_completed ch then ch
      else if \<not> good then finishChain (refusedWrite ''OPC UA write rejected'') ch
      else writeStep o' node b (ch\<lparr>ch_i := Suc (ch_i ch)\<rparr>))"

definition newChain :: "'r Chain" where
  "newChain = \<lparr>ch_i = 0, ch_out = [], ch_completed = False, ch_posted = True, ch_waiting = False, ch_timer = False, ch_asked = [], ch_done = []\<rparr>"

text \<open>The call itself: it answers at once, or posts the chain.\<close>

definition opcReadAsync :: "ReadRequest \<Rightarrow> OpcTransport \<Rightarrow> ReadResult Chain" where
  "opcReadAsync req o' =
     (if con_state (opc_con o') \<noteq> Connected
      then (finishChain (noRead (rd_startAddress req) ''not connected'') newChain)\<lparr>ch_posted := False\<rparr> else newChain)"

definition opcWriteAsync :: "OpcTransport \<Rightarrow> WriteResult Chain" where
  "opcWriteAsync o' =
     (if con_state (opc_con o') \<noteq> Connected then (finishChain (refusedWrite ''not connected'') newChain)\<lparr>ch_posted := False\<rparr> else newChain)"

text \<open>What happens to a chain on the client's thread, if it can happen.\<close>

datatype 'a ChainEvent = ChainStarts | NodeSignals 'a | SafetyTimeout

definition safetyTimeout :: "'r \<Rightarrow> 'r Chain \<Rightarrow> 'r Chain" where
  "safetyTimeout r ch = (let ch = ch\<lparr>ch_timer := False\<rparr> in if ch_completed ch then ch else finishChain r ch)"

definition chainEvent :: "('r Chain \<Rightarrow> 'r Chain) \<Rightarrow> ('a \<Rightarrow> 'r Chain \<Rightarrow> 'r Chain) \<Rightarrow> 'r \<Rightarrow> 'a ChainEvent \<Rightarrow> 'r Chain \<Rightarrow> 'r Chain option" where
  "chainEvent step signal late ev ch = (case ev of
     ChainStarts \<Rightarrow> if ch_posted ch then Some (step (ch\<lparr>ch_posted := False, ch_timer := True\<rparr>)) else None
   | NodeSignals v \<Rightarrow> if ch_waiting ch then Some (signal v ch) else None
   | SafetyTimeout \<Rightarrow> if ch_timer ch then Some (safetyTimeout late ch) else None)"

definition readEvent :: "OpcTransport \<Rightarrow> (nat \<Rightarrow> u32 option NodeOutcome) \<Rightarrow> ReadRequest \<Rightarrow> u32 option ChainEvent \<Rightarrow> ReadResult Chain \<Rightarrow> ReadResult Chain option" where
  "readEvent o' node req = chainEvent (readStep o' node req) (readSignal o' node req) (noRead (rd_startAddress req) ''OPC UA read timeout'')"

definition writeEvent :: "OpcTransport \<Rightarrow> (nat \<Rightarrow> bool NodeOutcome) \<Rightarrow> WriteBatch \<Rightarrow> bool ChainEvent \<Rightarrow> WriteResult Chain \<Rightarrow> WriteResult Chain option" where
  "writeEvent o' node b = chainEvent (writeStep o' node b) (writeSignal o' node b) (refusedWrite ''OPC UA write timeout'')"

fun chainRun :: "('e \<Rightarrow> 'c \<Rightarrow> 'c option) \<Rightarrow> 'e list \<Rightarrow> 'c \<Rightarrow> 'c option" where
  "chainRun event [] ch = Some ch"
| "chainRun event (e # es) ch = (case event e ch of None \<Rightarrow> None | Some ch' \<Rightarrow> chainRun event es ch')"

subsection \<open>The contract of a chain\<close>

text \<open>An open chain has not answered and waits for a node; a closed one has answered once.\<close>

definition goesOn :: "'r Chain \<Rightarrow> 'r Chain \<Rightarrow> bool" where
  "goesOn ch ch' \<longleftrightarrow> ch_timer ch' = ch_timer ch \<and> ch_posted ch' = ch_posted ch \<and>
     (if ch_completed ch' then \<exists>r. ch_done ch' = [r] else ch_done ch' = [] \<and> ch_waiting ch')"

definition chain_inv :: "'r Chain \<Rightarrow> bool" where
  "chain_inv ch \<longleftrightarrow> (if ch_completed ch then \<not> ch_posted ch \<and> (\<exists>r. ch_done ch = [r])
     else ch_done ch = [] \<and> (if ch_posted ch then \<not> ch_timer ch \<and> \<not> ch_waiting ch else ch_timer ch \<and> ch_waiting ch))"

locale chained_request =
  fixes step :: "'r Chain \<Rightarrow> 'r Chain" and signal :: "'a \<Rightarrow> 'r Chain \<Rightarrow> 'r Chain" and late :: 'r
  assumes step_goes_on: "\<not> ch_completed ch \<Longrightarrow> ch_done ch = [] \<Longrightarrow> goesOn ch (step ch)"
    and signal_goes_on: "\<not> ch_completed ch \<Longrightarrow> ch_done ch = [] \<Longrightarrow> goesOn ch (signal v ch)"
    and signal_late: "ch_completed ch \<Longrightarrow> signal v ch = ch\<lparr>ch_waiting := False\<rparr>"
begin

lemma event_inv:
  assumes "chain_inv ch" "chainEvent step signal late ev ch = Some ch'"
  shows "chain_inv ch'"
proof (cases ev)
  case ChainStarts
  then have "ch_posted ch" "ch' = step (ch\<lparr>ch_posted := False, ch_timer := True\<rparr>)" using assms(2) by (auto simp: chainEvent_def split: if_splits)
  moreover from this have "goesOn (ch\<lparr>ch_posted := False, ch_timer := True\<rparr>) ch'" using assms(1) by (auto simp: chain_inv_def split: if_splits intro!: step_goes_on)
  ultimately show ?thesis by (auto simp: chain_inv_def goesOn_def split: if_splits)
next
  case (NodeSignals v)
  then have ch': "ch_waiting ch" "ch' = signal v ch" using assms(2) by (auto simp: chainEvent_def split: if_splits)
  show ?thesis
  proof (cases "ch_completed ch")
    case True
    then show ?thesis using assms(1) ch' by (simp add: signal_late chain_inv_def)
  next
    case False
    then have "goesOn ch ch'" using assms(1) ch' by (auto simp: chain_inv_def intro!: signal_goes_on)
    then show ?thesis using assms(1) False ch'(1) by (auto simp: chain_inv_def goesOn_def split: if_splits)
  qed
next
  case SafetyTimeout
  then show ?thesis using assms by (auto simp: chainEvent_def safetyTimeout_def chain_inv_def finishChain_def Let_def split: if_splits)
qed

lemma run_chain_inv: "chain_inv ch \<Longrightarrow> chainRun (chainEvent step signal late) evs ch = Some ch' \<Longrightarrow> chain_inv ch'"
  by (induction evs arbitrary: ch) (auto split: option.splits dest: event_inv)

lemma answered_once:
  assumes "chain_inv ch" "chainRun (chainEvent step signal late) evs ch = Some ch'"
  shows "length (ch_done ch') \<le> 1"
    and "ch_done ch' = [] \<Longrightarrow> ch_posted ch' \<or> ch_timer ch' \<and> ch_waiting ch'"
    and "chainEvent step signal late SafetyTimeout ch' = Some ch'' \<Longrightarrow> length (ch_done ch'') = 1"
proof -
  have inv: "chain_inv ch'" using assms by (rule run_chain_inv)
  then show "length (ch_done ch') \<le> 1" and "ch_done ch' = [] \<Longrightarrow> ch_posted ch' \<or> ch_timer ch' \<and> ch_waiting ch'"
    by (auto simp: chain_inv_def split: if_splits)
  show "length (ch_done ch'') = 1" if "chainEvent step signal late SafetyTimeout ch' = Some ch''"
    using inv that by (auto simp: chain_inv_def chainEvent_def safetyTimeout_def finishChain_def Let_def split: if_splits)
qed

end

lemma newChain_inv [simp]: "chain_inv newChain"
  by (simp add: chain_inv_def newChain_def)

lemma async_inv [simp]: "chain_inv (opcReadAsync req o')" "chain_inv (opcWriteAsync o')"
  by (simp_all add: opcReadAsync_def opcWriteAsync_def chain_inv_def finishChain_def newChain_def)

lemma readStep_goes_on: "\<not> ch_completed ch \<Longrightarrow> ch_done ch = [] \<Longrightarrow> goesOn ch (readStep o' node req ch)"
  by (auto simp: readStep_def goesOn_def finishChain_def Let_def split: NodeOutcome.splits)

lemma writeStep_goes_on: "\<not> ch_completed ch \<Longrightarrow> ch_done ch = [] \<Longrightarrow> goesOn ch (writeStep o' node b ch)"
  by (auto simp: writeStep_def goesOn_def finishChain_def Let_def split: NodeOutcome.splits)

lemma goesOn_fields: "goesOn (ch\<lparr>ch_waiting := w, ch_out := vs, ch_i := n\<rparr>) ch' \<longleftrightarrow> goesOn ch ch'" "goesOn (ch\<lparr>ch_waiting := w, ch_i := n\<rparr>) ch' \<longleftrightarrow> goesOn ch ch'"
  by (simp_all add: goesOn_def)

interpretation opc_read: chained_request "readStep o' node req" "readSignal o' node req" "noRead (rd_startAddress req) ''OPC UA read timeout''"
  for o' node req
proof unfold_locales
  fix ch :: "ReadResult Chain" and v
  assume a: "\<not> ch_completed ch" "ch_done ch = []"
  show "goesOn ch (readStep o' node req ch)" using a by (rule readStep_goes_on)
  show "goesOn ch (readSignal o' node req v ch)"
    using a readStep_goes_on[of "ch\<lparr>ch_waiting := False, ch_out := ch_out ch @ [ucast (the v)], ch_i := Suc (ch_i ch)\<rparr>" o' node req]
    by (cases v) (simp_all add: readSignal_def goesOn_fields finishChain_def, simp add: goesOn_def)
qed (simp add: readSignal_def)

interpretation opc_write: chained_request "writeStep o' node b" "writeSignal o' node b" "refusedWrite ''OPC UA write timeout''"
  for o' node b
proof unfold_locales
  fix ch :: "WriteResult Chain" and good
  assume a: "\<not> ch_completed ch" "ch_done ch = []"
  show "goesOn ch (writeStep o' node b ch)" using a by (rule writeStep_goes_on)
  show "goesOn ch (writeSignal o' node b good ch)"
    using a writeStep_goes_on[of "ch\<lparr>ch_waiting := False, ch_i := Suc (ch_i ch)\<rparr>" o' node b]
    by (cases good) (simp_all add: writeSignal_def goesOn_fields finishChain_def, simp add: goesOn_def)
qed (simp add: writeSignal_def)

text \<open>C38: an asynchronous OPC UA request is answered exactly once.  Whatever the nodes signal and whenever the
  safety timer fires, \<open>done\<close> is called at most once; a request without its answer still waits for a node
  under a running timer, or its lambda is still posted, and when the timer fires the request has its answer.\<close>

theorem opc_answers_once:
  assumes "chainRun (readEvent o' node req) evs (opcReadAsync req o') = Some ch"
    and "chainRun (writeEvent o' wnode b) wevs (opcWriteAsync o') = Some wch"
  shows "length (ch_done ch) \<le> 1 \<and> length (ch_done wch) \<le> 1
    \<and> (ch_done ch = [] \<longrightarrow> ch_posted ch \<or> ch_timer ch \<and> ch_waiting ch) \<and> (ch_done wch = [] \<longrightarrow> ch_posted wch \<or> ch_timer wch \<and> ch_waiting wch)
    \<and> (\<forall>ch'. readEvent o' node req SafetyTimeout ch = Some ch' \<longrightarrow> length (ch_done ch') = 1)
    \<and> (\<forall>wch'. writeEvent o' wnode b SafetyTimeout wch = Some wch' \<longrightarrow> length (ch_done wch') = 1)"
  using opc_read.answered_once[OF async_inv(1) assms(1)[unfolded readEvent_def]] opc_write.answered_once[OF async_inv(2) assms(2)[unfolded writeEvent_def]]
  unfolding readEvent_def writeEvent_def by blast

subsection \<open>Synchronous and asynchronous requests agree\<close>

text \<open>The events of a chain whose nodes behave as \<open>node\<close> says.\<close>

fun readSchedule :: "(nat \<Rightarrow> u32 option NodeOutcome) \<Rightarrow> nat \<Rightarrow> nat \<Rightarrow> u32 option ChainEvent list" where
  "readSchedule node i 0 = []"
| "readSchedule node i (Suc n) = (case node i of
     Signalled (Some v) \<Rightarrow> NodeSignals (Some v) # readSchedule node (Suc i) n
   | Signalled None \<Rightarrow> [NodeSignals None] | Silent \<Rightarrow> [SafetyTimeout] | _ \<Rightarrow> [])"

fun writeSchedule :: "(nat \<Rightarrow> bool NodeOutcome) \<Rightarrow> nat \<Rightarrow> nat \<Rightarrow> bool ChainEvent list" where
  "writeSchedule node i 0 = []"
| "writeSchedule node i (Suc n) = (case node i of
     Signalled True \<Rightarrow> NodeSignals True # writeSchedule node (Suc i) n
   | Signalled False \<Rightarrow> [NodeSignals False] | Silent \<Rightarrow> [SafetyTimeout] | _ \<Rightarrow> [])"

definition underWay :: "nat \<Rightarrow> 'r Chain \<Rightarrow> bool" where
  "underWay i ch \<longleftrightarrow> ch_i ch = i \<and> \<not> ch_completed ch \<and> ch_timer ch \<and> ch_done ch = []"

definition readAnswer :: "int \<Rightarrow> qstring + u16 list \<Rightarrow> ReadResult \<Rightarrow> bool" where
  "readAnswer start answer r \<longleftrightarrow> rr_startAddress r = start \<and> (case answer of Inl _ \<Rightarrow> \<not> rr_ok r \<and> rr_values r = [] | Inr vs \<Rightarrow> r = okRead start vs)"

lemma read_chain:
  "underWay i ch \<Longrightarrow> nat (rd_count req) = i + n \<Longrightarrow>
   \<exists>ch' r. chainRun (readEvent o' node req) (readSchedule node i n) (readStep o' node req ch) = Some ch' \<and> ch_done ch' = [r]
     \<and> readAnswer (rd_startAddress req) (map_sum id ((@) (ch_out ch)) (opcReadLoop o' node (rd_startAddress req) i n)) r"
proof (induction n arbitrary: i ch)
  case 0
  then show ?case by (auto simp: underWay_def readStep_def finishChain_def readAnswer_def okRead_def)
next
  case (Suc n)
  then have step: "readStep o' node req ch = (case node i of
       NoNode \<Rightarrow> finishChain (noRead (rd_startAddress req) (qarg ''OPC UA bad node %1'' (nodeIdFor o' (rd_startAddress req + int i)))) ch
     | NotIssued \<Rightarrow> finishChain (noRead (rd_startAddress req) ''OPC UA readAttributes failed'') ch | _ \<Rightarrow> ch\<lparr>ch_waiting := True\<rparr>)"
    by (auto simp: underWay_def readStep_def Let_def)
  show ?case
  proof (cases "node i")
    case (Signalled v)
    show ?thesis
    proof (cases v)
      case None
      with Suc Signalled show ?thesis
        by (simp add: step readEvent_def chainEvent_def readSignal_def underWay_def finishChain_def readAnswer_def noRead_def)
    next
      case (Some x)
      let ?next = "ch\<lparr>ch_waiting := False, ch_out := ch_out ch @ [ucast x], ch_i := Suc i\<rparr>"
      have "underWay (Suc i) ?next" "nat (rd_count req) = Suc i + n" using Suc.prems by (simp_all add: underWay_def)
      from Suc.IH[OF this] obtain ch' r where "chainRun (readEvent o' node req) (readSchedule node (Suc i) n) (readStep o' node req ?next) = Some ch'" "ch_done ch' = [r]"
        "readAnswer (rd_startAddress req) (map_sum id ((@) (ch_out ?next)) (opcReadLoop o' node (rd_startAddress req) (Suc i) n)) r" by blast
      moreover have "readEvent o' node req (NodeSignals (Some x)) (ch\<lparr>ch_waiting := True\<rparr>) = Some (readStep o' node req ?next)"
        using Suc.prems by (simp add: readEvent_def chainEvent_def readSignal_def underWay_def)
      moreover have "map_sum id ((@) (ch_out ?next)) l = map_sum id ((@) (ch_out ch)) (map_sum id ((#) (ucast x)) l)" for l :: "qstring + u16 list"
        by (cases l) simp_all
      ultimately show ?thesis using Signalled Some by (simp add: step flip: id_def)
    qed
  qed (use Suc in \<open>auto simp: step readEvent_def chainEvent_def safetyTimeout_def underWay_def finishChain_def readAnswer_def noRead_def\<close>)
qed

lemma write_chain:
  "underWay i ch \<Longrightarrow> i + length vs = length (wr_values b) \<Longrightarrow> vs = drop i (wr_values b) \<Longrightarrow>
   \<exists>ch' r. chainRun (writeEvent o' node b) (writeSchedule node i (length vs)) (writeStep o' node b ch) = Some ch' \<and> ch_done ch' = [r]
     \<and> wres_ok r = wres_ok (snd (opcWriteLoop o' node (wr_startAddress b) i vs))
     \<and> ch_asked ch' = ch_asked ch @ fst (opcWriteLoop o' node (wr_startAddress b) i vs)"
proof (induction vs arbitrary: i ch)
  case Nil
  then show ?case by (auto simp: underWay_def writeStep_def finishChain_def)
next
  case (Cons v vs)
  let ?id = "nodeIdFor o' (wr_startAddress b + int i)"
  have v: "wr_values b ! i = v" using Cons.prems(3)[symmetric] by (rule nth_via_drop)
  have "drop (Suc i) (wr_values b) = tl (drop i (wr_values b))" by (simp add: drop_Suc tl_drop)
  then have vs: "vs = drop (Suc i) (wr_values b)" unfolding Cons.prems(3)[symmetric] by simp
  have n: "Suc i + length vs = length (wr_values b)" using Cons.prems(2) by simp
  have step: "writeStep o' node b ch = (case node i of
       NoNode \<Rightarrow> finishChain (refusedWrite (qarg ''OPC UA bad node %1'' ?id)) ch
     | NotIssued \<Rightarrow> finishChain (refusedWrite ''OPC UA writeAttribute failed'') ch
     | _ \<Rightarrow> ch\<lparr>ch_waiting := True, ch_asked := ch_asked ch @ [(?id, v)]\<rparr>)"
    using Cons.prems(1) n v by (auto simp: underWay_def writeStep_def Let_def)
  show ?case
  proof (cases "node i")
    case (Signalled good)
    show ?thesis
    proof (cases good)
      case False
      with Cons.prems(1) Signalled show ?thesis
        by (simp add: step writeEvent_def chainEvent_def writeSignal_def underWay_def finishChain_def refusedWrite_def Let_def)
    next
      case True
      let ?next = "ch\<lparr>ch_asked := ch_asked ch @ [(?id, v)], ch_waiting := False, ch_i := Suc i\<rparr>"
      have "underWay (Suc i) ?next" using Cons.prems(1) by (simp add: underWay_def)
      from Cons.IH[OF this n vs] obtain ch' r where "chainRun (writeEvent o' node b) (writeSchedule node (Suc i) (length vs)) (writeStep o' node b ?next) = Some ch'"
        "ch_done ch' = [r]" "wres_ok r = wres_ok (snd (opcWriteLoop o' node (wr_startAddress b) (Suc i) vs))"
        "ch_asked ch' = ch_asked ?next @ fst (opcWriteLoop o' node (wr_startAddress b) (Suc i) vs)" by blast
      moreover have "writeEvent o' node b (NodeSignals True) (ch\<lparr>ch_waiting := True, ch_asked := ch_asked ch @ [(?id, v)]\<rparr>) = Some (writeStep o' node b ?next)"
        using Cons.prems(1) by (simp add: writeEvent_def chainEvent_def writeSignal_def underWay_def)
      ultimately show ?thesis using Signalled True by (auto simp: step Let_def)
    qed
  qed (use Cons.prems(1) in \<open>auto simp: step writeEvent_def chainEvent_def safetyTimeout_def underWay_def finishChain_def refusedWrite_def Let_def\<close>)
qed

lemma started_underWay: "underWay 0 (newChain\<lparr>ch_posted := False, ch_timer := True\<rparr>)"
  by (simp add: underWay_def newChain_def)

lemma chain_starts: "chainRun (chainEvent step signal late) (ChainStarts # evs) newChain
   = chainRun (chainEvent step signal late) evs (step (newChain\<lparr>ch_posted := False, ch_timer := True\<rparr>))"
  by (simp add: chainEvent_def newChain_def)


definition demoOpc :: OpcTransport where
  "demoOpc = \<lparr>opc_backend = ''open62541'', opc_template = ''ns=2;i=%1'', opc_client = True, opc_con = (newConnection 0 demoStatus)\<lparr>con_state := Connected\<rparr>\<rparr>"

definition demoReadRequest :: ReadRequest where
  "demoReadRequest = \<lparr>rd_table = HoldingRegisters, rd_startAddress = 3, rd_count = 2\<rparr>"

definition demoBatch :: WriteBatch where
  "demoBatch = \<lparr>wr_table = HoldingRegisters, wr_startAddress = 3, wr_values = [5]\<rparr>"


theorem opc_answers_once_witness:
  "\<exists>ch wch. chainRun (readEvent demoOpc (\<lambda>_. Silent) demoReadRequest) [ChainStarts, SafetyTimeout, NodeSignals (Some 9)] (opcReadAsync demoReadRequest demoOpc) = Some ch
     \<and> chainRun (writeEvent demoOpc (\<lambda>_. Silent) demoBatch) [ChainStarts, NodeSignals True, SafetyTimeout] (opcWriteAsync demoOpc) = Some wch
     \<and> length (ch_done ch) \<le> 1 \<and> length (ch_done wch) \<le> 1"
proof -
  obtain ch where ch: "chainRun (readEvent demoOpc (\<lambda>_. Silent) demoReadRequest) [ChainStarts, SafetyTimeout, NodeSignals (Some 9)] (opcReadAsync demoReadRequest demoOpc) = Some ch"
    by (simp add: readEvent_def chainEvent_def opcReadAsync_def demoOpc_def demoReadRequest_def newChain_def readStep_def safetyTimeout_def finishChain_def readSignal_def)
  obtain wch where wch: "chainRun (writeEvent demoOpc (\<lambda>_. Silent) demoBatch) [ChainStarts, NodeSignals True, SafetyTimeout] (opcWriteAsync demoOpc) = Some wch"
    by (simp add: writeEvent_def chainEvent_def opcWriteAsync_def demoOpc_def demoBatch_def newChain_def writeStep_def safetyTimeout_def finishChain_def writeSignal_def)
  show ?thesis using opc_answers_once[OF ch wch] ch wch by blast
qed

end
