(* ===== verification/Persistence.thy ===== *)
theory Persistence
  imports Codecs Log_Pipeline "HOL-Library.Sublist"
begin

text \<open>
  The persistence module (\<open>persistence/src/Persistence.cpp\<close>): rows of telemetry, operation and system
  logs are queued by bus and logger callbacks and stored by a writer thread.  The database (QxOrm and
  QtSql) is outside: what an insertion answers is part of the event that performs it, and a failed
  insertion stores nothing.  The callbacks and the writer share the queues under one lock; a step of
  the model is a critical section or the insertions between two of them.
\<close>

subsection \<open>Rows\<close>

record Telemetry =
  tel_tag :: qstring
  tel_ts :: u64
  tel_value :: qstring
  tel_quality :: int

record OperationLog =
  opl_ts :: u64
  opl_actor :: qstring
  opl_action :: qstring
  opl_target :: qstring
  opl_old_value :: qstring
  opl_new_value :: qstring
  opl_result :: qstring
  opl_note :: qstring

record SystemLog =
  syl_ts :: u64
  syl_level :: nat
  syl_category :: qstring
  syl_source :: qstring
  syl_message :: qstring

text \<open>The records of the logger, as far as they are stored; an invalid time stamp is \<open>None\<close>.\<close>

record LogRecord =
  rec_ts :: "int option"
  rec_level :: LogLevel
  rec_category :: qstring
  rec_source :: qstring
  rec_message :: qstring

record OperationRecord =
  opr_ts :: "int option"
  opr_actor :: qstring
  opr_action :: qstring
  opr_target :: qstring
  opr_oldValue :: QVariant
  opr_newValue :: QVariant
  opr_result :: qstring
  opr_note :: qstring

definition stampOf :: "int \<Rightarrow> int option \<Rightarrow> u64" where
  "stampOf now ts = word_of_int (case ts of Some t \<Rightarrow> t | None \<Rightarrow> now)"

definition systemRow :: "LogLevel \<Rightarrow> int \<Rightarrow> LogRecord \<Rightarrow> SystemLog option" where
  "systemRow minLevel now r =
     (if levelRank (rec_level r) < levelRank minLevel then None
      else if rec_category r = ''persistence'' then None
      else Some \<lparr>syl_ts = stampOf now (rec_ts r), syl_level = levelRank (rec_level r), syl_category = rec_category r,
                 syl_source = rec_source r, syl_message = rec_message r\<rparr>)"

definition operationRow :: "QtVariant \<Rightarrow> int \<Rightarrow> OperationRecord \<Rightarrow> OperationLog" where
  "operationRow qt now r = \<lparr>opl_ts = stampOf now (opr_ts r), opl_actor = opr_actor r, opl_action = opr_action r, opl_target = opr_target r,
     opl_old_value = qt_toString qt (opr_oldValue r), opl_new_value = qt_toString qt (opr_newValue r), opl_result = opr_result r, opl_note = opr_note r\<rparr>"

text \<open>The tags of the datapoints there are when the module starts, and the rows of their changes.\<close>

definition buildPersistTags :: "(qstring \<times> qstring) list \<Rightarrow> (qstring \<rightharpoonup> qstring) \<Rightarrow> qstring \<rightharpoonup> qstring" where
  "buildPersistTags dps tags = fold (\<lambda>(i, tag) tags. if tag = [] then tags else tags(i \<mapsto> tag)) dps tags"

definition telemetryRow :: "QtVariant \<Rightarrow> (qstring \<rightharpoonup> qstring) \<Rightarrow> int \<Rightarrow> qstring \<Rightarrow> int option \<Rightarrow> QVariant \<Rightarrow> int \<Rightarrow> Telemetry option" where
  "telemetryRow qt tags now i ts v quality = (case tags i of None \<Rightarrow> None
     | Some tag \<Rightarrow> Some \<lparr>tel_tag = tag, tel_ts = stampOf now ts, tel_value = qt_toString qt v, tel_quality = quality\<rparr>)"

subsection \<open>Starting\<close>

record PersistConfig =
  pc_driver :: qstring
  pc_port :: int
  pc_dbname :: qstring
  pc_batchSize :: int
  pc_flushMs :: int
  pc_maxQueuedRows :: int

definition startError :: "PersistConfig \<Rightarrow> qstring option" where
  "startError c =
     (if pc_batchSize c \<le> 0 \<or> pc_flushMs c \<le> 0 \<or> pc_maxQueuedRows c \<le> 0 then Some ''batchSize, flushMs and maxQueuedRows must be > 0''
      else if trimmed (pc_dbname c) = [] then Some ''dbname must not be empty''
      else if pc_driver c \<noteq> ''QPSQL'' \<and> pc_driver c \<noteq> ''QMYSQL'' \<and> pc_driver c \<noteq> ''QSQLITE'' then Some (qarg ''unsupported SQL driver: %1'' (pc_driver c))
      else if pc_driver c \<noteq> ''QSQLITE'' \<and> (pc_port c < 1 \<or> 65535 < pc_port c) then Some ''database port must be in [1, 65535]''
      else None)"

subsection \<open>The queues\<close>

record Persist =
  per_cfg :: PersistConfig
  per_tags :: "qstring \<rightharpoonup> qstring"
  per_telemetry :: "Telemetry list"
  per_ops :: "OperationLog list"
  per_system :: "SystemLog list"
  per_dropped :: nat
  per_running :: bool

definition newPersist :: "PersistConfig \<Rightarrow> Persist" where
  "newPersist c = \<lparr>per_cfg = c, per_tags = Map.empty, per_telemetry = [], per_ops = [], per_system = [], per_dropped = 0, per_running = False\<rparr>"

definition startPersist :: "bool \<Rightarrow> (qstring \<times> qstring) list \<Rightarrow> Persist \<Rightarrow> bool \<times> Persist" where
  "startPersist databaseReady dps p =
     (if per_running p then (True, p)
      else if startError (per_cfg p) \<noteq> None \<or> \<not> databaseReady then (False, p)
      else (True, p\<lparr>per_tags := buildPersistTags dps (per_tags p), per_running := True\<rparr>))"

definition queueDepthLocked :: "Persist \<Rightarrow> nat" where
  "queueDepthLocked p = length (per_telemetry p) + length (per_ops p) + length (per_system p)"

definition queueFull :: "Persist \<Rightarrow> bool" where
  "queueFull p \<longleftrightarrow> \<not> int (queueDepthLocked p) < pc_maxQueuedRows (per_cfg p)"

definition countDrop :: "Persist \<Rightarrow> Persist" where
  "countDrop p = p\<lparr>per_dropped := Suc (per_dropped p)\<rparr>"

definition makeRoomForTelemetry :: "Persist \<Rightarrow> bool \<times> Persist" where
  "makeRoomForTelemetry p =
     (if \<not> queueFull p then (True, p)
      else if per_telemetry p = [] then (False, countDrop p)
      else (True, (countDrop p)\<lparr>per_telemetry := tl (per_telemetry p)\<rparr>))"

definition makeRoomForSystem :: "Persist \<Rightarrow> bool \<times> Persist" where
  "makeRoomForSystem p =
     (if \<not> queueFull p then (True, p)
      else if per_telemetry p \<noteq> [] then (True, (countDrop p)\<lparr>per_telemetry := tl (per_telemetry p)\<rparr>)
      else if per_system p = [] then (False, countDrop p)
      else (True, (countDrop p)\<lparr>per_system := tl (per_system p)\<rparr>))"

definition makeRoomForOperation :: "Persist \<Rightarrow> Persist" where
  "makeRoomForOperation p =
     (if \<not> queueFull p then p
      else if per_telemetry p \<noteq> [] then (countDrop p)\<lparr>per_telemetry := tl (per_telemetry p)\<rparr>
      else if per_system p \<noteq> [] then (countDrop p)\<lparr>per_system := tl (per_system p)\<rparr>
      else if per_ops p \<noteq> [] then (countDrop p)\<lparr>per_ops := tl (per_ops p)\<rparr>
      else countDrop p)"

definition pushTelemetry :: "Telemetry \<Rightarrow> Persist \<Rightarrow> Persist" where
  "pushTelemetry row p = (if \<not> per_running p then p else case makeRoomForTelemetry p of (room, p) \<Rightarrow>
     if room then p\<lparr>per_telemetry := per_telemetry p @ [row]\<rparr> else p)"

definition pushOperation :: "OperationLog \<Rightarrow> Persist \<Rightarrow> Persist" where
  "pushOperation row p = (if \<not> per_running p then p else let p = makeRoomForOperation p in p\<lparr>per_ops := per_ops p @ [row]\<rparr>)"

definition pushSystem :: "SystemLog \<Rightarrow> Persist \<Rightarrow> Persist" where
  "pushSystem row p = (if \<not> per_running p then p else case makeRoomForSystem p of (room, p) \<Rightarrow>
     if room then p\<lparr>per_system := per_system p @ [row]\<rparr> else p)"

text \<open>Whether a push wakes the writer, which otherwise wakes after \<open>flushMs\<close>.\<close>

definition maybeNotify :: "Persist \<Rightarrow> bool" where
  "maybeNotify p \<longleftrightarrow> pc_batchSize (per_cfg p) \<le> int (queueDepthLocked p)"

subsection \<open>The writer\<close>

datatype WriterPc = WriterTop | WriterFlush | WriterFailed | WriterRetry | WriterExit "nat option"

record RowWriter =
  wri_pc :: WriterPc
  wri_tb :: "Telemetry list"
  wri_ob :: "OperationLog list"
  wri_sb :: "SystemLog list"
  wri_reported :: nat

definition newWriter :: RowWriter where
  "newWriter = \<lparr>wri_pc = WriterTop, wri_tb = [], wri_ob = [], wri_sb = [], wri_reported = 0\<rparr>"

definition batchEmpty :: "RowWriter \<Rightarrow> bool" where
  "batchEmpty w \<longleftrightarrow> wri_tb w = [] \<and> wri_ob w = [] \<and> wri_sb w = []"

definition batchRows :: "RowWriter \<Rightarrow> nat" where
  "batchRows w = length (wri_tb w) + length (wri_ob w) + length (wri_sb w)"

text \<open>
  The head of the loop in \<open>run\<close>, after its wait: \<open>swap\<close> takes the queues.  \<open>wri_reported\<close> adds up the
  dropped rows the writer logs.
\<close>

definition writerTake :: "Persist \<Rightarrow> RowWriter \<Rightarrow> Persist \<times> RowWriter" where
  "writerTake p w =
     (if \<not> batchEmpty w then (p, w\<lparr>wri_pc := WriterFlush\<rparr>)
      else if per_running p \<and> queueDepthLocked p = 0 then (p, w)
      else let w' = w\<lparr>wri_tb := per_telemetry p, wri_ob := per_ops p, wri_sb := per_system p\<rparr>;
               p' = p\<lparr>per_telemetry := [], per_ops := [], per_system := [], per_dropped := 0\<rparr>
           in if \<not> per_running p \<and> batchEmpty w' then (p', w'\<lparr>wri_pc := WriterExit None\<rparr>)
              else (p', w'\<lparr>wri_pc := WriterFlush, wri_reported := wri_reported w + per_dropped p\<rparr>))"

text \<open>\<open>insertAll\<close>: what is left of a batch, and the table.\<close>

definition insertAll :: "bool \<Rightarrow> 'a list \<Rightarrow> 'a list \<Rightarrow> bool \<times> 'a list \<times> 'a list" where
  "insertAll ok rows table = (if rows = [] then (True, [], table) else if ok then (True, [], table @ rows) else (False, rows, table))"

record Database =
  db_telemetry :: "Telemetry list"
  db_operation :: "OperationLog list"
  db_system :: "SystemLog list"

definition flushBatch :: "bool \<times> bool \<times> bool \<Rightarrow> RowWriter \<Rightarrow> Database \<Rightarrow> RowWriter \<times> Database" where
  "flushBatch oks w db =
     (let (tok, tb, t) = insertAll (fst oks) (wri_tb w) (db_telemetry db);
          (ook, ob, t') = insertAll (fst (snd oks)) (wri_ob w) (db_operation db);
          (sok, sb, t'') = insertAll (snd (snd oks)) (wri_sb w) (db_system db)
      in (w\<lparr>wri_tb := tb, wri_ob := ob, wri_sb := sb, wri_pc := (if tok \<and> ook \<and> sok then WriterTop else WriterFailed)\<rparr>,
          \<lparr>db_telemetry = t, db_operation = t', db_system = t''\<rparr>))"

text \<open>After a failed flush: retry, or give up when the module stops, reporting the rows of the batch.\<close>

definition writerFailed :: "Persist \<Rightarrow> RowWriter \<Rightarrow> RowWriter" where
  "writerFailed p w = (if \<not> per_running p then w\<lparr>wri_pc := WriterExit (Some (batchRows w))\<rparr> else w\<lparr>wri_pc := WriterRetry\<rparr>)"

subsection \<open>The interleaved system\<close>

text \<open>\<open>pst_pushed_t\<close>, \<open>pst_pushed_o\<close> and \<open>pst_pushed_s\<close> observe the rows offered while the module ran.\<close>

record PersistSystem =
  pst_p :: Persist
  pst_w :: RowWriter
  pst_db :: Database
  pst_pushed_t :: "Telemetry list"
  pst_pushed_o :: "OperationLog list"
  pst_pushed_s :: "SystemLog list"

datatype PersistEvent = TelemetryIn Telemetry | OperationIn OperationLog | SystemIn SystemLog | StopPersist
  | WriterTakes | WriterFlushes "bool \<times> bool \<times> bool" | WriterDecides | WriterWaited

fun persistEvent :: "PersistEvent \<Rightarrow> PersistSystem \<Rightarrow> PersistSystem option" where
  "persistEvent (TelemetryIn row) x = Some (x\<lparr>pst_p := pushTelemetry row (pst_p x),
     pst_pushed_t := pst_pushed_t x @ (if per_running (pst_p x) then [row] else [])\<rparr>)"
| "persistEvent (OperationIn row) x = Some (x\<lparr>pst_p := pushOperation row (pst_p x),
     pst_pushed_o := pst_pushed_o x @ (if per_running (pst_p x) then [row] else [])\<rparr>)"
| "persistEvent (SystemIn row) x = Some (x\<lparr>pst_p := pushSystem row (pst_p x),
     pst_pushed_s := pst_pushed_s x @ (if per_running (pst_p x) then [row] else [])\<rparr>)"
| "persistEvent StopPersist x = Some (x\<lparr>pst_p := (pst_p x)\<lparr>per_running := False\<rparr>\<rparr>)"
| "persistEvent WriterTakes x =
     (if wri_pc (pst_w x) = WriterTop then case writerTake (pst_p x) (pst_w x) of (p, w) \<Rightarrow> Some (x\<lparr>pst_p := p, pst_w := w\<rparr>) else None)"
| "persistEvent (WriterFlushes oks) x =
     (if wri_pc (pst_w x) = WriterFlush then case flushBatch oks (pst_w x) (pst_db x) of (w, db) \<Rightarrow> Some (x\<lparr>pst_w := w, pst_db := db\<rparr>) else None)"
| "persistEvent WriterDecides x = (if wri_pc (pst_w x) = WriterFailed then Some (x\<lparr>pst_w := writerFailed (pst_p x) (pst_w x)\<rparr>) else None)"
| "persistEvent WriterWaited x = (if wri_pc (pst_w x) = WriterRetry then Some (x\<lparr>pst_w := (pst_w x)\<lparr>wri_pc := WriterTop\<rparr>\<rparr>) else None)"

inductive persistStep :: "PersistSystem \<Rightarrow> PersistSystem \<Rightarrow> bool" where
  "persistEvent ev x = Some y \<Longrightarrow> persistStep x y"

definition startedPersist :: "PersistConfig \<Rightarrow> Database \<Rightarrow> PersistSystem" where
  "startedPersist c db = \<lparr>pst_p = snd (startPersist True [] (newPersist c)), pst_w = newWriter, pst_db = db,
     pst_pushed_t = [], pst_pushed_o = [], pst_pushed_s = []\<rparr>"

subsection \<open>Conservation of rows\<close>

text \<open>One stream: what is stored, in the batch and queued, in this order, is what was offered less some rows.\<close>

definition stream_ok :: "'a list \<Rightarrow> 'a list \<Rightarrow> 'a list \<Rightarrow> 'a list \<Rightarrow> 'a list \<Rightarrow> bool" where
  "stream_ok old offered table rows queue \<longleftrightarrow> subseq (table @ rows @ queue) (old @ offered)"

lemma stream_push: "stream_ok old offered table rows queue \<Longrightarrow> stream_ok old (offered @ [r]) table rows (queue @ [r])"
  unfolding stream_ok_def using subseq_append[of "table @ rows @ queue" "[r]" "old @ offered"] by simp

lemma stream_reject: "stream_ok old offered table rows queue \<Longrightarrow> stream_ok old (offered @ [r]) table rows queue"
  unfolding stream_ok_def using subseq_rev_drop_many[of "table @ rows @ queue" "old @ offered" "[r]"] by simp

lemma stream_drop: "stream_ok old offered table rows queue \<Longrightarrow> stream_ok old offered table rows (tl queue)"
proof -
  have "subseq (table @ rows @ tl queue) (table @ rows @ queue)" by (cases queue) (simp_all add: subseq_append' list_emb_Cons)
  then show "stream_ok old offered table rows queue \<Longrightarrow> stream_ok old offered table rows (tl queue)"
    unfolding stream_ok_def by (rule subseq_order.trans)
qed

lemma stream_take: "stream_ok old offered table [] queue \<Longrightarrow> stream_ok old offered table queue []"
  by (simp add: stream_ok_def)

lemma stream_insert: "insertAll ok rows table = (fin, rows', table') \<Longrightarrow> stream_ok old offered table rows queue \<Longrightarrow> stream_ok old offered table' rows' queue"
  by (auto simp: stream_ok_def insertAll_def split: if_splits)

text \<open>What a push does to its own queue and to the others.\<close>

lemma stream_own: "q' \<in> {q @ [r], tl q @ [r], q} \<Longrightarrow> stream_ok old offered table rows q \<Longrightarrow> stream_ok old (offered @ [r]) table rows q'"
  by (elim insertE) (simp_all add: stream_push stream_reject stream_drop)

lemma stream_other: "q' \<in> {q, tl q} \<Longrightarrow> stream_ok old offered table rows q \<Longrightarrow> stream_ok old offered table rows q'"
  by (elim insertE) (simp_all add: stream_drop)

definition storedRows :: "Database \<Rightarrow> nat" where
  "storedRows db = length (db_telemetry db) + length (db_operation db) + length (db_system db)"

definition offeredRows :: "PersistSystem \<Rightarrow> nat" where
  "offeredRows x = length (pst_pushed_t x) + length (pst_pushed_o x) + length (pst_pushed_s x)"

definition streams_ok :: "Database \<Rightarrow> PersistSystem \<Rightarrow> bool" where
  "streams_ok db0 x \<longleftrightarrow> (let p = pst_p x; w = pst_w x; db = pst_db x in
     stream_ok (db_telemetry db0) (pst_pushed_t x) (db_telemetry db) (wri_tb w) (per_telemetry p)
   \<and> stream_ok (db_operation db0) (pst_pushed_o x) (db_operation db) (wri_ob w) (per_ops p)
   \<and> stream_ok (db_system db0) (pst_pushed_s x) (db_system db) (wri_sb w) (per_system p))"

definition counts_ok :: "Database \<Rightarrow> PersistSystem \<Rightarrow> bool" where
  "counts_ok db0 x \<longleftrightarrow> (let p = pst_p x; w = pst_w x in
     storedRows db0 + offeredRows x = storedRows (pst_db x) + batchRows w + queueDepthLocked p + wri_reported w + per_dropped p)"

definition queue_ok :: "PersistConfig \<Rightarrow> PersistSystem \<Rightarrow> bool" where
  "queue_ok c x \<longleftrightarrow> (let p = pst_p x; w = pst_w x in per_cfg p = c \<and> 0 < pc_maxQueuedRows c \<and> int (queueDepthLocked p) \<le> pc_maxQueuedRows c
     \<and> (0 < per_dropped p \<longrightarrow> 0 < queueDepthLocked p)
     \<and> (case wri_pc w of WriterExit None \<Rightarrow> \<not> per_running p \<and> queueDepthLocked p = 0 \<and> batchEmpty w
           | WriterExit (Some n) \<Rightarrow> \<not> per_running p \<and> n = batchRows w | _ \<Rightarrow> True))"

definition persist_inv :: "PersistConfig \<Rightarrow> Database \<Rightarrow> PersistSystem \<Rightarrow> bool" where
  "persist_inv c db0 x \<longleftrightarrow> streams_ok db0 x \<and> counts_ok db0 x \<and> queue_ok c x"

lemmas room_defs = makeRoomForTelemetry_def makeRoomForSystem_def makeRoomForOperation_def countDrop_def queueFull_def queueDepthLocked_def
lemmas push_defs = pushTelemetry_def pushOperation_def pushSystem_def Let_def

lemma push_idle: "\<not> per_running p \<Longrightarrow> pushTelemetry t p = p" "\<not> per_running p \<Longrightarrow> pushOperation r p = p" "\<not> per_running p \<Longrightarrow> pushSystem m p = p"
  by (simp_all add: push_defs)

lemma push_queues:
  assumes "per_running p"
  shows "per_telemetry (pushTelemetry t p) \<in> {per_telemetry p @ [t], tl (per_telemetry p) @ [t], per_telemetry p}"
    "per_ops (pushTelemetry t p) = per_ops p" "per_system (pushTelemetry t p) = per_system p"
    "per_telemetry (pushOperation r p) \<in> {per_telemetry p, tl (per_telemetry p)}"
    "per_ops (pushOperation r p) \<in> {per_ops p @ [r], tl (per_ops p) @ [r], per_ops p}" "per_system (pushOperation r p) \<in> {per_system p, tl (per_system p)}"
    "per_telemetry (pushSystem m p) \<in> {per_telemetry p, tl (per_telemetry p)}" "per_ops (pushSystem m p) = per_ops p"
    "per_system (pushSystem m p) \<in> {per_system p @ [m], tl (per_system p) @ [m], per_system p}"
  using assms by (simp_all add: push_defs room_defs)

definition isPush :: "Persist \<Rightarrow> Persist \<Rightarrow> bool" where
  "isPush p p' \<longleftrightarrow> (\<exists>t. p' = pushTelemetry t p) \<or> (\<exists>r. p' = pushOperation r p) \<or> (\<exists>m. p' = pushSystem m p)"

text \<open>One row more is queued or dropped, and a full queue does not grow.\<close>

lemma room_telemetry:
  assumes "makeRoomForTelemetry p = (room, q)"
  shows "queueDepthLocked q + per_dropped q = queueDepthLocked p + per_dropped p + of_bool (\<not> room)"
    "queueDepthLocked q + of_bool (room \<and> queueFull p) = queueDepthLocked p" "per_cfg q = per_cfg p" "per_running q = per_running p"
  using assms by (cases "per_telemetry p"; auto simp: makeRoomForTelemetry_def countDrop_def queueDepthLocked_def split: if_splits)+

lemma room_system:
  assumes "makeRoomForSystem p = (room, q)"
  shows "queueDepthLocked q + per_dropped q = queueDepthLocked p + per_dropped p + of_bool (\<not> room)"
    "queueDepthLocked q + of_bool (room \<and> queueFull p) = queueDepthLocked p" "per_cfg q = per_cfg p" "per_running q = per_running p"
  using assms by (cases "per_telemetry p"; cases "per_system p"; auto simp: makeRoomForSystem_def countDrop_def queueDepthLocked_def split: if_splits)+

lemma room_operation:
  assumes "0 < pc_maxQueuedRows (per_cfg p)"
  shows "queueDepthLocked (makeRoomForOperation p) + per_dropped (makeRoomForOperation p) = queueDepthLocked p + per_dropped p"
    "queueDepthLocked (makeRoomForOperation p) + of_bool (queueFull p) = queueDepthLocked p"
    "per_cfg (makeRoomForOperation p) = per_cfg p" "per_running (makeRoomForOperation p) = per_running p"
  using assms by (cases "per_telemetry p"; cases "per_ops p"; cases "per_system p"; simp add: makeRoomForOperation_def countDrop_def queueDepthLocked_def queueFull_def)+

lemma depth_append [simp]:
  "queueDepthLocked (p\<lparr>per_telemetry := per_telemetry p @ [t]\<rparr>) = Suc (queueDepthLocked p)"
  "queueDepthLocked (p\<lparr>per_ops := per_ops p @ [r]\<rparr>) = Suc (queueDepthLocked p)"
  "queueDepthLocked (p\<lparr>per_system := per_system p @ [m]\<rparr>) = Suc (queueDepthLocked p)"
  by (simp_all add: queueDepthLocked_def)

lemma push_depth:
  assumes "per_running p" "0 < pc_maxQueuedRows (per_cfg p)" "isPush p p'"
  shows "queueDepthLocked p' + per_dropped p' = Suc (queueDepthLocked p + per_dropped p)
    \<and> int (queueDepthLocked p') \<le> max (int (queueDepthLocked p)) (pc_maxQueuedRows (per_cfg p)) \<and> 0 < queueDepthLocked p'"
  using assms(3) unfolding isPush_def
proof (elim disjE exE)
  fix t assume p': "p' = pushTelemetry t p"
  obtain room q where q: "makeRoomForTelemetry p = (room, q)" by (cases "makeRoomForTelemetry p")
  then have "queueFull p" if "\<not> room" using that by (auto simp: makeRoomForTelemetry_def split: if_splits)
  then show ?thesis using room_telemetry[OF q] assms(1,2) by (cases room) (auto simp: p' pushTelemetry_def q queueFull_def of_bool_def split: if_splits)
next
  fix m assume p': "p' = pushSystem m p"
  obtain room q where q: "makeRoomForSystem p = (room, q)" by (cases "makeRoomForSystem p")
  then have "queueFull p" if "\<not> room" using that by (auto simp: makeRoomForSystem_def split: if_splits)
  then show ?thesis using room_system[OF q] assms(1,2) by (cases room) (auto simp: p' pushSystem_def q queueFull_def of_bool_def split: if_splits)
next
  fix r assume p': "p' = pushOperation r p"
  then show ?thesis using room_operation[OF assms(2)] assms(1,2) by (auto simp: pushOperation_def Let_def queueFull_def of_bool_def split: if_splits)
qed

lemma push_frame:
  assumes "isPush p p'"
  shows "per_cfg p' = per_cfg p" "per_running p' = per_running p"
  using assms unfolding isPush_def by (elim disjE exE; simp add: push_defs room_defs)+

definition pushEvent :: "PersistEvent \<Rightarrow> bool" where
  "pushEvent ev \<longleftrightarrow> (case ev of TelemetryIn _ \<Rightarrow> True | OperationIn _ \<Rightarrow> True | SystemIn _ \<Rightarrow> True | _ \<Rightarrow> False)"

lemma push_streams:
  assumes "streams_ok db0 x" "per_running (pst_p x)"
  shows "persistEvent (TelemetryIn t) x = Some y \<Longrightarrow> streams_ok db0 y" "persistEvent (OperationIn r) x = Some y \<Longrightarrow> streams_ok db0 y"
    "persistEvent (SystemIn m) x = Some y \<Longrightarrow> streams_ok db0 y"
proof -
  have old: "stream_ok (db_telemetry db0) (pst_pushed_t x) (db_telemetry (pst_db x)) (wri_tb (pst_w x)) (per_telemetry (pst_p x))"
    "stream_ok (db_operation db0) (pst_pushed_o x) (db_operation (pst_db x)) (wri_ob (pst_w x)) (per_ops (pst_p x))"
    "stream_ok (db_system db0) (pst_pushed_s x) (db_system (pst_db x)) (wri_sb (pst_w x)) (per_system (pst_p x))"
    using assms(1) by (simp_all add: streams_ok_def Let_def)
  note q = push_queues[OF assms(2)]
  show "streams_ok db0 y" if "persistEvent (TelemetryIn t) x = Some y"
    using that stream_own[OF q(1) old(1)] old(2,3) by (auto simp: streams_ok_def Let_def q(2,3) assms(2))
  show "streams_ok db0 y" if "persistEvent (OperationIn r) x = Some y"
    using that stream_other[OF q(4) old(1)] stream_own[OF q(5) old(2)] stream_other[OF q(6) old(3)] by (auto simp: streams_ok_def Let_def assms(2))
  show "streams_ok db0 y" if "persistEvent (SystemIn m) x = Some y"
    using that stream_other[OF q(7) old(1)] stream_own[OF q(9) old(3)] old(2) by (auto simp: streams_ok_def Let_def q(8) assms(2))
qed

lemma push_inv:
  assumes "persist_inv c db0 x" "pushEvent ev" "persistEvent ev x = Some y"
  shows "persist_inv c db0 y"
proof (cases "per_running (pst_p x)")
  case False
  then have "y = x" using assms(2,3) by (cases ev) (auto simp: push_idle pushEvent_def)
  then show ?thesis using assms(1) by simp
next
  case True
  have q: "per_cfg (pst_p x) = c" "0 < pc_maxQueuedRows c" "int (queueDepthLocked (pst_p x)) \<le> pc_maxQueuedRows c"
    using assms(1) by (auto simp: persist_inv_def queue_ok_def Let_def)
  have p': "isPush (pst_p x) (pst_p y)" using assms(2,3) by (cases ev) (auto simp: pushEvent_def isPush_def)
  have fields: "pst_w y = pst_w x" "pst_db y = pst_db x" "offeredRows y = Suc (offeredRows x)"
    using assms(2,3) True by (cases ev; auto simp: pushEvent_def offeredRows_def)+
  note d = push_depth[OF True _ p', unfolded q(1), OF q(2)] push_frame[OF p']
  have old: "streams_ok db0 x" using assms(1) by (simp add: persist_inv_def)
  have "streams_ok db0 y"
  proof (cases ev)
    case (TelemetryIn t)
    then show ?thesis using push_streams(1)[OF old True] assms(3) by blast
  next
    case (OperationIn r)
    then show ?thesis using push_streams(2)[OF old True] assms(3) by blast
  next
    case (SystemIn m)
    then show ?thesis using push_streams(3)[OF old True] assms(3) by blast
  qed (use assms(2) in \<open>simp_all add: pushEvent_def\<close>)
  moreover have "counts_ok db0 y" using assms(1) d fields by (simp add: persist_inv_def counts_ok_def Let_def)
  moreover have "wri_pc (pst_w x) \<noteq> WriterExit n" for n using assms(1) True
    by (cases n) (auto simp: persist_inv_def queue_ok_def Let_def)
  then have "queue_ok c y" using d q fields by (cases "wri_pc (pst_w x)") (auto simp: queue_ok_def Let_def)
  ultimately show ?thesis by (simp add: persist_inv_def)
qed

lemma insertAll_length: "insertAll ok rows table = (fin, rows', table') \<Longrightarrow> length table' + length rows' = length table + length rows"
  by (auto simp: insertAll_def split: if_splits)

lemma flush_inv:
  assumes "persist_inv c db0 x" "persistEvent (WriterFlushes oks) x = Some y"
  shows "persist_inv c db0 y"
proof -
  obtain tok tb t where i1: "insertAll (fst oks) (wri_tb (pst_w x)) (db_telemetry (pst_db x)) = (tok, tb, t)" by (cases "insertAll (fst oks) (wri_tb (pst_w x)) (db_telemetry (pst_db x))")
  obtain ook ob t' where i2: "insertAll (fst (snd oks)) (wri_ob (pst_w x)) (db_operation (pst_db x)) = (ook, ob, t')" by (cases "insertAll (fst (snd oks)) (wri_ob (pst_w x)) (db_operation (pst_db x))")
  obtain sok sb t'' where i3: "insertAll (snd (snd oks)) (wri_sb (pst_w x)) (db_system (pst_db x)) = (sok, sb, t'')" by (cases "insertAll (snd (snd oks)) (wri_sb (pst_w x)) (db_system (pst_db x))")
  let ?pc = "if tok \<and> ook \<and> sok then WriterTop else WriterFailed"
  have y: "y = x\<lparr>pst_w := (pst_w x)\<lparr>wri_tb := tb, wri_ob := ob, wri_sb := sb, wri_pc := ?pc\<rparr>, pst_db := \<lparr>db_telemetry = t, db_operation = t', db_system = t''\<rparr>\<rparr>"
    using assms(2) by (auto simp: flushBatch_def i1 i2 i3 split: if_splits)
  have "streams_ok db0 y" using assms(1) stream_insert[OF i1] stream_insert[OF i2] stream_insert[OF i3] unfolding y by (simp add: persist_inv_def streams_ok_def Let_def)
  moreover have "counts_ok db0 y" using assms(1) insertAll_length[OF i1] insertAll_length[OF i2] insertAll_length[OF i3] unfolding y
    by (simp add: persist_inv_def counts_ok_def Let_def storedRows_def batchRows_def offeredRows_def)
  moreover have "queue_ok c y" using assms(1) unfolding y by (simp add: persist_inv_def queue_ok_def Let_def split: WriterPc.splits option.splits)
  ultimately show ?thesis by (simp add: persist_inv_def)
qed

lemma taken_inv:
  assumes "persist_inv c db0 x" "batchEmpty (pst_w x)" "wri_tb w = per_telemetry (pst_p x)" "wri_ob w = per_ops (pst_p x)" "wri_sb w = per_system (pst_p x)"
    "wri_pc w = WriterExit None \<and> \<not> per_running (pst_p x) \<and> batchEmpty w \<and> wri_reported w = wri_reported (pst_w x)
      \<or> wri_pc w = WriterFlush \<and> wri_reported w = wri_reported (pst_w x) + per_dropped (pst_p x)"
  shows "persist_inv c db0 (x\<lparr>pst_p := (pst_p x)\<lparr>per_telemetry := [], per_ops := [], per_system := [], per_dropped := 0\<rparr>, pst_w := w\<rparr>)"
proof -
  let ?y = "x\<lparr>pst_p := (pst_p x)\<lparr>per_telemetry := [], per_ops := [], per_system := [], per_dropped := 0\<rparr>, pst_w := w\<rparr>"
  have "streams_ok db0 ?y" using assms by (simp add: persist_inv_def streams_ok_def Let_def batchEmpty_def stream_take)
  moreover have "counts_ok db0 ?y" "queue_ok c ?y" using assms
    by (auto simp: persist_inv_def counts_ok_def queue_ok_def Let_def batchEmpty_def batchRows_def queueDepthLocked_def offeredRows_def)
  ultimately show ?thesis by (simp add: persist_inv_def)
qed

lemma take_inv:
  assumes "persist_inv c db0 x" "persistEvent WriterTakes x = Some y"
  shows "persist_inv c db0 y"
proof -
  let ?p = "pst_p x" and ?w = "pst_w x"
  let ?w' = "?w\<lparr>wri_tb := per_telemetry ?p, wri_ob := per_ops ?p, wri_sb := per_system ?p\<rparr>"
  have pc: "wri_pc ?w = WriterTop" and y: "y = (case writerTake ?p ?w of (p, w) \<Rightarrow> x\<lparr>pst_p := p, pst_w := w\<rparr>)"
    using assms(2) by (auto split: if_splits prod.splits)
  consider "\<not> batchEmpty ?w" | "batchEmpty ?w" "per_running ?p \<and> queueDepthLocked ?p = 0"
    | "batchEmpty ?w" "\<not> (per_running ?p \<and> queueDepthLocked ?p = 0)" "\<not> per_running ?p \<and> batchEmpty ?w'"
    | "batchEmpty ?w" "\<not> (per_running ?p \<and> queueDepthLocked ?p = 0)" "\<not> (\<not> per_running ?p \<and> batchEmpty ?w')" by blast
  then show ?thesis
  proof cases
    case 1
    then show ?thesis unfolding y using assms(1) pc
      by (simp add: writerTake_def persist_inv_def streams_ok_def counts_ok_def queue_ok_def batchRows_def offeredRows_def Let_def)
  next
    case 2
    then show ?thesis unfolding y using assms(1) by (simp add: writerTake_def)
  next
    case 3
    then show ?thesis unfolding y writerTake_def Let_def using taken_inv[OF assms(1), of "?w'\<lparr>wri_pc := WriterExit None\<rparr>"] by (simp add: batchEmpty_def)
  next
    case 4
    then show ?thesis unfolding y writerTake_def Let_def
      using taken_inv[OF assms(1), of "?w'\<lparr>wri_pc := WriterFlush, wri_reported := wri_reported ?w + per_dropped ?p\<rparr>"] by auto
  qed
qed

lemma pc_inv:
  assumes "persist_inv c db0 x" "pc \<in> {WriterTop, WriterRetry} \<or> pc = WriterExit (Some (batchRows (pst_w x))) \<and> \<not> per_running (pst_p x)"
  shows "persist_inv c db0 (x\<lparr>pst_w := (pst_w x)\<lparr>wri_pc := pc\<rparr>\<rparr>)"
  using assms by (auto simp: persist_inv_def streams_ok_def counts_ok_def queue_ok_def batchRows_def offeredRows_def Let_def)

lemma decide_inv:
  assumes "persist_inv c db0 x"
  shows "persistEvent WriterDecides x = Some y \<Longrightarrow> persist_inv c db0 y" "persistEvent WriterWaited x = Some y \<Longrightarrow> persist_inv c db0 y"
  using pc_inv[OF assms] by (auto simp: writerFailed_def split: if_splits)

lemma stop_persist_inv:
  assumes "persist_inv c db0 x"
  shows "persist_inv c db0 (x\<lparr>pst_p := (pst_p x)\<lparr>per_running := False\<rparr>\<rparr>)"
  using assms by (simp add: persist_inv_def streams_ok_def counts_ok_def queue_ok_def queueDepthLocked_def offeredRows_def Let_def split: WriterPc.splits option.splits)

lemma persistStep_inv:
  assumes "persist_inv c db0 x" "persistStep x y"
  shows "persist_inv c db0 y"
  using assms(2)
proof cases
  case (1 ev)
  show ?thesis
  proof (cases "pushEvent ev")
    case True
    then show ?thesis by (rule push_inv[OF assms(1) _ 1])
  next
    case False
    then consider "ev = StopPersist" | "ev = WriterTakes" | oks where "ev = WriterFlushes oks" | "ev = WriterDecides" | "ev = WriterWaited"
      by (cases ev) (auto simp: pushEvent_def)
    then show ?thesis using 1 stop_persist_inv[OF assms(1)] take_inv[OF assms(1)] flush_inv[OF assms(1)] decide_inv[OF assms(1)]
      by cases (auto simp del: persistEvent.simps(5-8))
  qed
qed

lemma persist_reach_inv:
  assumes "startError c = None" "reach (\<lambda>x. x = startedPersist c db0) persistStep x"
  shows "persist_inv c db0 x"
  using assms(2)
proof (induction rule: reach.induct)
  case (reach_init x)
  then show ?case using assms(1)
    by (auto simp: persist_inv_def streams_ok_def stream_ok_def counts_ok_def queue_ok_def startedPersist_def startPersist_def newPersist_def newWriter_def
      buildPersistTags_def batchRows_def offeredRows_def queueDepthLocked_def Let_def startError_def split: if_splits)
qed (blast intro: persistStep_inv)

fun persistEvents :: "PersistEvent list \<Rightarrow> PersistSystem \<Rightarrow> PersistSystem option" where
  "persistEvents [] x = Some x"
| "persistEvents (ev # evs) x = (case persistEvent ev x of None \<Rightarrow> None | Some y \<Rightarrow> persistEvents evs y)"

lemma persistEvents_reach: "persistEvents evs x = Some y \<Longrightarrow> reach init persistStep x \<Longrightarrow> reach init persistStep y"
proof (induction evs arbitrary: x)
  case (Cons ev evs)
  then obtain z where z: "persistEvent ev x = Some z" "persistEvents evs z = Some y" by (auto split: option.splits)
  show ?case by (rule Cons.IH[OF z(2) reach_step[OF Cons.prems(2) persistStep.intros[OF z(1)]]])
qed simp

lemma persistEvents_run:
  assumes "persistEvents evs (startedPersist c db0) \<noteq> None"
  shows "reach (\<lambda>x. x = startedPersist c db0) persistStep (the (persistEvents evs (startedPersist c db0)))"
proof -
  obtain y where "persistEvents evs (startedPersist c db0) = Some y" using assms by blast
  then show ?thesis using persistEvents_reach reach_init[of "\<lambda>x. x = startedPersist c db0" "startedPersist c db0"] by fastforce
qed

definition demoConfig :: PersistConfig where
  "demoConfig = \<lparr>pc_driver = ''QSQLITE'', pc_port = 0, pc_dbname = ''db'', pc_batchSize = 1, pc_flushMs = 10, pc_maxQueuedRows = 2\<rparr>"

definition demoDatabase :: Database where
  "demoDatabase = \<lparr>db_telemetry = [], db_operation = [], db_system = []\<rparr>"

definition demoTelemetry :: "nat \<Rightarrow> Telemetry" where
  "demoTelemetry n = \<lparr>tel_tag = ''t'', tel_ts = of_nat n, tel_value = [], tel_quality = 0\<rparr>"

definition demoOperation :: OperationLog where
  "demoOperation = \<lparr>opl_ts = 9, opl_actor = ''ui'', opl_action = ''write'', opl_target = ''x'', opl_old_value = [], opl_new_value = [], opl_result = ''ok'', opl_note = []\<rparr>"

definition demoPersist :: PersistSystem where
  "demoPersist = the (persistEvents [TelemetryIn (demoTelemetry 1), TelemetryIn (demoTelemetry 2), OperationIn demoOperation, WriterTakes,
     WriterFlushes (True, True, True), StopPersist, WriterTakes] (startedPersist demoConfig demoDatabase))"

lemma demo_persist: "startError demoConfig = None" "reach (\<lambda>x. x = startedPersist demoConfig demoDatabase) persistStep demoPersist"
proof -
  show "startError demoConfig = None" by code_simp
  have "persistEvents [TelemetryIn (demoTelemetry 1), TelemetryIn (demoTelemetry 2), OperationIn demoOperation, WriterTakes,
     WriterFlushes (True, True, True), StopPersist, WriterTakes] (startedPersist demoConfig demoDatabase) \<noteq> None"
    by (simp add: startedPersist_def startPersist_def newPersist_def newWriter_def demoConfig_def startError_def buildPersistTags_def demoDatabase_def
      push_defs room_defs writerTake_def batchEmpty_def flushBatch_def insertAll_def trimmed_def is_space_def)
  then show "reach (\<lambda>x. x = startedPersist demoConfig demoDatabase) persistStep demoPersist" unfolding demoPersist_def by (rule persistEvents_run)
qed

subsection \<open>Theorems\<close>

text \<open>C36: no row is stored twice, invented or lost silently.  However the callbacks and the writer interleave and whichever
  insertions fail, each table followed by the writer's batch and the queue is, in order, the table at
  the start and rows offered since; the rows that are missing there are exactly those counted as
  dropped, reported or yet to be reported; and the queue stays within its bound.  A writer that ended
  without a failed flush has stored every row that was offered and not reported as dropped.\<close>

theorem persistence_accounting:
  assumes "startError c = None" "reach (\<lambda>x. x = startedPersist c db0) persistStep x"
  shows "subseq (db_telemetry (pst_db x) @ wri_tb (pst_w x) @ per_telemetry (pst_p x)) (db_telemetry db0 @ pst_pushed_t x)
    \<and> subseq (db_operation (pst_db x) @ wri_ob (pst_w x) @ per_ops (pst_p x)) (db_operation db0 @ pst_pushed_o x)
    \<and> subseq (db_system (pst_db x) @ wri_sb (pst_w x) @ per_system (pst_p x)) (db_system db0 @ pst_pushed_s x)
    \<and> storedRows db0 + offeredRows x = storedRows (pst_db x) + batchRows (pst_w x) + queueDepthLocked (pst_p x) + wri_reported (pst_w x) + per_dropped (pst_p x)
    \<and> int (queueDepthLocked (pst_p x)) \<le> pc_maxQueuedRows c
    \<and> (wri_pc (pst_w x) = WriterExit None \<longrightarrow> storedRows db0 + offeredRows x = storedRows (pst_db x) + wri_reported (pst_w x))"
  using persist_reach_inv[OF assms]
  by (auto simp: persist_inv_def streams_ok_def stream_ok_def counts_ok_def queue_ok_def batchEmpty_def batchRows_def Let_def)

theorem persistence_accounting_witness:
  "wri_pc (pst_w demoPersist) = WriterExit None \<and> offeredRows demoPersist = 3 \<and> storedRows (pst_db demoPersist) = 2 \<and> wri_reported (pst_w demoPersist) = 1"
proof -
  have "wri_pc (pst_w demoPersist) = WriterExit None \<and> offeredRows demoPersist = 3 \<and> storedRows (pst_db demoPersist) = 2"
    by (simp add: demoPersist_def startedPersist_def startPersist_def newPersist_def newWriter_def demoConfig_def startError_def buildPersistTags_def demoDatabase_def
      push_defs room_defs writerTake_def batchEmpty_def flushBatch_def insertAll_def trimmed_def is_space_def offeredRows_def storedRows_def)
  moreover have "storedRows demoDatabase = 0" by (simp add: storedRows_def demoDatabase_def)
  ultimately show ?thesis using persistence_accounting[OF demo_persist] by simp
qed

text \<open>Audit rows go last.  A queued operation row is given up only for another one, when the full queue
  holds nothing else, and a running module accepts every operation row; telemetry and system rows never displace one.\<close>

theorem audit_rows_preferred:
  assumes "per_running p" "0 < pc_maxQueuedRows (per_cfg p)"
  shows "per_ops (pushOperation r p) = (if queueFull p \<and> per_telemetry p = [] \<and> per_system p = [] then tl (per_ops p) else per_ops p) @ [r]
    \<and> per_ops (pushTelemetry t p) = per_ops p \<and> per_ops (pushSystem m p) = per_ops p"
proof -
  have "queueFull p \<Longrightarrow> per_telemetry p = [] \<Longrightarrow> per_system p = [] \<Longrightarrow> per_ops p \<noteq> []" using assms(2) by (auto simp: queueFull_def queueDepthLocked_def)
  then show ?thesis using assms(1) push_queues(2,8)[OF assms(1)] by (auto simp: pushOperation_def makeRoomForOperation_def countDrop_def Let_def)
qed


end
