(* ===== verification/Persist_Query.thy ===== *)
theory Persist_Query
  imports Persistence
begin

text \<open>
  The paginated queries of the persistence module (\<open>queryTelemetry\<close>, \<open>queryOperation\<close>, \<open>querySystem\<close>
  and \<open>pack\<close> in \<open>persistence/src/Persistence.cpp\<close>) and the gate its bus callbacks pass.  Reading a
  time stamp, counting and fetching in the database and rendering a row are arguments.
\<close>

definition kPageSize :: int where
  "kPageSize = 50"

definition parseStamp :: "(qstring \<Rightarrow> int option) \<Rightarrow> qstring \<Rightarrow> u64 option" where
  "parseStamp readTime s = (case readTime s of None \<Rightarrow> None | Some ms \<Rightarrow> if ms < 0 then None else Some (word_of_int ms))"

definition clampPage :: "int \<Rightarrow> int" where
  "clampPage page = max 0 (min page (int_max div kPageSize))"

record 'r QueryResult =
  qr_pages :: int
  qr_page :: int
  qr_limit :: int
  qr_data :: "'r list"

text \<open>\<open>pack\<close>: rows that cannot be rendered are left out.  The page count is rounded up.\<close>

definition pack :: "('a \<Rightarrow> 'r option) \<Rightarrow> 'a list \<Rightarrow> int \<Rightarrow> int \<Rightarrow> 'r QueryResult" where
  "pack render rows n page = \<lparr>qr_pages = (max 0 n + kPageSize - 1) div kPageSize, qr_page = page, qr_limit = kPageSize, qr_data = List.map_filter render rows\<rparr>"

text \<open>
  What a query asks of the database: the span of time, the further conditions, and, for fetching,
  the number of rows and the row to start from.
\<close>

record 'c RowQuery =
  rq_from :: u64
  rq_to :: u64
  rq_condition :: "'c"

definition queryRows ::
  "(qstring \<Rightarrow> int option) \<Rightarrow> ('c RowQuery \<Rightarrow> int) \<Rightarrow> ('c RowQuery \<Rightarrow> int \<Rightarrow> int \<Rightarrow> qstring + 'a list) \<Rightarrow> ('a \<Rightarrow> 'r option) \<Rightarrow> 'c \<Rightarrow> qstring \<Rightarrow> qstring \<Rightarrow> int \<Rightarrow> qstring + 'r QueryResult" where
  "queryRows readTime rowCount fetch render cond start en page =
     (case (parseStamp readTime start, parseStamp readTime en) of
        (Some s, Some e) \<Rightarrow>
          if s > e then Inl ''invalid time range; expected yyyy-MM-dd hh:mm:ss and start <= end''
          else let page = clampPage page; q = \<lparr>rq_from = s, rq_to = e, rq_condition = cond\<rparr>; n = rowCount q in
            (case fetch q kPageSize (page * kPageSize) of Inl err \<Rightarrow> Inl err | Inr rows \<Rightarrow> Inr (pack render rows n page))
      | _ \<Rightarrow> Inl ''invalid time range; expected yyyy-MM-dd hh:mm:ss and start <= end'')"

text \<open>The three queries differ in their further condition: a tag unless it is empty, nothing, or a least level unless it is not positive.\<close>

definition queryTelemetry where
  "queryTelemetry readTime rowCount fetch render (tag :: qstring) = queryRows readTime rowCount fetch render (if tag = [] then None else Some tag)"

definition queryOperation where
  "queryOperation readTime rowCount fetch render = queryRows readTime rowCount fetch render ()"

definition querySystem where
  "querySystem readTime rowCount fetch render (minLevel :: int) = queryRows readTime rowCount fetch render (if 0 < minLevel then Some minLevel else None)"

lemma page_offset_fits: "0 \<le> clampPage page * kPageSize \<and> clampPage page * kPageSize \<le> int_max"
proof -
  have "clampPage page \<le> int_max div kPageSize" "0 \<le> clampPage page" by (auto simp: clampPage_def int_max_def kPageSize_def)
  then show ?thesis by (auto simp: int_max_def kPageSize_def)
qed

lemma chunks_cover: "k * m \<ge> length xs \<Longrightarrow> concat (map (\<lambda>i. take m (drop (i * m) xs)) [0..<k]) = xs"
proof (induction k arbitrary: xs)
  case (Suc k)
  have "concat (map (\<lambda>i. take m (drop (i * m) xs)) [0..<Suc k]) = take m xs @ concat (map (\<lambda>i. take m (drop (i * m) (drop m xs))) [0..<k])"
    by (simp add: upt_conv_Cons map_Suc_upt[symmetric] comp_def add.commute del: upt_Suc)
  also have "\<dots> = take m xs @ drop m xs" using Suc.prems by (subst Suc.IH) auto
  finally show ?case by simp
qed simp

text \<open>The pages of a query are the whole answer.  If the database counts and fetches one list of matching rows,
  and every row can be rendered, then asking for page 0 to the last page the answer announces gives
  every matching row once and in order; no page asks for an offset beyond the range of \<open>int\<close>.\<close>

theorem pages_cover:
  fixes rows :: "'a list"
  assumes "parseStamp readTime start = Some s" "parseStamp readTime en = Some e" "s \<le> e"
    "\<forall>q. rowCount q = int (length rows)" "\<forall>q lim off. fetch q lim off = Inr (take (nat lim) (drop (nat off) rows))"
    "int (length rows) \<le> int_max"
  shows "\<exists>answer. (\<forall>page. queryRows readTime rowCount fetch Some cond start en page = Inr (answer page))
    \<and> concat (map (\<lambda>i. qr_data (answer (int i))) [0..<nat (qr_pages (answer 0))]) = rows
    \<and> (\<forall>page. qr_page (answer page) * qr_limit (answer page) \<le> int_max)"
proof -
  define answer where "answer page = pack Some (take 50 (drop (nat (clampPage page * 50)) rows)) (int (length rows)) (clampPage page)" for page
  have q: "queryRows readTime rowCount fetch Some cond start en page = Inr (answer page)" for page
    using assms by (simp add: queryRows_def answer_def kPageSize_def Let_def)
  have pages: "qr_pages (answer 0) = (int (length rows) + 49) div 50" by (simp add: answer_def pack_def kPageSize_def)
  have clamp: "clampPage (int i) = int i" if "i < nat (qr_pages (answer 0))" for i
    using that assms(6) by (auto simp: pages clampPage_def int_max_def kPageSize_def)
  have "concat (map (\<lambda>i. qr_data (answer (int i))) [0..<nat (qr_pages (answer 0))])
      = concat (map (\<lambda>i. take 50 (drop (i * 50) rows)) [0..<nat (qr_pages (answer 0))])"
    using clamp by (intro arg_cong[where f = concat] map_cong refl) (auto simp: answer_def pack_def map_filter_simps(1) nat_mult_distrib List.map_filter_def)
  moreover have "(int (length rows) + 49) div 50 = int ((length rows + 49) div 50)" by (simp add: zdiv_int)
  then have "concat (map (\<lambda>i. take 50 (drop (i * 50) rows)) [0..<nat (qr_pages (answer 0))]) = rows" unfolding pages
    by (simp only: nat_int) (rule chunks_cover, presburger)
  ultimately have "concat (map (\<lambda>i. qr_data (answer (int i))) [0..<nat (qr_pages (answer 0))]) = rows" by simp
  then show ?thesis using q page_offset_fits by (intro exI[of _ answer]) (auto simp: answer_def pack_def kPageSize_def)
qed

theorem pages_cover_witness:
  "\<exists>answer. (\<forall>page. queryOperation (\<lambda>s. Some (int (length s))) (\<lambda>_. 120) (\<lambda>_ lim off. Inr (take (nat lim) (drop (nat off) [0..<120]))) Some [] ''x'' page = Inr (answer page))
     \<and> concat (map (\<lambda>i. qr_data (answer (int i))) [0..<nat (qr_pages (answer 0))]) = [0..<120]"
proof -
  have p: "parseStamp (\<lambda>s. Some (int (length s))) [] = Some 0" "parseStamp (\<lambda>s. Some (int (length s))) ''x'' = Some 1" by (simp_all add: parseStamp_def)
  have "\<exists>answer. (\<forall>page. queryRows (\<lambda>s. Some (int (length s))) (\<lambda>_. 120) (\<lambda>_ lim off. Inr (take (nat lim) (drop (nat off) [0..<120]))) Some () [] ''x'' page = Inr (answer page))
      \<and> concat (map (\<lambda>i. qr_data (answer (int i))) [0..<nat (qr_pages (answer 0))]) = [0..<120]
      \<and> (\<forall>page. qr_page (answer page) * qr_limit (answer page) \<le> int_max)"
    by (rule pages_cover[OF p]) (simp_all add: int_max_def)
  then show ?thesis unfolding queryOperation_def by blast
qed

subsection \<open>The gate of the callbacks\<close>

text \<open>\<open>CallbackGate\<close>: \<open>closeAndDrain\<close> closes it and returns once no callback is inside.\<close>

record CallbackGate =
  gt_owner :: bool
  gt_accepting :: bool
  gt_active :: nat

definition newGate :: CallbackGate where
  "newGate = \<lparr>gt_owner = True, gt_accepting = True, gt_active = 0\<rparr>"

definition gateEnter :: "CallbackGate \<Rightarrow> CallbackGate option" where
  "gateEnter g = (if \<not> gt_accepting g \<or> \<not> gt_owner g then None else Some (g\<lparr>gt_active := Suc (gt_active g)\<rparr>))"

definition gateLeave :: "CallbackGate \<Rightarrow> CallbackGate" where
  "gateLeave g = g\<lparr>gt_active := gt_active g - 1\<rparr>"

definition gateOpen :: "CallbackGate \<Rightarrow> CallbackGate" where
  "gateOpen g = g\<lparr>gt_owner := True, gt_accepting := True\<rparr>"

definition gateClose :: "CallbackGate \<Rightarrow> CallbackGate" where
  "gateClose g = g\<lparr>gt_accepting := False\<rparr>"

definition gateDrained :: "CallbackGate \<Rightarrow> CallbackGate option" where
  "gateDrained g = (if gt_active g = 0 then Some (g\<lparr>gt_owner := False\<rparr>) else None)"

text \<open>Callbacks of several threads, and one thread that closes and opens: the number of callbacks inside their body, and whether the gate is closed for good.\<close>

record GateSystem =
  gs_gate :: CallbackGate
  gs_inside :: nat
  gs_shut :: bool

inductive gateStep :: "GateSystem \<Rightarrow> GateSystem \<Rightarrow> bool" where
  enter: "gateEnter (gs_gate x) = Some g \<Longrightarrow> gateStep x (x\<lparr>gs_gate := g, gs_inside := Suc (gs_inside x)\<rparr>)"
| leave: "0 < gs_inside x \<Longrightarrow> gateStep x (x\<lparr>gs_gate := gateLeave (gs_gate x), gs_inside := gs_inside x - 1\<rparr>)"
| close: "gateStep x (x\<lparr>gs_gate := gateClose (gs_gate x)\<rparr>)"
| drained: "\<not> gt_accepting (gs_gate x) \<Longrightarrow> gateDrained (gs_gate x) = Some g \<Longrightarrow> gateStep x (x\<lparr>gs_gate := g, gs_shut := True\<rparr>)"
| reopen: "gateStep x (x\<lparr>gs_gate := gateOpen (gs_gate x), gs_shut := False\<rparr>)"

text \<open>Once \<open>closeAndDrain\<close> has returned and until the module starts again, no callback is inside and none gets in.\<close>

theorem gate_is_barrier:
  assumes "reach (\<lambda>x. x = \<lparr>gs_gate = newGate, gs_inside = 0, gs_shut = False\<rparr>) gateStep x" "gs_shut x"
  shows "gs_inside x = 0 \<and> gateEnter (gs_gate x) = None"
proof -
  have "gt_active (gs_gate x) = gs_inside x \<and> (gs_shut x \<longrightarrow> gs_inside x = 0 \<and> \<not> gt_accepting (gs_gate x))"
    using assms(1)
  proof (induction rule: reach.induct)
    case (reach_step x y)
    then show ?case by (elim gateStep.cases) (auto simp: gateEnter_def gateLeave_def gateClose_def gateDrained_def gateOpen_def split: if_splits)
  qed (simp add: newGate_def)
  then show ?thesis using assms(2) by (simp add: gateEnter_def)
qed

end
