(* ===== verification/Persist_Schema.thy ===== *)
theory Persist_Schema
  imports Persistence
begin

text \<open>
  Preparing the database of the persistence module (\<open>ensureDatabaseExists\<close>, \<open>configureAndOpen\<close> and
  \<open>createTables\<close> in \<open>persistence/src/Persistence.cpp\<close>).  The database server is an argument: what it answers
  to opening, looking up and executing a statement.  A run gives whether it succeeded, the statements
  executed and the messages logged.
\<close>

record Preparation =
  prep_ok :: bool
  prep_statements :: "qstring list"
  prep_logged :: "qstring list"

definition prepared :: Preparation where
  "prepared = \<lparr>prep_ok = True, prep_statements = [], prep_logged = []\<rparr>"

definition prepFailed :: "qstring \<Rightarrow> Preparation \<Rightarrow> Preparation" where
  "prepFailed message p = p\<lparr>prep_ok := False, prep_logged := prep_logged p @ [message]\<rparr>"

definition execStatement :: "qstring \<Rightarrow> (qstring \<Rightarrow> qstring option) \<Rightarrow> qstring \<Rightarrow> Preparation \<Rightarrow> Preparation" where
  "execStatement failure exec sql p =
     (let p = p\<lparr>prep_statements := prep_statements p @ [sql]\<rparr>
      in case exec sql of None \<Rightarrow> p | Some e \<Rightarrow> prepFailed (qarg failure e) p)"

subsection \<open>The database\<close>

definition dquote :: char where "dquote = CHR 0x22"

definition quotedName :: "qstring \<Rightarrow> qstring" where
  "quotedName dbname = concat (map (\<lambda>c. if c = dquote then [dquote, dquote] else [c]) dbname)"

definition createDatabase :: "qstring \<Rightarrow> qstring" where
  "createDatabase dbname = qarg (''CREATE DATABASE '' @ [dquote] @ ''%1'' @ [dquote]) (quotedName dbname)"

text \<open>\<open>boot\<close> is the error of opening the server's own database; \<open>lookup\<close> fails or tells whether the database exists.\<close>

definition ensureDatabaseExists ::
  "bool \<Rightarrow> qstring option \<Rightarrow> (qstring \<Rightarrow> qstring + bool) \<Rightarrow> (qstring \<Rightarrow> qstring option) \<Rightarrow> PersistConfig \<Rightarrow> Preparation" where
  "ensureDatabaseExists autoCreate boot lookup exec c =
     (if pc_driver c \<noteq> ''QPSQL'' \<or> \<not> autoCreate then prepared
      else case boot of
             Some e \<Rightarrow> prepFailed (qarg ''bootstrap connect failed: %1'' e) prepared
           | None \<Rightarrow>
               (case lookup (pc_dbname c) of
                  Inl e \<Rightarrow> prepFailed (qarg ''database lookup failed: %1'' e) prepared
                | Inr True \<Rightarrow> prepared
                | Inr False \<Rightarrow> execStatement ''CREATE DATABASE failed: %1'' exec (createDatabase (pc_dbname c)) prepared))"

definition configureAndOpen :: "qstring option \<Rightarrow> Preparation" where
  "configureAndOpen failure = (case failure of None \<Rightarrow> prepared | Some e \<Rightarrow> prepFailed (qarg ''connect failed: %1'' e) prepared)"

subsection \<open>The tables\<close>

definition idType :: "qstring \<Rightarrow> qstring" where
  "idType driver = (if driver = ''QPSQL'' then ''BIGSERIAL PRIMARY KEY''
     else if driver = ''QMYSQL'' then ''BIGINT AUTO_INCREMENT PRIMARY KEY'' else ''INTEGER PRIMARY KEY AUTOINCREMENT'')"

definition ddl :: "(qstring \<Rightarrow> qstring option) \<Rightarrow> qstring \<Rightarrow> Preparation \<Rightarrow> Preparation" where
  "ddl = execStatement ''DDL failed: %1''"

definition telemetryTable :: "qstring \<Rightarrow> qstring" where
  "telemetryTable driver = qarg ''CREATE TABLE IF NOT EXISTS telemetry (id %1, tag VARCHAR(255) NOT NULL, ts BIGINT NOT NULL, value TEXT, quality INTEGER)'' (idType driver)"

definition operationTable :: "qstring \<Rightarrow> qstring" where
  "operationTable driver = qarg ''CREATE TABLE IF NOT EXISTS operation_log (id %1, ts BIGINT NOT NULL, actor TEXT, action TEXT, target TEXT, old_value TEXT, new_value TEXT, result TEXT, note TEXT)'' (idType driver)"

definition systemTable :: "qstring \<Rightarrow> qstring" where
  "systemTable driver = qarg ''CREATE TABLE IF NOT EXISTS system_log (id %1, ts BIGINT NOT NULL, level INTEGER, category TEXT, source TEXT, message TEXT)'' (idType driver)"

text \<open>MySQL has no \<open>IF NOT EXISTS\<close> for an index, so \<open>indexes\<close> is asked for their number first.\<close>

definition createIndex :: "(qstring \<Rightarrow> qstring option) \<Rightarrow> qstring + int \<Rightarrow> qstring \<Rightarrow> Preparation \<Rightarrow> Preparation" where
  "createIndex exec indexes driver p =
     (if driver = ''QMYSQL''
      then case indexes of
             Inl e \<Rightarrow> prepFailed (qarg ''index lookup failed: %1'' e) p
           | Inr n \<Rightarrow> if n = 0 then ddl exec ''CREATE INDEX idx_telemetry_tag_ts ON telemetry(tag, ts)'' p else p
      else ddl exec ''CREATE INDEX IF NOT EXISTS idx_telemetry_tag_ts ON telemetry(tag, ts)'' p)"

definition createTables :: "(qstring \<Rightarrow> qstring option) \<Rightarrow> qstring + int \<Rightarrow> qstring \<Rightarrow> Preparation" where
  "createTables exec indexes driver =
     ddl exec (systemTable driver) (ddl exec (operationTable driver) (createIndex exec indexes driver (ddl exec (telemetryTable driver) prepared)))"

text \<open>The three in the order of \<open>start\<close>, each only if the one before succeeded.\<close>

definition databaseReady ::
  "bool \<Rightarrow> qstring option \<Rightarrow> (qstring \<Rightarrow> qstring + bool) \<Rightarrow> qstring option \<Rightarrow> (qstring \<Rightarrow> qstring option) \<Rightarrow> qstring + int \<Rightarrow> PersistConfig \<Rightarrow> bool" where
  "databaseReady autoCreate boot lookup conn exec indexes c \<longleftrightarrow>
     prep_ok (ensureDatabaseExists autoCreate boot lookup exec c) \<and> prep_ok (configureAndOpen conn) \<and> prep_ok (createTables exec indexes (pc_driver c))"

subsection \<open>What is executed\<close>

text \<open>How SQL reads a delimited identifier after its opening quote: up to a quote that is not doubled.\<close>

fun readIdentifier :: "qstring \<Rightarrow> (qstring \<times> qstring) option" where
  "readIdentifier [] = None"
| "readIdentifier [c] = (if c = dquote then Some ([], []) else None)"
| "readIdentifier (c # d # s) =
     (if c = dquote then if d = dquote then map_option (apfst ((#) dquote)) (readIdentifier s) else Some ([], d # s)
      else map_option (apfst ((#) c)) (readIdentifier (d # s)))"

lemma readIdentifier_char: "c \<noteq> dquote \<Longrightarrow> s \<noteq> [] \<Longrightarrow> readIdentifier (c # s) = map_option (apfst ((#) c)) (readIdentifier s)"
  by (cases s) simp_all

lemma readIdentifier_quoted: "readIdentifier (quotedName dbname @ [dquote]) = Some (dbname, [])"
  by (induction dbname) (auto simp: quotedName_def readIdentifier_char)

text \<open>No name of a database breaks out of the statement that creates it: the server reads exactly that name.\<close>

theorem create_database_names_it:
  "\<exists>rest. createDatabase dbname = ''CREATE DATABASE '' @ dquote # rest \<and> readIdentifier rest = Some (dbname, [])"
proof -
  have "createDatabase dbname = ''CREATE DATABASE '' @ dquote # quotedName dbname @ [dquote]"
    by (simp add: createDatabase_def qarg_def lowest_marker.simps replace_marker.simps dquote_def digit_value_def)
  then show ?thesis using readIdentifier_quoted by blast
qed

lemma ddl_ok: "prep_ok (ddl exec sql p) \<longleftrightarrow> prep_ok p \<and> exec sql = None"
  and ddl_statements: "prep_statements (ddl exec sql p) = prep_statements p @ [sql]"
  by (auto simp: ddl_def execStatement_def prepFailed_def Let_def split: option.splits)

text \<open>
  All three tables are asked for whatever fails on the way, and the preparation succeeds exactly if
  every statement it executed did, and on MySQL the index could be looked up.
\<close>

theorem create_tables_complete:
  shows "set [telemetryTable driver, operationTable driver, systemTable driver] \<subseteq> set (prep_statements (createTables exec indexes driver))"
    and "prep_ok (createTables exec indexes driver) \<longleftrightarrow>
      (\<forall>sql \<in> set (prep_statements (createTables exec indexes driver)). exec sql = None) \<and> (driver = ''QMYSQL'' \<longrightarrow> (\<exists>n. indexes = Inr n))"
proof -
  have keeps: "set (prep_statements p) \<subseteq> set (prep_statements (createIndex exec indexes driver p))" for p
    by (auto simp: createIndex_def ddl_statements prepFailed_def split: sum.splits)
  show "set [telemetryTable driver, operationTable driver, systemTable driver] \<subseteq> set (prep_statements (createTables exec indexes driver))"
    using keeps[of "ddl exec (telemetryTable driver) prepared"] by (auto simp: createTables_def ddl_statements)
  have index: "prep_ok (createIndex exec indexes driver p) \<and> (\<forall>sql \<in> set (prep_statements p). exec sql = None) \<longleftrightarrow>
      prep_ok p \<and> (\<forall>sql \<in> set (prep_statements (createIndex exec indexes driver p)). exec sql = None) \<and> (driver = ''QMYSQL'' \<longrightarrow> (\<exists>n. indexes = Inr n))" for p
    by (auto simp: createIndex_def ddl_statements ddl_ok prepFailed_def split: sum.splits)
  have first: "prep_ok (ddl exec (telemetryTable driver) prepared) \<longleftrightarrow> (\<forall>sql \<in> set (prep_statements (ddl exec (telemetryTable driver) prepared)). exec sql = None)"
    by (simp add: ddl_ok ddl_statements prepared_def)
  have mono: "prep_ok (createIndex exec indexes driver p) \<Longrightarrow> prep_ok p" for p
    by (auto simp: createIndex_def ddl_ok prepFailed_def split: sum.splits if_splits)
  let ?p = "ddl exec (telemetryTable driver) prepared"
  let ?q = "createIndex exec indexes driver ?p"
  have ok: "prep_ok (createTables exec indexes driver) \<longleftrightarrow> prep_ok ?q \<and> exec (operationTable driver) = None \<and> exec (systemTable driver) = None"
    unfolding createTables_def ddl_ok by blast
  have statements: "set (prep_statements (createTables exec indexes driver)) = set (prep_statements ?q) \<union> {operationTable driver, systemTable driver}"
    unfolding createTables_def ddl_statements by auto
  show "prep_ok (createTables exec indexes driver) \<longleftrightarrow>
      (\<forall>sql \<in> set (prep_statements (createTables exec indexes driver)). exec sql = None) \<and> (driver = ''QMYSQL'' \<longrightarrow> (\<exists>n. indexes = Inr n))"
    unfolding ok statements ball_Un ball_simps using index[of ?p] first keeps[of ?p] mono[of ?p] by blast
qed

end
