(* ===== verification/Log_Sinks.thy ===== *)
theory Log_Sinks
  imports Persistence Mqtt_Topics
begin

text \<open>
  The sinks of the logger (\<open>src/Sinks.cpp\<close>): the lines they write and the rotation of the log file.
  The file system is a map from names to lines; the number of bytes of a line, the rendering of a
  time stamp and upper-casing a character are arguments, and so is whether opening the file succeeds.
\<close>

subsection \<open>Lines\<close>

definition leftJustified :: "nat \<Rightarrow> qstring \<Rightarrow> qstring" where
  "leftJustified width s = s @ replicate (width - length s) CHR '' ''"

definition categoryTag :: "(char \<Rightarrow> char) \<Rightarrow> qstring \<Rightarrow> qstring" where
  "categoryTag toUpper category =
     (let c = (if category = [] then ''app'' else category) in qarg ''[Core/%1]'' (toUpper (hd c) # tl c))"

definition fieldsToString :: "QtVariant \<Rightarrow> (qstring \<times> QVariant) list \<Rightarrow> qstring" where
  "fieldsToString qt kvs = concat (map (\<lambda>(key, v). '' '' @ key @ ''='' @ qt_toString qt v) kvs)"

text \<open>\<open>arg\<close> with several arguments replaces all markers at once, so that the arguments are just put side by side.\<close>

definition formatRecord :: "QtVariant \<Rightarrow> (char \<Rightarrow> char) \<Rightarrow> (int option \<Rightarrow> qstring) \<Rightarrow> LogRecord \<Rightarrow> (qstring \<times> QVariant) list \<Rightarrow> qstring" where
  "formatRecord qt toUpper stamp rec kvs =
     stamp (rec_ts rec) @ '' '' @ leftJustified 5 (levelName (rec_level rec)) @ '' '' @ leftJustified 16 (categoryTag toUpper (rec_category rec)) @ '' ''
       @ (if rec_source rec = [] then rec_message rec else rec_source rec @ '' '' @ rec_message rec) @ fieldsToString qt kvs"

definition formatOperation :: "QtVariant \<Rightarrow> (int option \<Rightarrow> qstring) \<Rightarrow> OperationRecord \<Rightarrow> qstring" where
  "formatOperation qt stamp rec =
     stamp (opr_ts rec) @ '' OP    [Core/Operation] action='' @ opr_action rec @ '' target='' @ opr_target rec @ '' ''
       @ qt_toString qt (opr_oldValue rec) @ ''->'' @ qt_toString qt (opr_newValue rec) @ '' result='' @ opr_result rec
       @ (if opr_note rec = [] then [] else '' note='' @ opr_note rec) @ qarg '' actor=%1'' (opr_actor rec)"

text \<open>What the console sink prints for a line; the colour codes start with the escape character.\<close>

definition escape :: "qstring \<Rightarrow> qstring" where
  "escape code = CHR 0x1B # CHR ''['' # code"

definition ansiColour :: "LogLevel \<Rightarrow> qstring" where
  "ansiColour level = escape (case level of Trace \<Rightarrow> ''90m'' | Debug \<Rightarrow> ''36m'' | Info \<Rightarrow> ''0m'' | Warn \<Rightarrow> ''33m'' | ErrorLevel \<Rightarrow> ''31m'' | Critical \<Rightarrow> ''1;31m'')"

definition consoleRecord :: "bool \<Rightarrow> LogLevel \<Rightarrow> qstring \<Rightarrow> qstring" where
  "consoleRecord colour level line = (if colour then ansiColour level @ line @ escape ''0m'' else line) @ [CHR 0x0A]"

definition consoleOperation :: "qstring \<Rightarrow> qstring" where
  "consoleOperation line = line @ [CHR 0x0A]"

subsection \<open>The rolling file\<close>

type_synonym Files = "qstring \<rightharpoonup> qstring list"

record RollingFile =
  rf_path :: qstring
  rf_maxBytes :: int
  rf_maxFiles :: int
  rf_isOpen :: bool

definition rotatedName :: "qstring \<Rightarrow> int \<Rightarrow> qstring" where
  "rotatedName path i = qarg (qarg ''%1.%2'' path) (show_int i)"

text \<open>\<open>QFile::rename\<close> does nothing when the new name is taken or there is no such file.\<close>

definition renameFile :: "qstring \<Rightarrow> qstring \<Rightarrow> Files \<Rightarrow> Files" where
  "renameFile from to fs = (case (fs from, fs to) of (Some ls, None) \<Rightarrow> fs(from := None, to := Some ls) | _ \<Rightarrow> fs)"

definition openFile :: "bool \<Rightarrow> RollingFile \<times> Files \<Rightarrow> RollingFile \<times> Files" where
  "openFile ok = (\<lambda>(r, fs). if ok then (r\<lparr>rf_isOpen := True\<rparr>, if fs (rf_path r) = None then fs(rf_path r \<mapsto> []) else fs) else (r, fs))"

definition newRollingFile :: "bool \<Rightarrow> qstring \<Rightarrow> int \<Rightarrow> int \<Rightarrow> Files \<Rightarrow> RollingFile \<times> Files" where
  "newRollingFile ok path maxBytes maxFiles fs =
     openFile ok (\<lparr>rf_path = path, rf_maxBytes = maxBytes, rf_maxFiles = max 1 maxFiles, rf_isOpen = False\<rparr>, fs)"

definition fileSize :: "(qstring \<Rightarrow> nat) \<Rightarrow> qstring list \<Rightarrow> int" where
  "fileSize bytes ls = int (sum_list (map bytes ls))"

definition shiftFiles :: "qstring \<Rightarrow> int \<Rightarrow> Files \<Rightarrow> Files" where
  "shiftFiles path n fs = fold (\<lambda>i. renameFile (rotatedName path i) (rotatedName path (i + 1))) (rev [1..n - 1]) fs"

definition rotateFiles :: "qstring \<Rightarrow> int \<Rightarrow> Files \<Rightarrow> Files" where
  "rotateFiles path n fs = renameFile path (qarg ''%1.1'' path) (shiftFiles path n (fs(rotatedName path n := None)))"

definition rotateIfNeeded :: "(qstring \<Rightarrow> nat) \<Rightarrow> bool \<Rightarrow> RollingFile \<times> Files \<Rightarrow> RollingFile \<times> Files" where
  "rotateIfNeeded bytes ok = (\<lambda>(r, fs).
     if rf_maxBytes r \<le> 0 \<or> fileSize bytes (case fs (rf_path r) of None \<Rightarrow> [] | Some ls \<Rightarrow> ls) < rf_maxBytes r then (r, fs)
     else openFile ok (r\<lparr>rf_isOpen := False\<rparr>, rotateFiles (rf_path r) (rf_maxFiles r) fs))"

definition writeLine :: "(qstring \<Rightarrow> nat) \<Rightarrow> bool \<Rightarrow> qstring \<Rightarrow> RollingFile \<times> Files \<Rightarrow> RollingFile \<times> Files" where
  "writeLine bytes ok line = (\<lambda>(r, fs).
     if \<not> rf_isOpen r then (r, fs)
     else rotateIfNeeded bytes ok (r, fs(rf_path r \<mapsto> (case fs (rf_path r) of None \<Rightarrow> [] | Some ls \<Rightarrow> ls) @ [line])))"

subsection \<open>What the files hold\<close>

lemma place_marker_dot:
  assumes "place_marker (c # s) = None"
  shows "place_marker (c # s @ CHR ''.'' # t) = None"
proof (cases s)
  case Nil
  then show ?thesis by (cases t) (simp_all add: digit_value_def)
next
  case (Cons d s')
  have dot: "marker_digits (u @ CHR ''.'' # t) = None" if "marker_digits u = None" for u
    using that by (cases u rule: marker_digits.cases; cases t) (auto simp: digit_value_def split: option.splits if_splits)
  then show ?thesis using assms Cons dot[of s'] dot[of "d # s'"] by (auto split: if_splits)
qed

lemma unmarked_append:
  "lowest_marker s = None \<Longrightarrow> lowest_marker (s @ CHR ''.'' # t) = lowest_marker (CHR ''.'' # t)
     \<and> replace_marker k a (s @ CHR ''.'' # t) = s @ replace_marker k a (CHR ''.'' # t)"
proof (induction s rule: template_induct)
  case (Char c s)
  then show ?case using place_marker_dot[OF Char.hyps(1), of t] by (simp add: marker_simps del: place_marker.simps)
next
  case (Marker c s n r)
  then show ?case by (auto simp: marker_simps simp del: place_marker.simps split: option.splits)
qed simp

lemma rotatedName_plain:
  assumes "lowest_marker path = None"
  shows "rotatedName path i = path @ CHR ''.'' # show_int i"
proof -
  have "qarg ''%1.%2'' path = path @ ''.%2''"
    by (simp add: qarg_def lowest_marker.simps replace_marker.simps digit_value_def)
  moreover have "lowest_marker ''.%2'' = Some 2" "replace_marker 2 a ''.%2'' = CHR ''.'' # a" for a
    by (simp_all add: lowest_marker.simps replace_marker.simps digit_value_def)
  ultimately show ?thesis using unmarked_append[OF assms, of "''%2''"] by (simp add: rotatedName_def qarg_def)
qed

lemma firstName_plain: "lowest_marker path = None \<Longrightarrow> qarg ''%1.1'' path = rotatedName path 1"
proof -
  have "show_int 1 = ''1''" by code_simp
  moreover have "qarg ''%1.1'' path = path @ ''.1''" by (simp add: qarg_def lowest_marker.simps replace_marker.simps digit_value_def)
  ultimately show "lowest_marker path = None \<Longrightarrow> qarg ''%1.1'' path = rotatedName path 1" by (simp add: rotatedName_plain)
qed

text \<open>The file at a place: the log itself at 0, behind it the rotated ones, the older the higher.\<close>

definition nameAt :: "qstring \<Rightarrow> int \<Rightarrow> qstring" where
  "nameAt path i = (if i = 0 then path else rotatedName path i)"

definition fileAt :: "qstring \<Rightarrow> Files \<Rightarrow> int \<Rightarrow> qstring list option" where
  "fileAt path fs i = fs (nameAt path i)"

lemma nameAt_inj: "lowest_marker path = None \<Longrightarrow> nameAt path i = nameAt path j \<longleftrightarrow> i = j"
  using show_int_inj by (auto simp: nameAt_def rotatedName_plain)

lemma fileAt_upd: "lowest_marker path = None \<Longrightarrow> fileAt path (fs(nameAt path j := x)) = (fileAt path fs)(j := x)"
  by (auto simp: fileAt_def nameAt_inj)

lemma renameFile_free: "fs to = None \<Longrightarrow> from \<noteq> to \<Longrightarrow> renameFile from to fs = fs(from := None, to := fs from)"
  by (auto simp: renameFile_def split: option.splits)

lemma fileAt_rename:
  assumes "lowest_marker path = None" "fileAt path fs j = None" "i \<noteq> j"
  shows "fileAt path (renameFile (nameAt path i) (nameAt path j) fs) = (fileAt path fs)(i := None, j := fileAt path fs i)"
proof -
  have "renameFile (nameAt path i) (nameAt path j) fs = fs(nameAt path i := None, nameAt path j := fs (nameAt path i))"
    using assms by (intro renameFile_free) (simp_all add: fileAt_def nameAt_inj)
  then show ?thesis by (simp add: fileAt_upd[OF assms(1)]) (simp add: fileAt_def)
qed

lemma fileAt_shift:
  assumes "lowest_marker path = None"
  shows "fileAt path fs (int m + 1) = None \<Longrightarrow> fileAt path (shiftFiles path (int m + 1) fs)
    = (\<lambda>i. if i = 1 then None else if 2 \<le> i \<and> i \<le> int m + 1 then fileAt path fs (i - 1) else fileAt path fs i)"
proof (induction m arbitrary: fs)
  case 0
  then show ?case by (auto simp: shiftFiles_def)
next
  case (Suc m)
  let ?fs = "renameFile (nameAt path (int m + 1)) (nameAt path (int m + 2)) fs"
  have fs': "fileAt path ?fs = (fileAt path fs)(int m + 1 := None, int m + 2 := fileAt path fs (int m + 1))"
    using Suc.prems by (intro fileAt_rename[OF assms]) (simp_all add: add.commute)
  have *: "shiftFiles path (int (Suc m) + 1) fs = shiftFiles path (int m + 1) ?fs"
    using upto_rec2[of 1 "int m + 1"] by (simp add: shiftFiles_def nameAt_def add.commute)
  have ih: "fileAt path (shiftFiles path (int m + 1) ?fs)
      = (\<lambda>i. if i = 1 then None else if 2 \<le> i \<and> i \<le> int m + 1 then fileAt path ?fs (i - 1) else fileAt path ?fs i)"
    by (rule Suc.IH) (simp add: fs')
  show ?case unfolding * ih by (intro ext) (auto simp: fs' intro!: arg_cong[where f = "fileAt path fs"])
qed

lemma fileAt_rotate:
  assumes "lowest_marker path = None" "1 \<le> n"
  shows "fileAt path (rotateFiles path n fs) i
    = (if i = 0 then None else if 1 \<le> i \<and> i \<le> n then fileAt path fs (i - 1) else fileAt path fs i)"
proof -
  obtain m where m: "n = int m + 1" using assms(2) by (metis add.commute zle_iff_zadd)
  let ?fs = "fs(nameAt path n := None)"
  have fs': "fileAt path ?fs = (fileAt path fs)(n := None)" by (rule fileAt_upd[OF assms(1)])
  have shifted: "fileAt path (shiftFiles path n ?fs) = (\<lambda>i. if i = 1 then None else if 2 \<le> i \<and> i \<le> n then fileAt path ?fs (i - 1) else fileAt path ?fs i)"
    using fileAt_shift[OF assms(1), of ?fs m] unfolding m[symmetric] by (simp add: fs')
  have "rotateFiles path n fs = renameFile (nameAt path 0) (nameAt path 1) (shiftFiles path n ?fs)"
    using assms(2) by (simp add: rotateFiles_def nameAt_def firstName_plain[OF assms(1)])
  moreover have "fileAt path (renameFile (nameAt path 0) (nameAt path 1) (shiftFiles path n ?fs)) = (fileAt path (shiftFiles path n ?fs))(0 := None, 1 := fileAt path (shiftFiles path n ?fs) 0)"
    by (rule fileAt_rename[OF assms(1)]) (simp_all add: shifted)
  ultimately show ?thesis using assms(2) by (auto simp: shifted fs')
qed

definition linesAt :: "qstring \<Rightarrow> Files \<Rightarrow> int \<Rightarrow> qstring list" where
  "linesAt path fs i = (case fileAt path fs i of None \<Rightarrow> [] | Some ls \<Rightarrow> ls)"

text \<open>The lines of all files, the oldest first.\<close>

definition retained :: "RollingFile \<Rightarrow> Files \<Rightarrow> qstring list" where
  "retained r fs = concat (map (linesAt (rf_path r) fs) (rev [0..rf_maxFiles r]))"

definition rolling_ok :: "(qstring \<Rightarrow> nat) \<Rightarrow> nat \<Rightarrow> RollingFile \<Rightarrow> Files \<Rightarrow> bool" where
  "rolling_ok bytes longest r fs \<longleftrightarrow> lowest_marker (rf_path r) = None \<and> 0 < rf_maxBytes r \<and> 1 \<le> rf_maxFiles r \<and> rf_isOpen r
     \<and> fileSize bytes (linesAt (rf_path r) fs 0) < rf_maxBytes r
     \<and> (\<forall>i. 1 \<le> i \<and> i \<le> rf_maxFiles r \<longrightarrow> fileSize bytes (linesAt (rf_path r) fs i) < rf_maxBytes r + int longest)"

lemma upto_shift: "map (\<lambda>i. f (i - 1)) [1..n] = map f [0..n - 1]" for f :: "int \<Rightarrow> 'a" and n :: int
proof -
  have "[1..n] = map (\<lambda>i. i + 1) [0..n - 1]" by (rule nth_equalityI) auto
  then show ?thesis by (simp add: comp_def)
qed

lemma retained_rotate:
  assumes "lowest_marker (rf_path r) = None" "1 \<le> rf_maxFiles r"
  shows "retained r fs = linesAt (rf_path r) fs (rf_maxFiles r) @ retained r (rotateFiles (rf_path r) (rf_maxFiles r) fs)"
proof -
  let ?fs = "rotateFiles (rf_path r) (rf_maxFiles r) fs"
  let ?n = "rf_maxFiles r"
  have new: "linesAt (rf_path r) ?fs i = (if i = 0 then [] else linesAt (rf_path r) fs (i - 1))" if "0 \<le> i" "i \<le> ?n" for i
    using that fileAt_rotate[OF assms] by (simp add: linesAt_def)
  have "map (linesAt (rf_path r) ?fs) [0..?n] = linesAt (rf_path r) ?fs 0 # map (linesAt (rf_path r) ?fs) [1..?n]"
    using upto_rec1[of 0 ?n] assms(2) by simp
  also have "\<dots> = [] # map (\<lambda>i. linesAt (rf_path r) fs (i - 1)) [1..?n]" using assms(2) by (simp add: new)
  finally have "map (linesAt (rf_path r) ?fs) (rev [0..?n]) = map (linesAt (rf_path r) fs) (rev [0..?n - 1]) @ [[]]"
    by (simp add: upto_shift rev_map[symmetric])
  moreover have "map (linesAt (rf_path r) fs) (rev [0..?n]) = linesAt (rf_path r) fs ?n # map (linesAt (rf_path r) fs) (rev [0..?n - 1])"
    using upto_rec2[of 0 ?n] assms(2) by simp
  ultimately show ?thesis by (simp add: retained_def)
qed

lemma linesAt_rotate:
  assumes "lowest_marker path = None" "1 \<le> n"
  shows "linesAt path (rotateFiles path n fs) i = (if i = 0 then [] else if 1 \<le> i \<and> i \<le> n then linesAt path fs (i - 1) else linesAt path fs i)"
  using fileAt_rotate[OF assms] by (simp add: linesAt_def)

lemma linesAt_append:
  "lowest_marker path = None \<Longrightarrow> linesAt path (fs(path \<mapsto> ls)) i = (if i = 0 then ls else linesAt path fs i)"
  using fileAt_upd[of path fs 0 "Some ls"] by (simp add: linesAt_def nameAt_def)

lemma linesAt_open:
  assumes "rf_path r = path" "lowest_marker path = None"
  shows "linesAt path (snd (openFile True (r, fs))) i = linesAt path fs i"
proof (cases "fs path")
  case None
  then have "linesAt path fs 0 = []" by (simp add: linesAt_def fileAt_def nameAt_def)
  then show ?thesis using None assms linesAt_append[OF assms(2), of fs "[]" i] by (auto simp: openFile_def)
qed (use assms in \<open>simp add: openFile_def\<close>)

lemma fst_open: "fst (openFile ok (r, fs)) = (if ok then r\<lparr>rf_isOpen := True\<rparr> else r)"
  by (simp add: openFile_def)

lemma retained_cong: "(\<And>i. linesAt (rf_path r) fs i = linesAt (rf_path r) fs' i) \<Longrightarrow> retained r fs = retained r fs'"
  by (simp add: retained_def cong: map_cong)

lemma retained_append:
  assumes "lowest_marker (rf_path r) = None" "1 \<le> rf_maxFiles r"
  shows "retained r (fs(rf_path r \<mapsto> linesAt (rf_path r) fs 0 @ [line])) = retained r fs @ [line]"
proof -
  have all: "[0..rf_maxFiles r] = 0 # [1..rf_maxFiles r]" using upto_rec1[of 0 "rf_maxFiles r"] assms(2) by simp
  have tail: "map (linesAt (rf_path r) (fs(rf_path r \<mapsto> linesAt (rf_path r) fs 0 @ [line]))) [1..rf_maxFiles r] = map (linesAt (rf_path r) fs) [1..rf_maxFiles r]"
    by (rule map_cong) (auto simp: linesAt_append[OF assms(1)])
  show ?thesis by (simp add: all retained_def linesAt_append[OF assms(1)] rev_map[symmetric] tail)
qed

text \<open>One line: it is kept as the newest one, at most the oldest file is given up, and sizes stay bounded.\<close>

lemma writeLine_step:
  assumes ok: "rolling_ok bytes longest r fs" and short: "bytes line \<le> longest" and step: "writeLine bytes True line (r, fs) = (r', fs')"
  shows "r' = r" and "rolling_ok bytes longest r fs'" and "\<exists>gone. retained r fs @ [line] = gone @ retained r fs'"
proof -
  let ?path = "rf_path r"
  let ?fs = "fs(?path \<mapsto> linesAt ?path fs 0 @ [line])"
  note facts = ok[unfolded rolling_ok_def]
  have unmarked: "lowest_marker ?path = None" and n: "1 \<le> rf_maxFiles r" and isOpen: "rf_isOpen r" using facts by auto
  have current: "(case fs ?path of None \<Rightarrow> [] | Some ls \<Rightarrow> ls) = linesAt ?path fs 0" by (simp add: linesAt_def fileAt_def nameAt_def)
  have rotated: "writeLine bytes True line (r, fs) = rotateIfNeeded bytes True (r, ?fs)" using isOpen by (simp add: writeLine_def current)
  have size: "fileSize bytes (linesAt ?path fs 0 @ [line]) < rf_maxBytes r + int longest" using facts short by (simp add: fileSize_def)
  have "r' = r \<and> rolling_ok bytes longest r fs' \<and> (\<exists>gone. retained r fs @ [line] = gone @ retained r fs')"
  proof (cases "fileSize bytes (linesAt ?path fs 0 @ [line]) < rf_maxBytes r")
    case True
    then have "(r', fs') = (r, ?fs)" using rotated step by (simp add: rotateIfNeeded_def)
    then show ?thesis using True facts by (auto simp: rolling_ok_def linesAt_append retained_append[OF unmarked n])
  next
    case False
    let ?rot = "rotateFiles ?path (rf_maxFiles r) ?fs"
    have "(r', fs') = openFile True (r\<lparr>rf_isOpen := False\<rparr>, ?rot)" using False facts rotated step by (simp add: rotateIfNeeded_def)
    then have r': "r' = r" and lines: "linesAt ?path fs' i = linesAt ?path ?rot i" for i
      using fst_open[of True "r\<lparr>rf_isOpen := False\<rparr>" ?rot] linesAt_open[OF _ unmarked, of "r\<lparr>rf_isOpen := False\<rparr>" ?rot] isOpen
      by (simp_all add: prod_eq_iff)
    have "rolling_ok bytes longest r fs'" using facts size by (auto simp: rolling_ok_def lines linesAt_rotate[OF unmarked n] linesAt_append fileSize_def)
    moreover have "retained r fs @ [line] = linesAt ?path ?fs (rf_maxFiles r) @ retained r fs'"
      using retained_rotate[OF unmarked n, of ?fs] retained_cong[of r fs' ?rot, OF lines] by (simp add: retained_append[OF unmarked n])
    ultimately show ?thesis using r' by blast
  qed
  then show "r' = r" "rolling_ok bytes longest r fs'" "\<exists>gone. retained r fs @ [line] = gone @ retained r fs'" by blast+
qed

text \<open>
  The files of the rolling log, the oldest first, hold the last lines written, in order and none twice, and none of them
  grows beyond the limit by more than one line: when the file name has no place marker, the
  limit is positive and every reopening succeeds.
\<close>

theorem rolling_log_keeps_suffix:
  assumes "lowest_marker path = None" "0 < maxBytes" "newRollingFile True path maxBytes maxFiles Map.empty = (r, fs)"
    and "\<forall>line \<in> set ls. bytes line \<le> longest" "fold (writeLine bytes True) ls (r, fs) = (r', fs')"
  shows "\<exists>gone. ls = gone @ retained r fs'" and "rolling_ok bytes longest r fs'"
proof -
  have r: "rf_path r = path" "rf_maxBytes r = maxBytes" "rf_maxFiles r = max 1 maxFiles" "rf_isOpen r" and fs: "fs = [path \<mapsto> []]"
    using assms(3) by (auto simp: newRollingFile_def openFile_def)
  have lines: "linesAt path fs i = []" for i
    using linesAt_append[OF assms(1), of Map.empty "[]" i] by (simp add: fs linesAt_def fileAt_def)
  have start: "rolling_ok bytes longest r fs" "retained r fs = []" using assms(1,2) by (simp_all add: rolling_ok_def r lines fileSize_def retained_def)
  have "rolling_ok bytes longest r f \<Longrightarrow> \<forall>line \<in> set ls. bytes line \<le> longest \<Longrightarrow> fold (writeLine bytes True) ls (r, f) = (r', f') \<Longrightarrow>
      rolling_ok bytes longest r f' \<and> (\<exists>gone. retained r f @ ls = gone @ retained r f')" for f r' f'
  proof (induction ls arbitrary: f)
    case (Cons line ls)
    obtain r1 f1 where step: "writeLine bytes True line (r, f) = (r1, f1)" by fastforce
    have bound: "bytes line \<le> longest" using Cons.prems(2) by simp
    note one = writeLine_step[OF Cons.prems(1) bound step]
    obtain gone where "retained r f @ [line] = gone @ retained r f1" using one(3) by blast
    moreover obtain gone' where "retained r f1 @ ls = gone' @ retained r f'" "rolling_ok bytes longest r f'"
      using Cons.IH[OF one(2)] Cons.prems(2,3) step one(1) by auto
    ultimately have "retained r f @ line # ls = (gone @ gone') @ retained r f'" by (metis append.assoc append_Cons append_Nil)
    then show ?case using \<open>rolling_ok bytes longest r f'\<close> by blast
  qed auto
  from this[OF start(1) assms(4,5)] show "\<exists>gone. ls = gone @ retained r fs'" "rolling_ok bytes longest r fs'" by (simp_all add: start(2))
qed

end
