(* ===== verification/Lua_Codec.thy ===== *)
theory Lua_Codec
  imports Codecs
begin

text \<open>
  The codec that runs a Lua script (\<open>src/LuaCodec.cpp\<close>).  The script is outside: its two functions
  take and return Lua values and may change the interpreter's state, and a call may fail.  A table is
  what indexing it by a positive integer gives.
\<close>

datatype LuaValue = LuaNil | LuaBoolean bool | LuaInteger u64 | LuaFloat double | LuaString qstring | LuaTable "nat \<Rightarrow> LuaValue" | LuaOther

record LuaCtx =
  ctx_address :: int
  ctx_count :: int
  ctx_scale :: double
  ctx_offset :: double
  ctx_arg :: qstring

type_synonym 's LuaFunction = "LuaValue \<Rightarrow> LuaCtx \<Rightarrow> 's \<Rightarrow> LuaValue option \<times> 's"

record 's LuaCodec =
  lua_id :: qstring
  lua_arg :: qstring
  lua_decodeFn :: "'s LuaFunction"
  lua_encodeFn :: "'s LuaFunction"
  lua_state :: 's

subsection \<open>Loading\<close>

text \<open>What running the script gives: an error, or the functions of the table it returns and the global ones.\<close>

record 's LuaScript =
  scr_table :: "'s LuaFunction option \<times> 's LuaFunction option"
  scr_globals :: "'s LuaFunction option \<times> 's LuaFunction option"
  scr_state :: 's

definition orGlobal :: "'a option \<Rightarrow> 'a option \<Rightarrow> 'a option" where
  "orGlobal f g = (if f = None then g else f)"

definition fromFile :: "(qstring \<Rightarrow> bool) \<Rightarrow> (qstring \<Rightarrow> qstring + 's LuaScript) \<Rightarrow> qstring \<Rightarrow> qstring \<Rightarrow> qstring \<Rightarrow> qstring + 's LuaCodec" where
  "fromFile exists load i path arg =
     (if \<not> exists path then Inl (qarg ''lua script not found: %1'' path)
      else case load path of
             Inl what \<Rightarrow> Inl (''lua load error in '' @ path @ '': '' @ what)
           | Inr scr \<Rightarrow>
               (case (orGlobal (fst (scr_table scr)) (fst (scr_globals scr)), orGlobal (snd (scr_table scr)) (snd (scr_globals scr))) of
                  (Some dec, Some enc) \<Rightarrow> Inr \<lparr>lua_id = i, lua_arg = arg, lua_decodeFn = dec, lua_encodeFn = enc, lua_state = scr_state scr\<rparr>
                | _ \<Rightarrow> Inl (qarg ''lua script %1 must provide decode/encode'' path)))"

subsection \<open>Values\<close>

definition toLua :: "QtVariant \<Rightarrow> QVariant \<Rightarrow> LuaValue" where
  "toLua qt v = (case v of
     QBool b \<Rightarrow> LuaBoolean b
   | QS32 n \<Rightarrow> LuaInteger (scast n)
   | QU32 n \<Rightarrow> LuaInteger (ucast n)
   | QS64 n \<Rightarrow> LuaInteger n
   | QU64 n \<Rightarrow> LuaInteger n
   | QDouble d \<Rightarrow> LuaFloat d
   | QText s \<Rightarrow> LuaString s
   | _ \<Rightarrow> LuaString (qt_toString qt v))"

definition fromLua :: "LuaValue \<Rightarrow> QVariant" where
  "fromLua o' = (case o' of
     LuaBoolean b \<Rightarrow> QBool b
   | LuaInteger n \<Rightarrow> QS64 n
   | LuaFloat d \<Rightarrow> QDouble d
   | LuaString s \<Rightarrow> QText s
   | _ \<Rightarrow> QInvalid)"

definition makeCtx :: "int \<Rightarrow> PortRef \<Rightarrow> 's LuaCodec \<Rightarrow> LuaCtx" where
  "makeCtx regCount ref c = \<lparr>ctx_address = ref_address ref, ctx_count = regCount, ctx_scale = ref_scale ref, ctx_offset = ref_offset ref, ctx_arg = lua_arg c\<rparr>"

definition luaRegisters :: "u16 list \<Rightarrow> LuaValue" where
  "luaRegisters raw = LuaTable (\<lambda>i. if 1 \<le> i \<and> i \<le> length raw then LuaInteger (ucast (raw ! (i - 1))) else LuaNil)"

definition luaDecode :: "u16 list \<Rightarrow> PortRef \<Rightarrow> 's LuaCodec \<Rightarrow> QVariant \<times> 's LuaCodec" where
  "luaDecode raw ref c =
     (case lua_decodeFn c (luaRegisters raw) (makeCtx (int (length raw)) ref c) (lua_state c) of
        (r, st) \<Rightarrow> ((case r of None \<Rightarrow> QInvalid | Some o' \<Rightarrow> fromLua o'), c\<lparr>lua_state := st\<rparr>))"

text \<open>
  \<open>as<double>\<close> of a number, and the register it becomes.  \<open>toUInt32\<close> is the conversion of a \<open>double\<close> to
  \<open>quint32\<close>, which C++ leaves undefined outside the range of the type.
\<close>

definition luaNumber :: "Fpu \<Rightarrow> LuaValue \<Rightarrow> double option" where
  "luaNumber fpu o' = (case o' of LuaInteger n \<Rightarrow> Some (fp_of_int fpu (sint n)) | LuaFloat d \<Rightarrow> Some d | _ \<Rightarrow> None)"

definition registerOf :: "(double \<Rightarrow> u32) \<Rightarrow> double \<Rightarrow> u16" where
  "registerOf toUInt32 d = ucast (toUInt32 d AND 0xFFFF)"

text \<open>The loop has no bound of its own: a table that answers every index with a number makes it run for ever.\<close>

partial_function (option) tableLoop :: "Fpu \<Rightarrow> (double \<Rightarrow> u32) \<Rightarrow> (nat \<Rightarrow> LuaValue) \<Rightarrow> nat \<Rightarrow> u16 list \<Rightarrow> u16 list option" where
  "tableLoop fpu toUInt32 t i out =
     (case luaNumber fpu (t i) of None \<Rightarrow> Some out | Some d \<Rightarrow> tableLoop fpu toUInt32 t (i + 1) (out @ [registerOf toUInt32 d]))"

definition luaEncode :: "Fpu \<Rightarrow> QtVariant \<Rightarrow> (double \<Rightarrow> u32) \<Rightarrow> QVariant \<Rightarrow> PortRef \<Rightarrow> 's LuaCodec \<Rightarrow> (u16 list \<times> 's LuaCodec) option" where
  "luaEncode fpu qt toUInt32 v ref c =
     (case lua_encodeFn c (toLua qt v) (makeCtx 0 ref c) (lua_state c) of
        (r, st) \<Rightarrow>
          map_option (\<lambda>regs. (regs, c\<lparr>lua_state := st\<rparr>))
            (case r of Some (LuaTable t) \<Rightarrow> tableLoop fpu toUInt32 t 1 [] | _ \<Rightarrow> Some []))"

subsection \<open>What comes back\<close>

lemma tableLoop_stops:
  "\<forall>k<n. luaNumber fpu (t (i + k)) = Some (d k) \<Longrightarrow> luaNumber fpu (t (i + n)) = None \<Longrightarrow>
   tableLoop fpu toUInt32 t i out = Some (out @ map (registerOf toUInt32 \<circ> d) [0..<n])"
proof (induction n arbitrary: i out d)
  case 0
  then show ?case by (subst tableLoop.simps) simp
next
  case (Suc n)
  have "tableLoop fpu toUInt32 t (Suc i) (out @ [registerOf toUInt32 (d 0)]) = Some ((out @ [registerOf toUInt32 (d 0)]) @ map (registerOf toUInt32 \<circ> (\<lambda>k. d (Suc k))) [0..<n])"
  proof (rule Suc.IH)
    show "\<forall>k<n. luaNumber fpu (t (Suc i + k)) = Some (d (Suc k))" using Suc.prems(1) by (metis Suc_less_eq add_Suc_shift)
    show "luaNumber fpu (t (Suc i + n)) = None" using Suc.prems(2) by simp
  qed
  moreover have "luaNumber fpu (t i) = Some (d 0)" using Suc.prems(1) by (metis add.right_neutral zero_less_Suc)
  ultimately show ?case by (subst tableLoop.simps) (simp add: upt_conv_Cons map_Suc_upt[symmetric] comp_def del: upt_Suc)
qed

text \<open>
  A script that returns a table of numbers up to a first other entry gives as many registers; any
  other result gives none.  A datapoint of 16 bits reaches the script as text, one of 32 bits as a number.
\<close>

theorem lua_encode_registers:
  assumes "lua_encodeFn c (toLua qt v) (makeCtx 0 ref c) (lua_state c) = (Some (LuaTable t), st)"
    and "\<forall>k<n. luaNumber fpu (t (1 + k)) = Some (d k)" "luaNumber fpu (t (1 + n)) = None"
  shows "luaEncode fpu qt toUInt32 v ref c = Some (map (registerOf toUInt32 \<circ> d) [0..<n], c\<lparr>lua_state := st\<rparr>)"
  using assms(1) tableLoop_stops[OF assms(2,3)] by (simp add: luaEncode_def)

theorem lua_sixteen_bit_is_text:
  "toLua qt (QU16 n) = LuaString (qt_toString qt (QU16 n)) \<and> toLua qt (QU32 m) = LuaInteger (ucast m)"
  by (simp add: toLua_def)

text \<open>The loop that reads the table returns only if some entry is not a number.\<close>

lemma tableLoop_Some: "tableLoop fpu toUInt32 t i out = Some regs \<Longrightarrow> \<exists>k. luaNumber fpu (t k) = None"
  by (induction rule: tableLoop.raw_induct[rotated, consumes 1, case_names step]) (auto split: option.splits)

theorem lua_encode_may_not_return:
  assumes "lua_encodeFn c (toLua qt v) (makeCtx 0 ref c) (lua_state c) = (Some (LuaTable t), st)" "\<forall>k. luaNumber fpu (t k) \<noteq> None"
  shows "luaEncode fpu qt toUInt32 v ref c = None"
proof -
  have "tableLoop fpu toUInt32 t 1 [] = None" using assms(2) tableLoop_Some by (metis not_None_eq)
  then show ?thesis using assms(1) by (simp add: luaEncode_def)
qed

end
